theory Spec2Isabelle
  imports Complex_Main "HOL-Library.Sublist"
begin

section \<open>JavaScript values shared by the models\<close>

text \<open>
  JavaScript numbers are modelled as exact rationals extended by the two infinities
  (the default \<open>maxResolution\<close> of a layer is \<open>Infinity\<close>) and by \<open>NaN\<close>. Rounding of
  IEEE doubles and the sign of zero are not part of the model.
\<close>

datatype jsnum = NaN | NegInf | Fin rat | PosInf

text \<open>The comparison \<open><=\<close> of two numbers: false whenever one of them is \<open>NaN\<close>.\<close>

fun js_le :: "jsnum \<Rightarrow> jsnum \<Rightarrow> bool" where
  "js_le NaN _ = False"
| "js_le _ NaN = False"
| "js_le NegInf _ = True"
| "js_le (Fin a) NegInf = False"
| "js_le (Fin a) (Fin b) = (a \<le> b)"
| "js_le (Fin a) PosInf = True"
| "js_le PosInf PosInf = True"
| "js_le PosInf _ = False"

text \<open>
  \<open>Math.max\<close> and \<open>Math.min\<close> of two numbers: \<open>NaN\<close> when one of the arguments is \<open>NaN\<close>.
\<close>

definition Math_max :: "jsnum \<Rightarrow> jsnum \<Rightarrow> jsnum" where
  "Math_max a b = (if a = NaN \<or> b = NaN then NaN else if js_le a b then b else a)"

definition Math_min :: "jsnum \<Rightarrow> jsnum \<Rightarrow> jsnum" where
  "Math_min a b = (if a = NaN \<or> b = NaN then NaN else if js_le a b then a else b)"

text \<open>An extent is the array \<open>[minX, minY, maxX, maxY]\<close>.\<close>

type_synonym extent = "rat \<times> rat \<times> rat \<times> rat"

text \<open>The errors the modelled code can raise.\<close>

datatype error = Error string | TypeError


section \<open>ol/layer/Base: the layer state snapshot\<close>

text \<open>
  Modelled from the spec: \<open>clamp\<close> of ol/math.js is not among the sources; the spec says the
  snapshot's opacity is "clamped to [0,1]", which is the usual
  \<open>Math.min(Math.max(value, min), max)\<close>.
\<close>

definition clamp :: "jsnum \<Rightarrow> jsnum \<Rightarrow> jsnum \<Rightarrow> jsnum" where
  "clamp v lo hi = Math_min (Math_max v lo) hi"

text \<open>
  \<open>ol.LayerState\<close>: the object \<open>state_\<close> (here \<open>bl_state\<close>) of a layer. The constructor creates it with
  \<open>layer\<close> and \<open>managed\<close>; \<open>getLayerState\<close> assigns the other seven fields.
\<close>

record 'l LayerState =
  ls_layer :: 'l
  ls_managed :: bool
  ls_opacity :: jsnum
  ls_sourceState :: string
  ls_visible :: bool
  ls_extent :: "extent option"
  ls_zIndex :: jsnum
  ls_maxResolution :: jsnum
  ls_minResolution :: jsnum

text \<open>
  A \<open>BaseLayer\<close>: its observable properties (the property bag of \<open>ol.Object\<close>, read by
  the \<open>get...\<close> accessors), the value its abstract \<open>getSourceState()\<close> returns, and
  \<open>state_\<close> (here \<open>bl_state\<close>). The layer is named in its own state by its unique id. An unset extent
  (\<open>undefined\<close>) is \<open>None\<close>.
\<close>

record BaseLayer =
  bl_uid :: nat
  prop_opacity :: jsnum
  prop_visible :: bool
  prop_zIndex :: jsnum
  prop_maxResolution :: jsnum
  prop_minResolution :: jsnum
  prop_extent :: "extent option"
  bl_sourceState :: string
  bl_state :: "nat LayerState"

definition getOpacity :: "BaseLayer \<Rightarrow> jsnum" where
  "getOpacity l = prop_opacity l"

definition getVisible :: "BaseLayer \<Rightarrow> bool" where
  "getVisible l = prop_visible l"

definition getZIndex :: "BaseLayer \<Rightarrow> jsnum" where
  "getZIndex l = prop_zIndex l"

definition getMaxResolution :: "BaseLayer \<Rightarrow> jsnum" where
  "getMaxResolution l = prop_maxResolution l"

definition getMinResolution :: "BaseLayer \<Rightarrow> jsnum" where
  "getMinResolution l = prop_minResolution l"

definition getExtent_layer :: "BaseLayer \<Rightarrow> extent option" where
  "getExtent_layer l = prop_extent l"

definition getSourceState :: "BaseLayer \<Rightarrow> string" where
  "getSourceState l = bl_sourceState l"

definition setOpacity :: "jsnum \<Rightarrow> BaseLayer \<Rightarrow> BaseLayer" where
  "setOpacity opacity l = l\<lparr>prop_opacity := opacity\<rparr>"

definition setMinResolution :: "jsnum \<Rightarrow> BaseLayer \<Rightarrow> BaseLayer" where
  "setMinResolution r l = l\<lparr>prop_minResolution := r\<rparr>"

text \<open>
  \<open>getLayerState\<close> writes the seven fields into \<open>state_\<close> (here \<open>bl_state\<close>), in the order of the source, and
  returns that object; the layer with the updated \<open>state_\<close> (here \<open>bl_state\<close>) is returned beside it.
\<close>

definition getLayerState :: "BaseLayer \<Rightarrow> nat LayerState \<times> BaseLayer" where
  "getLayerState l =
     (let s1 = (bl_state l)\<lparr>ls_opacity := clamp (getOpacity l) (Fin 0) (Fin 1)\<rparr>;
          s2 = s1\<lparr>ls_sourceState := getSourceState l\<rparr>;
          s3 = s2\<lparr>ls_visible := getVisible l\<rparr>;
          s4 = s3\<lparr>ls_extent := getExtent_layer l\<rparr>;
          s5 = s4\<lparr>ls_zIndex := getZIndex l\<rparr>;
          s6 = s5\<lparr>ls_maxResolution := getMaxResolution l\<rparr>;
          s7 = s6\<lparr>ls_minResolution := Math_max (getMinResolution l) (Fin 0)\<rparr>
      in (s7, l\<lparr>bl_state := s7\<rparr>))"

text \<open>A layer as the constructor leaves it for the options \<open>{minResolution: -1}\<close>.\<close>

definition layer_negMinRes :: BaseLayer where
  "layer_negMinRes =
     \<lparr>bl_uid = 1, prop_opacity = Fin 1, prop_visible = True, prop_zIndex = Fin 0,
      prop_maxResolution = PosInf, prop_minResolution = Fin (-1), prop_extent = None,
      bl_sourceState = ''ready'',
      bl_state = \<lparr>ls_layer = 1, ls_managed = True, ls_opacity = Fin 0, ls_sourceState = [],
        ls_visible = False, ls_extent = None, ls_zIndex = Fin 0, ls_maxResolution = Fin 0,
        ls_minResolution = Fin 0\<rparr>\<rparr>"

text \<open>The same layer with \<open>minResolution\<close> set to \<open>2\<close>.\<close>

definition layer_minRes2 :: BaseLayer where
  "layer_minRes2 = setMinResolution (Fin 2) layer_negMinRes"


section \<open>ol/renderer/Map: layer renderers and hit detection across layers\<close>

text \<open>
  The values a feature callback can return. \<open>truthy\<close> is JavaScript's conversion to a
  boolean, as \<open>if (result)\<close> applies it.
\<close>

datatype jsval = JUndefined | JNull | JBool bool | JNum rat | JStr string | JObj nat

fun truthy :: "jsval \<Rightarrow> bool" where
  "truthy JUndefined = False"
| "truthy JNull = False"
| "truthy (JBool b) = b"
| "truthy (JNum n) = (n \<noteq> 0)"
| "truthy (JStr s) = (s \<noteq> [])"
| "truthy (JObj _) = True"

type_synonym coordinate = "rat \<times> rat"

text \<open>A source (as far as the map renderer reads it) and a layer; \<open>getSource()\<close> may be null.\<close>

record Source =
  src_wrapX :: bool

record Layer =
  ly_uid :: nat
  ly_type :: string
  ly_source :: "Source option"

definition getUid_layer :: "Layer \<Rightarrow> nat" where
  "getUid_layer l = ly_uid l"

text \<open>A feature is an object with a unique id, and a geometry.\<close>

record 'g Feature =
  f_uid :: nat
  f_geometry :: 'g

definition getUid :: "'g Feature \<Rightarrow> nat" where
  "getUid f = f_uid f"

text \<open>
  A layer renderer is an object (its identity is \<open>lr_id\<close>) made by a plugin's \<open>create\<close>;
  \<open>lr_impl\<close> is what \<open>create\<close> built. The listener key returned by \<open>listen\<close> is
  modelled by the id of the renderer listened to.
\<close>

record 'k LayerRenderer =
  lr_id :: nat
  lr_impl :: 'k

text \<open>
  What a call does with the plugin registry, in order: reading the registry
  (\<open>getLayerRendererPlugins()\<close>), calling \<open>handles\<close> of the plugin at an index, calling
  \<open>create\<close> of the plugin at an index.
\<close>

datatype plugin_event = ReadRegistry | Handles nat | Create nat

text \<open>
  The state of a \<open>MapRenderer\<close>: \<open>getType()\<close> (abstract in the source), the two
  dictionaries \<open>layerRenderers_\<close> and \<open>layerRendererListeners_\<close> keyed by the layer's uid,
  the next free object identity, and the record of registry accesses so far.
\<close>

record 'k MapRenderer =
  mr_type :: string
  layerRenderers :: "nat \<rightharpoonup> 'k LayerRenderer"
  layerRendererListeners :: "nat \<rightharpoonup> nat"
  mr_nextObj :: nat
  mr_log :: "plugin_event list"

text \<open>
  A registered plugin: \<open>plugin['handles'](type, layer)\<close> and \<open>plugin['create'](this, layer)\<close>.
  What \<open>create\<close> returns is tested for truthiness by the caller: \<open>Some k\<close> is a renderer
  object built as \<open>k\<close>, \<open>None\<close> a falsy value (\<open>undefined\<close>, \<open>null\<close>).
\<close>

record 'k plugin =
  handles :: "string \<Rightarrow> Layer \<Rightarrow> bool"
  create :: "'k MapRenderer \<Rightarrow> Layer \<Rightarrow> 'k option"

text \<open>
  The \<open>for\<close> loop of \<open>getLayerRenderer\<close> over the plugins, from index \<open>i\<close>: the registry
  accesses it makes, and the value of the variable \<open>renderer\<close> after the loop: what
  \<open>create\<close> of the first plugin that handles the layer returns (\<open>break\<close>), or \<open>undefined\<close>
  (\<open>None\<close>) when no plugin handles it.
\<close>

fun scanPlugins ::
  "'k plugin list \<Rightarrow> nat \<Rightarrow> 'k MapRenderer \<Rightarrow> Layer \<Rightarrow> plugin_event list \<times> 'k option"
where
  "scanPlugins [] i mr layer = ([], None)"
| "scanPlugins (p # ps) i mr layer =
     (if handles p (mr_type mr) layer
      then ([Handles i, Create i], create p mr layer)
      else (case scanPlugins ps (Suc i) mr layer of (ev, r) \<Rightarrow> (Handles i # ev, r)))"

text \<open>
  \<open>getLayerRenderer(layer)\<close>, given the plugin registry. The result is the renderer and
  the new state, or the error thrown: \<open>if (renderer)\<close> stores and returns a truthy
  \<open>renderer\<close>, and the \<open>else\<close> branch throws.
\<close>

definition getLayerRenderer ::
  "'k plugin list \<Rightarrow> Layer \<Rightarrow> 'k MapRenderer \<Rightarrow> error + ('k LayerRenderer \<times> 'k MapRenderer)"
where
  "getLayerRenderer layerRendererPlugins layer mr =
     (let layerKey = getUid_layer layer in
      case layerRenderers mr layerKey of
        Some r \<Rightarrow> Inr (r, mr)
      | None \<Rightarrow>
          (case scanPlugins layerRendererPlugins 0 mr layer of
             (ev, Some k) \<Rightarrow>
               (let renderer = \<lparr>lr_id = mr_nextObj mr, lr_impl = k\<rparr>
                in Inr (renderer,
                     mr\<lparr>layerRenderers := (layerRenderers mr)(layerKey \<mapsto> renderer),
                        layerRendererListeners :=
                          (layerRendererListeners mr)(layerKey \<mapsto> lr_id renderer),
                        mr_nextObj := Suc (mr_nextObj mr),
                        mr_log := mr_log mr @ ReadRegistry # ev\<rparr>))
           | (ev, None) \<Rightarrow>
               Inl (Error (''Unable to create renderer for layer: '' @ ly_type layer))))"

text \<open>The parts of the frame state the hit detection reads.\<close>

record Projection =
  pj_canWrapX :: bool
  pj_extent :: extent

record ViewState =
  vs_resolution :: rat
  vs_projection :: Projection

record FrameState =
  fs_viewState :: ViewState
  fs_layerStates :: "nat \<rightharpoonup> Layer LayerState"
  fs_layerStatesArray :: "Layer LayerState list"
  fs_skippedFeatureUids :: "nat set"

text \<open>\<open>getWidth\<close> of ol/extent.js: \<open>extent[2] - extent[0]\<close>.\<close>

definition getWidth :: "extent \<Rightarrow> rat" where
  "getWidth e = (case e of (minX, minY, maxX, maxY) \<Rightarrow> maxX - minX)"

text \<open>
  The coordinate translated by \<open>forEachFeatureAtCoordinate\<close> into the projection's
  extent; \<open>worldsAway\<close> is \<open>Math.ceil((projectionExtent[0] - x) / worldWidth)\<close>. A world
  width of zero (a division by zero in the source) is outside the model.
\<close>

definition worldsAway :: "Projection \<Rightarrow> coordinate \<Rightarrow> int" where
  "worldsAway projection coordinate =
     \<lceil>(fst (pj_extent projection) - fst coordinate) / getWidth (pj_extent projection)\<rceil>"

definition translatedCoordinate :: "Projection \<Rightarrow> coordinate \<Rightarrow> coordinate" where
  "translatedCoordinate projection coordinate =
     (if pj_canWrapX projection then
        (let projectionExtent = pj_extent projection;
             worldWidth = getWidth projectionExtent;
             x = fst coordinate
         in if x < fst projectionExtent \<or> x > fst (snd (snd projectionExtent))
            then (x + worldWidth * of_int (worldsAway projection coordinate), snd coordinate)
            else coordinate)
      else coordinate)"

text \<open>
  The inner function \<open>forEachFeatureAtCoordinate(feature, layer)\<close> handed to the layer
  renderers: it looks up \<open>managed\<close> of the layer's state (a \<open>TypeError\<close> when the frame has
  no state for that layer) and calls the callback unless the feature is skipped and the
  layer unmanaged; it then returns \<open>undefined\<close>.
\<close>

definition wrappedCallback ::
  "FrameState \<Rightarrow> ('g Feature \<Rightarrow> Layer option \<Rightarrow> jsval) \<Rightarrow> 'g Feature \<Rightarrow> Layer \<Rightarrow> error + jsval"
where
  "wrappedCallback frameState callback feature layer =
     (let key = getUid feature in
      case fs_layerStates frameState (getUid_layer layer) of
        None \<Rightarrow> Inl TypeError
      | Some st \<Rightarrow>
          (let managed = ls_managed st in
           if \<not> (key \<in> fs_skippedFeatureUids frameState \<and> \<not> managed)
           then Inr (callback feature (if managed then Some layer else None))
           else Inr JUndefined))"

text \<open>
  What the map renderer is given from outside: \<open>visibleAtResolution\<close> of ol/layer/Layer.js,
  the layer filter, the plugin registry, and the hit test
  \<open>layerRenderer.forEachFeatureAtCoordinate(coordinate, frameState, hitTolerance, callback)\<close>
  of a layer renderer, which may throw.
\<close>

record ('k, 'g) MapEnv =
  me_visibleAtResolution :: "Layer LayerState \<Rightarrow> rat \<Rightarrow> bool"
  me_layerFilter :: "Layer \<Rightarrow> bool"
  me_plugins :: "'k plugin list"
  me_hit :: "'k LayerRenderer \<Rightarrow> coordinate \<Rightarrow> FrameState \<Rightarrow> rat \<Rightarrow>
               ('g Feature \<Rightarrow> Layer \<Rightarrow> error + jsval) \<Rightarrow> error + jsval"

text \<open>
  One hit test performed by the map renderer: the layer's uid, the coordinate passed
  and the result returned.
\<close>

type_synonym hit_record = "nat \<times> coordinate \<times> jsval"

text \<open>
  The loop \<open>for (i = numLayers - 1; i >= 0; --i)\<close>, over the layer states in the order it
  visits them. \<open>result\<close> is the variable of that name, which keeps its value when a layer
  has no source. The hit tests performed are recorded in order.
\<close>

fun layersLoop ::
  "('k, 'g) MapEnv \<Rightarrow> coordinate \<Rightarrow> FrameState \<Rightarrow> rat \<Rightarrow>
   ('g Feature \<Rightarrow> Layer option \<Rightarrow> jsval) \<Rightarrow> Layer LayerState list \<Rightarrow> jsval \<Rightarrow>
   hit_record list \<Rightarrow> 'k MapRenderer \<Rightarrow> error + (jsval \<times> hit_record list \<times> 'k MapRenderer)"
where
  "layersLoop env coordinate frameState hitTolerance callback [] result hits mr =
     Inr (JUndefined, hits, mr)"
| "layersLoop env coordinate frameState hitTolerance callback (layerState # rest) result hits mr =
     (let layer = ls_layer layerState in
      if me_visibleAtResolution env layerState (vs_resolution (fs_viewState frameState)) \<and>
         me_layerFilter env layer
      then
        (case getLayerRenderer (me_plugins env) layer mr of
           Inl e \<Rightarrow> Inl e
         | Inr (layerRenderer, mr') \<Rightarrow>
             (case ly_source layer of
                None \<Rightarrow>
                  (if truthy result then Inr (result, hits, mr')
                   else layersLoop env coordinate frameState hitTolerance callback rest
                          result hits mr')
              | Some source \<Rightarrow>
                  (let c = (if src_wrapX source
                            then translatedCoordinate
                                   (vs_projection (fs_viewState frameState)) coordinate
                            else coordinate)
                   in case me_hit env layerRenderer c frameState hitTolerance
                             (wrappedCallback frameState callback) of
                        Inl e \<Rightarrow> Inl e
                      | Inr result' \<Rightarrow>
                          (if truthy result'
                           then Inr (result', hits @ [(getUid_layer layer, c, result')], mr')
                           else layersLoop env coordinate frameState hitTolerance callback rest
                                  result' (hits @ [(getUid_layer layer, c, result')]) mr'))))
      else layersLoop env coordinate frameState hitTolerance callback rest result hits mr)"

definition forEachFeatureAtCoordinate_map ::
  "('k, 'g) MapEnv \<Rightarrow> coordinate \<Rightarrow> FrameState \<Rightarrow> rat \<Rightarrow>
   ('g Feature \<Rightarrow> Layer option \<Rightarrow> jsval) \<Rightarrow> 'k MapRenderer \<Rightarrow>
   error + (jsval \<times> hit_record list \<times> 'k MapRenderer)"
where
  "forEachFeatureAtCoordinate_map env coordinate frameState hitTolerance callback mr =
     layersLoop env coordinate frameState hitTolerance callback
       (rev (fs_layerStatesArray frameState)) JUndefined [] mr"

text \<open>
  \<open>hasFeatureAtCoordinate\<close>: the same search with the callback \<open>TRUE\<close>, compared with
  \<open>undefined\<close>.
\<close>

definition hasFeatureAtCoordinate ::
  "('k, 'g) MapEnv \<Rightarrow> coordinate \<Rightarrow> FrameState \<Rightarrow> rat \<Rightarrow> 'k MapRenderer \<Rightarrow> error + bool"
where
  "hasFeatureAtCoordinate env coordinate frameState hitTolerance mr =
     (case forEachFeatureAtCoordinate_map env coordinate frameState hitTolerance
             (\<lambda>feature layer. JBool True) mr of
        Inl e \<Rightarrow> Inl e
      | Inr (hasFeature, hits, mr') \<Rightarrow> Inr (hasFeature \<noteq> JUndefined))"

text \<open>
  The spec's reading of the search, for comparison with the code: the result of the
  first hit test, in the order performed, that is not \<open>undefined\<close>.
\<close>

fun firstNonUndefined :: "jsval list \<Rightarrow> jsval" where
  "firstNonUndefined [] = JUndefined"
| "firstNonUndefined (r # rs) = (if r \<noteq> JUndefined then r else firstNonUndefined rs)"

text \<open>
  Names used to state what the search does: whether a layer state is one whose layer is
  hit-tested (visible at the view resolution, accepted by the filter, with a source), the
  coordinate a layer is to be given, and the pair of layer uid and coordinate expected
  for a layer state.
\<close>

definition hitTested :: "('k, 'g) MapEnv \<Rightarrow> FrameState \<Rightarrow> Layer LayerState \<Rightarrow> bool" where
  "hitTested env frameState layerState =
     (me_visibleAtResolution env layerState (vs_resolution (fs_viewState frameState)) \<and>
      me_layerFilter env (ls_layer layerState) \<and> ly_source (ls_layer layerState) \<noteq> None)"

definition coordinateFor :: "FrameState \<Rightarrow> coordinate \<Rightarrow> Layer \<Rightarrow> coordinate" where
  "coordinateFor frameState coordinate layer =
     (case ly_source layer of
        None \<Rightarrow> coordinate
      | Some source \<Rightarrow>
          if src_wrapX source
          then translatedCoordinate (vs_projection (fs_viewState frameState)) coordinate
          else coordinate)"

definition expectedHit :: "FrameState \<Rightarrow> coordinate \<Rightarrow> Layer LayerState \<Rightarrow> nat \<times> coordinate" where
  "expectedHit frameState coordinate layerState =
     (getUid_layer (ls_layer layerState), coordinateFor frameState coordinate (ls_layer layerState))"

definition hitKey :: "hit_record \<Rightarrow> nat \<times> coordinate" where
  "hitKey h = (fst h, fst (snd h))"

definition hitResult :: "hit_record \<Rightarrow> jsval" where
  "hitResult h = snd (snd h)"

text \<open>
  A concrete registry of three plugins for the renderer type \<open>canvas\<close> (for image layers,
  for vector tile layers, and one that accepts every layer), a map renderer that has
  created no layer renderer yet, and a vector tile layer.
\<close>

definition demo_plugins :: "string plugin list" where
  "demo_plugins =
     [\<lparr>handles = (\<lambda>t l. t = ''canvas'' \<and> ly_type l = ''IMAGE''), create = (\<lambda>mr l. Some ''image'')\<rparr>,
      \<lparr>handles = (\<lambda>t l. t = ''canvas'' \<and> ly_type l = ''VECTOR_TILE''),
        create = (\<lambda>mr l. Some ''vectortile'')\<rparr>,
      \<lparr>handles = (\<lambda>t l. t = ''canvas''), create = (\<lambda>mr l. Some ''any'')\<rparr>]"

definition demo_mr :: "string MapRenderer" where
  "demo_mr = \<lparr>mr_type = ''canvas'', layerRenderers = Map.empty,
               layerRendererListeners = Map.empty, mr_nextObj = 0, mr_log = []\<rparr>"

definition demo_layer :: Layer where
  "demo_layer = \<lparr>ly_uid = 7, ly_type = ''VECTOR_TILE'', ly_source = Some \<lparr>src_wrapX = True\<rparr>\<rparr>"

definition demo_mr1 :: "string MapRenderer" where
  "demo_mr1 = \<lparr>mr_type = ''canvas'',
                layerRenderers = [7 \<mapsto> \<lparr>lr_id = 0, lr_impl = ''vectortile''\<rparr>],
                layerRendererListeners = [7 \<mapsto> 0], mr_nextObj = 1,
                mr_log = [ReadRegistry, Handles 0, Handles 1, Create 1]\<rparr>"

text \<open>
  A second layer, an image layer, and the renderer after it created the renderers of both
  layers; and a registry whose only plugin accepts every layer but creates nothing.
\<close>

definition demo_layer2 :: Layer where
  "demo_layer2 = \<lparr>ly_uid = 8, ly_type = ''IMAGE'', ly_source = None\<rparr>"

definition demo_mr2 :: "string MapRenderer" where
  "demo_mr2 = \<lparr>mr_type = ''canvas'',
                layerRenderers = [7 \<mapsto> \<lparr>lr_id = 0, lr_impl = ''vectortile''\<rparr>,
                                  8 \<mapsto> \<lparr>lr_id = 1, lr_impl = ''image''\<rparr>],
                layerRendererListeners = [7 \<mapsto> 0, 8 \<mapsto> 1], mr_nextObj = 2,
                mr_log = [ReadRegistry, Handles 0, Handles 1, Create 1,
                          ReadRegistry, Handles 0, Create 0]\<rparr>"

definition demo_plugins_null :: "string plugin list" where
  "demo_plugins_null = [\<lparr>handles = (\<lambda>t l. True), create = (\<lambda>mr l. None)\<rparr>]"

text \<open>
  A concrete search. Two layers, uid 0 below uid 1; the renderer of a layer keeps its
  layer, reports one feature (uid 100 + the layer's uid) at every coordinate and returns
  what the callback returns for it. The callback returns \<open>false\<close> for the feature of the
  upper layer and the feature itself otherwise. The projection wraps x over
  \<open>[-180, 180]\<close>; only the upper layer's source wraps x.
\<close>

definition cex_layer0 :: Layer where
  "cex_layer0 = \<lparr>ly_uid = 0, ly_type = ''VECTOR'', ly_source = Some \<lparr>src_wrapX = False\<rparr>\<rparr>"

definition cex_layer1 :: Layer where
  "cex_layer1 = \<lparr>ly_uid = 1, ly_type = ''VECTOR'', ly_source = Some \<lparr>src_wrapX = True\<rparr>\<rparr>"

definition cex_state :: "Layer \<Rightarrow> Layer LayerState" where
  "cex_state l = \<lparr>ls_layer = l, ls_managed = True, ls_opacity = Fin 1, ls_sourceState = ''ready'',
     ls_visible = True, ls_extent = None, ls_zIndex = Fin 0, ls_maxResolution = PosInf,
     ls_minResolution = Fin 0\<rparr>"

definition cex_fs :: FrameState where
  "cex_fs = \<lparr>fs_viewState = \<lparr>vs_resolution = 1,
       vs_projection = \<lparr>pj_canWrapX = True, pj_extent = (-180, -90, 180, 90)\<rparr>\<rparr>,
     fs_layerStates = [0 \<mapsto> cex_state cex_layer0, 1 \<mapsto> cex_state cex_layer1],
     fs_layerStatesArray = [cex_state cex_layer0, cex_state cex_layer1],
     fs_skippedFeatureUids = {}\<rparr>"

definition cex_env :: "(Layer, unit) MapEnv" where
  "cex_env = \<lparr>me_visibleAtResolution = (\<lambda>ls r. ls_visible ls),
     me_layerFilter = (\<lambda>l. True),
     me_plugins = [\<lparr>handles = (\<lambda>t l. True), create = (\<lambda>mr l. Some l)\<rparr>],
     me_hit = (\<lambda>lr c fs tol cb.
                 cb \<lparr>f_uid = 100 + ly_uid (lr_impl lr), f_geometry = ()\<rparr> (lr_impl lr))\<rparr>"

definition cex_callback :: "unit Feature \<Rightarrow> Layer option \<Rightarrow> jsval" where
  "cex_callback f l = (if f_uid f = 101 then JBool False else JObj (f_uid f))"

definition cex_mr :: "Layer MapRenderer" where
  "cex_mr = \<lparr>mr_type = ''canvas'', layerRenderers = Map.empty,
              layerRendererListeners = Map.empty, mr_nextObj = 0, mr_log = []\<rparr>"

definition cex_hits :: "hit_record list" where
  "cex_hits = [(1, (-170, 0), JBool False), (0, (190, 0), JObj 100)]"

definition cex_mr_final :: "Layer MapRenderer" where
  "cex_mr_final = \<lparr>mr_type = ''canvas'',
     layerRenderers = [1 \<mapsto> \<lparr>lr_id = 0, lr_impl = cex_layer1\<rparr>,
                       0 \<mapsto> \<lparr>lr_id = 1, lr_impl = cex_layer0\<rparr>],
     layerRendererListeners = [1 \<mapsto> 0, 0 \<mapsto> 1], mr_nextObj = 2,
     mr_log = [ReadRegistry, Handles 0, Create 0, ReadRegistry, Handles 0, Create 0]\<rparr>"

section \<open>ol/TileCache: expiring least recently used tiles\<close>

text \<open>A tile coordinate is the array \<open>[z, x, y]\<close>. A tile can be disposed.\<close>

type_synonym tileCoord = "int \<times> int \<times> int"

record Tile =
  tl_tileCoord :: tileCoord
  tl_disposed :: bool

definition dispose :: "Tile \<Rightarrow> Tile" where
  "dispose t = t\<lparr>tl_disposed := True\<rparr>"

text \<open>
  Modelled from the spec: \<open>TileRange\<close> (ol/TileRange.js is not among the sources; its fields
  \<open>minX\<close>, \<open>maxX\<close>, \<open>minY\<close>, \<open>maxY\<close> are read by ol/source/Tile). A tile range "contains" a
  tile coordinate when the coordinate's x and y lie within the range.
\<close>

record TileRange =
  tr_minX :: int
  tr_maxX :: int
  tr_minY :: int
  tr_maxY :: int

definition contains :: "TileRange \<Rightarrow> tileCoord \<Rightarrow> bool" where
  "contains r tc = (case tc of (z, x, y) \<Rightarrow>
     tr_minX r \<le> x \<and> x \<le> tr_maxX r \<and> tr_minY r \<le> y \<and> y \<le> tr_maxY r)"

text \<open>
  Modelled from the spec: \<open>LRUCache\<close> (ol/structs/LRUCache.js is not among the sources),
  the superclass of \<open>TileCache\<close>: "an LRU structure mapping a z/x/y key to a Tile" that
  "enforces a high-water-mark capacity". The entries are kept from the least recently
  used (the oldest) to the most recently used. \<open>set\<close> inserts an entry as the most
  recently used; \<open>canExpireCache\<close> holds when the count is above the high-water mark;
  \<open>peekLast\<close> is the value of the least recently used entry; \<open>pop\<close> removes that entry and
  returns its value. \<open>tc_disposed\<close> collects the tiles disposed so far, in order.
\<close>

record TileCache =
  highWaterMark :: int
  tc_entries :: "(string \<times> Tile) list"
  tc_disposed :: "Tile list"

definition newTileCache :: "int \<Rightarrow> TileCache" where
  "newTileCache opt_highWaterMark =
     \<lparr>highWaterMark = opt_highWaterMark, tc_entries = [], tc_disposed = []\<rparr>"

definition set_lru :: "string \<Rightarrow> Tile \<Rightarrow> TileCache \<Rightarrow> TileCache" where
  "set_lru key tile c = c\<lparr>tc_entries := tc_entries c @ [(key, tile)]\<rparr>"

definition getCount :: "TileCache \<Rightarrow> nat" where
  "getCount c = length (tc_entries c)"

definition canExpireCache :: "TileCache \<Rightarrow> bool" where
  "canExpireCache c = (int (getCount c) > highWaterMark c)"

definition peekLast :: "TileCache \<Rightarrow> Tile option" where
  "peekLast c = (case tc_entries c of [] \<Rightarrow> None | (k, t) # rest \<Rightarrow> Some t)"

definition pop :: "TileCache \<Rightarrow> (Tile \<times> TileCache) option" where
  "pop c = (case tc_entries c of [] \<Rightarrow> None
            | (k, t) # rest \<Rightarrow> Some (t, c\<lparr>tc_entries := rest\<rparr>))"

text \<open>
  \<open>TileCache.expireCache(usedTiles)\<close>, from the source. \<open>usedTiles\<close> maps a z level (the
  key \<open>tile.tileCoord[0].toString()\<close>) to a tile range. Reading the tile coordinate of a
  missing least recently used entry is a \<open>TypeError\<close>.
\<close>

function expireCache :: "(int \<rightharpoonup> TileRange) \<Rightarrow> TileCache \<Rightarrow> error + TileCache" where
  "expireCache usedTiles c =
     (if canExpireCache c then
        (case peekLast c of
           None \<Rightarrow> Inl TypeError
         | Some tile \<Rightarrow>
             (let zKey = fst (tl_tileCoord tile) in
              if (case usedTiles zKey of None \<Rightarrow> False
                  | Some tileRange \<Rightarrow> contains tileRange (tl_tileCoord tile))
              then Inr c
              else (case pop c of
                      None \<Rightarrow> Inl TypeError
                    | Some (t, c') \<Rightarrow>
                        expireCache usedTiles (c'\<lparr>tc_disposed := tc_disposed c' @ [dispose t]\<rparr>))))
      else Inr c)"
  by pat_completeness auto
termination
  by (relation "measure (\<lambda>(u, c). length (tc_entries c))")
     (auto simp: pop_def split: list.splits)

declare expireCache.simps [simp del]

text \<open>Whether the tile of an entry is in use: its z level is a key of \<open>usedTiles\<close> and the
  tile range there contains its coordinate.\<close>

definition inUse :: "(int \<rightharpoonup> TileRange) \<Rightarrow> string \<times> Tile \<Rightarrow> bool" where
  "inUse usedTiles e =
     (case usedTiles (fst (tl_tileCoord (snd e))) of
        None \<Rightarrow> False
      | Some tileRange \<Rightarrow> contains tileRange (tl_tileCoord (snd e)))"

text \<open>The number of entries \<open>expireCache\<close> evicts: the oldest entries not in use, as long
  as the count stays above the high-water mark.\<close>

definition evictCount :: "(int \<rightharpoonup> TileRange) \<Rightarrow> TileCache \<Rightarrow> nat" where
  "evictCount usedTiles c =
     min (length (takeWhile (\<lambda>e. \<not> inUse usedTiles e) (tc_entries c)))
         (nat (int (length (tc_entries c)) - highWaterMark c))"

text \<open>The scenario: three tiles A, B, C set in that order into a cache of high-water mark 2.\<close>

definition tileA :: Tile where "tileA = \<lparr>tl_tileCoord = (1, 0, 0), tl_disposed = False\<rparr>"
definition tileB :: Tile where "tileB = \<lparr>tl_tileCoord = (1, 1, 0), tl_disposed = False\<rparr>"
definition tileC :: Tile where "tileC = \<lparr>tl_tileCoord = (2, 0, 0), tl_disposed = False\<rparr>"

definition cacheABC :: TileCache where
  "cacheABC = set_lru ''2/0/0'' tileC (set_lru ''1/1/0'' tileB (set_lru ''1/0/0'' tileA
                (newTileCache 2)))"

text \<open>A used-tiles object whose range at z level 1 contains the coordinate of tile A.\<close>

definition usedA :: "int \<rightharpoonup> TileRange" where
  "usedA = [1 \<mapsto> \<lparr>tr_minX = 0, tr_maxX = 0, tr_minY = 0, tr_maxY = 0\<rparr>]"

section \<open>ol/geom: the extent cache and cloning\<close>

subsection \<open>Arrays in a store\<close>

text \<open>
  A geometry holds references to arrays that the code copies, shares and updates in
  place, so arrays live in a store: arrays of numbers (flat coordinates, ends) and arrays
  of array references (endss), each at an address; \<open>st_next\<close> is the next address that
  was never used.
\<close>

type_synonym addr = nat

record store =
  st_nums :: "addr \<rightharpoonup> rat list"
  st_refs :: "addr \<rightharpoonup> addr list"
  st_next :: addr

text \<open>A new array of numbers, a new array of references, and writes in place.\<close>

definition allocNums :: "rat list \<Rightarrow> store \<Rightarrow> addr \<times> store" where
  "allocNums xs s = (st_next s, s\<lparr>st_nums := (st_nums s)(st_next s \<mapsto> xs), st_next := Suc (st_next s)\<rparr>)"

definition allocRefs :: "addr list \<Rightarrow> store \<Rightarrow> addr \<times> store" where
  "allocRefs rs s = (st_next s, s\<lparr>st_refs := (st_refs s)(st_next s \<mapsto> rs), st_next := Suc (st_next s)\<rparr>)"

definition writeNums :: "addr \<Rightarrow> rat list \<Rightarrow> store \<Rightarrow> store" where
  "writeNums a xs s = s\<lparr>st_nums := (st_nums s)(a \<mapsto> xs)\<rparr>"

definition writeRefs :: "addr \<Rightarrow> addr list \<Rightarrow> store \<Rightarrow> store" where
  "writeRefs a rs s = s\<lparr>st_refs := (st_refs s)(a \<mapsto> rs)\<rparr>"

text \<open>
  \<open>array.slice()\<close> on a reference that may be \<open>null\<close>: a new array with the same
  elements, or a \<open>TypeError\<close> on \<open>null\<close> (and on an address that holds no array of
  numbers, which a well-formed store excludes).
\<close>

definition slice :: "addr option \<Rightarrow> store \<Rightarrow> error + (addr \<times> store)" where
  "slice r s =
     (case r of
        None \<Rightarrow> Inl TypeError
      | Some a \<Rightarrow> (case st_nums s a of None \<Rightarrow> Inl TypeError | Some xs \<Rightarrow> Inr (allocNums xs s)))"

subsection \<open>Geometry, SimpleGeometry and the two classes cloned\<close>

datatype GeometryLayout = XY | XYZ | XYM | XYZM

text \<open>
  Modelled from the spec: \<open>getStrideForLayout\<close> of ol/geom/SimpleGeometry.js (not among
  the sources): the stride is the "number of numeric components per coordinate (2 for XY,
  up to 4 for XYZM)".
\<close>

fun getStrideForLayout :: "GeometryLayout \<Rightarrow> nat" where
  "getStrideForLayout XY = 2"
| "getStrideForLayout XYZ = 3"
| "getStrideForLayout XYM = 3"
| "getStrideForLayout XYZM = 4"

text \<open>
  The fields of \<open>Geometry\<close> (with the revision counter of \<open>ol.Observable\<close>), of
  \<open>SimpleGeometry\<close>, of \<open>LinearRing\<close> and of \<open>MultiPolygon\<close>, each class extending the one
  before as in the source. \<open>g_extent\<close> is \<open>extent_\<close>; an extent is a value of a type \<open>'e\<close>
  left open. \<open>flatCoordinates\<close> may be \<open>null\<close>.
\<close>

record 'e Geometry =
  revision :: nat
  g_extent :: 'e
  extentRevision :: int

record 'e SimpleGeometry = "'e Geometry" +
  layout :: GeometryLayout
  stride :: nat
  flatCoordinates :: "addr option"

record 'e LinearRing = "'e SimpleGeometry" +
  ring_maxDelta :: rat
  ring_maxDeltaRevision :: int

record 'e MultiPolygon = "'e SimpleGeometry" +
  endss :: addr
  flatInteriorPointsRevision :: int
  flatInteriorPoints :: "addr option"
  mp_maxDelta :: rat
  mp_maxDeltaRevision :: int
  orientedRevision :: int
  orientedFlatCoordinates :: "addr option"

definition getRevision :: "('e, 'm) Geometry_scheme \<Rightarrow> nat" where
  "getRevision g = revision g"

text \<open>
  Modelled from the spec: \<open>changed()\<close> of ol/Observable.js (not among the sources) bumps
  the revision, "a monotonically increasing counter bumped on every mutation" (and
  notifies the listeners, which the model leaves out).
\<close>

definition changed :: "('e, 'm) Geometry_scheme \<Rightarrow> ('e, 'm) Geometry_scheme" where
  "changed g = g\<lparr>revision := Suc (revision g)\<rparr>"

text \<open>
  \<open>Geometry.getExtent()\<close> (called without \<open>opt_extent\<close>), from the source. The abstract
  method \<open>computeExtent\<close> is a parameter; it may throw.
\<close>

definition getExtent ::
  "(('e, 'm) Geometry_scheme \<Rightarrow> error + 'e) \<Rightarrow> ('e, 'm) Geometry_scheme \<Rightarrow>
   error + ('e \<times> ('e, 'm) Geometry_scheme)"
where
  "getExtent computeExtent g =
     (if extentRevision g \<noteq> int (getRevision g) then
        (case computeExtent g of
           Inl e \<Rightarrow> Inl e
         | Inr ex \<Rightarrow> Inr (ex, g\<lparr>g_extent := ex, extentRevision := int (getRevision g)\<rparr>))
      else Inr (g_extent g, g))"

text \<open>
  Modelled from the spec: \<open>setFlatCoordinatesInternal\<close> and \<open>computeExtent\<close> of
  ol/geom/SimpleGeometry.js (not among the sources). The first "replaces the buffer" and
  sets the layout and its stride. The second computes the extent from the stride and the
  elements of the flat coordinates; what it computes, and what it does on \<open>null\<close>, is the
  parameter \<open>ce\<close>.
\<close>

definition setFlatCoordinatesInternal ::
  "GeometryLayout \<Rightarrow> addr option \<Rightarrow> ('e, 'm) SimpleGeometry_scheme \<Rightarrow> ('e, 'm) SimpleGeometry_scheme"
where
  "setFlatCoordinatesInternal l fc g =
     g\<lparr>stride := getStrideForLayout l, layout := l, flatCoordinates := fc\<rparr>"

definition flatElements :: "store \<Rightarrow> ('e, 'm) SimpleGeometry_scheme \<Rightarrow> rat list option" where
  "flatElements s g = (case flatCoordinates g of None \<Rightarrow> None | Some a \<Rightarrow> st_nums s a)"

definition computeExtent ::
  "(nat \<Rightarrow> rat list option \<Rightarrow> error + 'e) \<Rightarrow> store \<Rightarrow> ('e, 'm) SimpleGeometry_scheme \<Rightarrow> error + 'e"
where
  "computeExtent ce s g = ce (stride g) (flatElements s g)"

text \<open>\<open>LinearRing.setFlatCoordinates\<close> and \<open>MultiPolygon.setFlatCoordinates\<close>, from the source.\<close>

definition setFlatCoordinates_ring ::
  "GeometryLayout \<Rightarrow> addr option \<Rightarrow> 'e LinearRing \<Rightarrow> 'e LinearRing"
where
  "setFlatCoordinates_ring l fc g = changed (setFlatCoordinatesInternal l fc g)"

definition setFlatCoordinates ::
  "GeometryLayout \<Rightarrow> addr option \<Rightarrow> addr \<Rightarrow> 'e MultiPolygon \<Rightarrow> 'e MultiPolygon"
where
  "setFlatCoordinates l fc es g = changed ((setFlatCoordinatesInternal l fc g)\<lparr>endss := es\<rparr>)"

text \<open>
  \<open>new LinearRing(null)\<close> and \<open>new MultiPolygon(null)\<close>: the constructors of the source
  with \<open>setCoordinates(null)\<close>, which calls \<open>setFlatCoordinates(GeometryLayout.XY, null)\<close>
  (for the multi-polygon with its own new, empty \<open>endss_\<close>). \<open>emptyExtent\<close> is what
  \<open>createEmpty()\<close> returns; a new observable has revision 0.
\<close>

definition newLinearRing_null :: "'e \<Rightarrow> 'e LinearRing" where
  "newLinearRing_null emptyExtent =
     setFlatCoordinates_ring XY None
       \<lparr>revision = 0, g_extent = emptyExtent, extentRevision = -1,
        layout = XY, stride = 2, flatCoordinates = None,
        ring_maxDelta = -1, ring_maxDeltaRevision = -1\<rparr>"

definition newMultiPolygon_null :: "'e \<Rightarrow> store \<Rightarrow> 'e MultiPolygon \<times> store" where
  "newMultiPolygon_null emptyExtent s =
     (case allocRefs [] s of (es, s') \<Rightarrow>
        (setFlatCoordinates XY None es
           \<lparr>revision = 0, g_extent = emptyExtent, extentRevision = -1,
            layout = XY, stride = 2, flatCoordinates = None,
            endss = es, flatInteriorPointsRevision = -1, flatInteriorPoints = None,
            mp_maxDelta = -1, mp_maxDeltaRevision = -1, orientedRevision = -1,
            orientedFlatCoordinates = None\<rparr>, s'))"

text \<open>\<open>LinearRing.clone()\<close>, from the source.\<close>

definition clone_ring :: "'e \<Rightarrow> store \<Rightarrow> 'e LinearRing \<Rightarrow> error + ('e LinearRing \<times> store)" where
  "clone_ring emptyExtent s this =
     (let linearRing = newLinearRing_null emptyExtent in
      case slice (flatCoordinates this) s of
        Inl e \<Rightarrow> Inl e
      | Inr (fc, s') \<Rightarrow> Inr (setFlatCoordinates_ring (layout this) (Some fc) linearRing, s'))"

text \<open>
  The loop \<open>newEndss[i] = this.endss_[i].slice()\<close> of \<open>MultiPolygon.clone()\<close>: the
  addresses of the copies, in order.
\<close>

fun sliceEach :: "addr list \<Rightarrow> store \<Rightarrow> error + (addr list \<times> store)" where
  "sliceEach [] s = Inr ([], s)"
| "sliceEach (a # as) s =
     (case slice (Some a) s of
        Inl e \<Rightarrow> Inl e
      | Inr (a', s') \<Rightarrow>
          (case sliceEach as s' of
             Inl e \<Rightarrow> Inl e
           | Inr (as', s'') \<Rightarrow> Inr (a' # as', s'')))"

text \<open>
  \<open>MultiPolygon.clone()\<close>, from the source: the new multi-polygon, the new outer array
  \<open>newEndss\<close> filled with the copies of the ends, the copy of the flat coordinates.
\<close>

definition clone :: "'e \<Rightarrow> store \<Rightarrow> 'e MultiPolygon \<Rightarrow> error + ('e MultiPolygon \<times> store)" where
  "clone emptyExtent s this =
     (case newMultiPolygon_null emptyExtent s of (multiPolygon, s0) \<Rightarrow>
        (case st_refs s0 (endss this) of
           None \<Rightarrow> Inl TypeError
         | Some es \<Rightarrow>
             (case allocRefs [] s0 of (newEndss, s1) \<Rightarrow>
                (case sliceEach es s1 of
                   Inl e \<Rightarrow> Inl e
                 | Inr (es', s2) \<Rightarrow>
                     (case slice (flatCoordinates this) (writeRefs newEndss es' s2) of
                        Inl e \<Rightarrow> Inl e
                      | Inr (fc, s3) \<Rightarrow>
                          Inr (setFlatCoordinates (layout this) (Some fc) newEndss multiPolygon,
                               s3))))))"

text \<open>
  The arrays a multi-polygon and a linear ring own: the flat coordinates; for the
  multi-polygon also the outer endss array and the ends arrays it holds.
\<close>

definition ownedNums :: "store \<Rightarrow> 'e MultiPolygon \<Rightarrow> addr set" where
  "ownedNums s g =
     set_option (flatCoordinates g) \<union>
     (case st_refs s (endss g) of None \<Rightarrow> {} | Some es \<Rightarrow> set es)"

definition endsElements :: "store \<Rightarrow> 'e MultiPolygon \<Rightarrow> rat list option list option" where
  "endsElements s g = map_option (map (st_nums s)) (st_refs s (endss g))"

text \<open>
  A store in which every array lies below \<open>st_next\<close>, and a multi-polygon (a linear
  ring) whose arrays exist in the store, with the stride of its layout.
\<close>

definition storeOK :: "store \<Rightarrow> bool" where
  "storeOK s = ((\<forall>a. a \<in> dom (st_nums s) \<longrightarrow> a < st_next s) \<and>
                (\<forall>a. a \<in> dom (st_refs s) \<longrightarrow> a < st_next s))"

definition ringOK :: "store \<Rightarrow> 'e LinearRing \<Rightarrow> bool" where
  "ringOK s g = (storeOK s \<and> stride g = getStrideForLayout (layout g) \<and>
     (\<exists>a xs. flatCoordinates g = Some a \<and> st_nums s a = Some xs))"

definition multiPolygonOK :: "store \<Rightarrow> 'e MultiPolygon \<Rightarrow> bool" where
  "multiPolygonOK s g = (storeOK s \<and> stride g = getStrideForLayout (layout g) \<and>
     (\<exists>a xs. flatCoordinates g = Some a \<and> st_nums s a = Some xs) \<and>
     (\<exists>es. st_refs s (endss g) = Some es \<and> (\<forall>e \<in> set es. e \<in> dom (st_nums s))))"

text \<open>
  The extent cache of a geometry is valid when the stored revision is not the current
  one, or the stored extent is what \<open>computeExtent\<close> gives for the current coordinates.
\<close>

definition cacheValid ::
  "(nat \<Rightarrow> rat list option \<Rightarrow> error + 'e) \<Rightarrow> store \<Rightarrow> ('e, 'm) SimpleGeometry_scheme \<Rightarrow> bool"
where
  "cacheValid ce s g =
     (extentRevision g = int (getRevision g) \<longrightarrow> computeExtent ce s g = Inr (g_extent g))"

text \<open>The extent \<open>getExtent()\<close> returns (or the error thrown), without the updated object.\<close>

definition extentOf ::
  "(nat \<Rightarrow> rat list option \<Rightarrow> error + 'e) \<Rightarrow> store \<Rightarrow> ('e, 'm) SimpleGeometry_scheme \<Rightarrow> error + 'e"
where
  "extentOf ce s g = map_sum id fst (getExtent (computeExtent ce s) g)"

text \<open>
  For the examples: a \<open>computeExtent\<close> for XY coordinates, the bounding box of the points
  (none for an empty array), which throws on \<open>null\<close>; a store with the flat coordinates of
  a square at address 0, its ends \<open>[10]\<close> at address 1, the endss array \<open>[[10]]\<close> at
  address 2 and the flat coordinates of a triangle at address 3; a multi-polygon and a linear ring on these arrays, at revision 1 with no
  extent computed yet.
\<close>

fun boundingBox :: "rat list \<Rightarrow> extent option" where
  "boundingBox (x # y # rest) =
     (case boundingBox rest of
        None \<Rightarrow> Some (x, y, x, y)
      | Some (minX, minY, maxX, maxY) \<Rightarrow> Some (min x minX, min y minY, max x maxX, max y maxY))"
| "boundingBox _ = None"

definition demo_ce :: "nat \<Rightarrow> rat list option \<Rightarrow> error + extent option" where
  "demo_ce n fc = (case fc of None \<Rightarrow> Inl TypeError | Some xs \<Rightarrow> Inr (boundingBox xs))"

definition demo_store :: store where
  "demo_store = \<lparr>st_nums = [0 \<mapsto> [0, 0, 0, 10, 10, 10, 10, 0, 0, 0], 1 \<mapsto> [10],
                              3 \<mapsto> [0, 0, 4, 0, 0, 3, 0, 0]],
                  st_refs = [2 \<mapsto> [1]], st_next = 4\<rparr>"

definition demo_multiPolygon :: "extent option MultiPolygon" where
  "demo_multiPolygon =
     \<lparr>revision = 1, g_extent = None, extentRevision = -1, layout = XY, stride = 2,
      flatCoordinates = Some 0, endss = 2, flatInteriorPointsRevision = -1,
      flatInteriorPoints = None, mp_maxDelta = -1, mp_maxDeltaRevision = -1,
      orientedRevision = -1, orientedFlatCoordinates = None\<rparr>"

definition demo_ring :: "extent option LinearRing" where
  "demo_ring =
     \<lparr>revision = 1, g_extent = None, extentRevision = -1, layout = XY, stride = 2,
      flatCoordinates = Some 0, ring_maxDelta = -1, ring_maxDeltaRevision = -1\<rparr>"

text \<open>What cloning the example multi-polygon and the example ring gives.\<close>

definition demo_multiPolygon_clone :: "extent option MultiPolygon" where
  "demo_multiPolygon_clone =
     \<lparr>revision = 2, g_extent = None, extentRevision = -1, layout = XY, stride = 2,
      flatCoordinates = Some 7, endss = 5, flatInteriorPointsRevision = -1,
      flatInteriorPoints = None, mp_maxDelta = -1, mp_maxDeltaRevision = -1,
      orientedRevision = -1, orientedFlatCoordinates = None\<rparr>"

definition demo_store_cloned :: store where
  "demo_store_cloned =
     \<lparr>st_nums = [0 \<mapsto> [0, 0, 0, 10, 10, 10, 10, 0, 0, 0], 1 \<mapsto> [10],
                 3 \<mapsto> [0, 0, 4, 0, 0, 3, 0, 0], 6 \<mapsto> [10],
                 7 \<mapsto> [0, 0, 0, 10, 10, 10, 10, 0, 0, 0]],
      st_refs = [2 \<mapsto> [1], 4 \<mapsto> [], 5 \<mapsto> [6]], st_next = 8\<rparr>"

definition demo_ring_clone :: "extent option LinearRing" where
  "demo_ring_clone =
     \<lparr>revision = 2, g_extent = None, extentRevision = -1, layout = XY, stride = 2,
      flatCoordinates = Some 4, ring_maxDelta = -1, ring_maxDeltaRevision = -1\<rparr>"

definition demo_store_ring_cloned :: store where
  "demo_store_ring_cloned =
     \<lparr>st_nums = [0 \<mapsto> [0, 0, 0, 10, 10, 10, 10, 0, 0, 0], 1 \<mapsto> [10],
                 3 \<mapsto> [0, 0, 4, 0, 0, 3, 0, 0],
                 4 \<mapsto> [0, 0, 0, 10, 10, 10, 10, 0, 0, 0]],
      st_refs = [2 \<mapsto> [1]], st_next = 5\<rparr>"

subsection \<open>Circle\<close>

text \<open>
  Arithmetic on JavaScript numbers, and reading an element of an array of numbers for
  arithmetic: an index past the end gives \<open>undefined\<close>, which arithmetic turns into \<open>NaN\<close>.
\<close>

fun js_neg :: "jsnum \<Rightarrow> jsnum" where
  "js_neg NaN = NaN"
| "js_neg NegInf = PosInf"
| "js_neg (Fin a) = Fin (- a)"
| "js_neg PosInf = NegInf"

fun js_add :: "jsnum \<Rightarrow> jsnum \<Rightarrow> jsnum" where
  "js_add NaN _ = NaN"
| "js_add _ NaN = NaN"
| "js_add (Fin a) (Fin b) = Fin (a + b)"
| "js_add PosInf NegInf = NaN"
| "js_add NegInf PosInf = NaN"
| "js_add PosInf _ = PosInf"
| "js_add _ PosInf = PosInf"
| "js_add NegInf _ = NegInf"
| "js_add _ NegInf = NegInf"

definition js_sub :: "jsnum \<Rightarrow> jsnum \<Rightarrow> jsnum" where
  "js_sub a b = js_add a (js_neg b)"

definition nth_js :: "rat list \<Rightarrow> nat \<Rightarrow> jsnum" where
  "nth_js xs i = (if i < length xs then Fin (xs ! i) else NaN)"

text \<open>An extent as \<open>computeExtent\<close> of a circle builds it: four JavaScript numbers.\<close>

type_synonym jsextent = "jsnum \<times> jsnum \<times> jsnum \<times> jsnum"

text \<open>
  \<open>Circle\<close> extends \<open>SimpleGeometry\<close> with no field of its own. \<open>new Circle(null)\<close>: the
  constructor takes the radius \<open>0\<close> and calls \<open>setCenterAndRadius(null, 0, undefined)\<close>,
  which for no center calls \<open>setFlatCoordinates(GeometryLayout.XY, null)\<close>.
\<close>

type_synonym 'e Circle = "'e SimpleGeometry"

definition setFlatCoordinates_circle ::
  "GeometryLayout \<Rightarrow> addr option \<Rightarrow> 'e Circle \<Rightarrow> 'e Circle"
where
  "setFlatCoordinates_circle l fc g = changed (setFlatCoordinatesInternal l fc g)"

definition newCircle_null :: "'e \<Rightarrow> 'e Circle" where
  "newCircle_null emptyExtent =
     setFlatCoordinates_circle XY None
       \<lparr>revision = 0, g_extent = emptyExtent, extentRevision = -1,
        layout = XY, stride = 2, flatCoordinates = None\<rparr>"

text \<open>\<open>Circle.clone()\<close>, from the source.\<close>

definition clone_circle :: "'e \<Rightarrow> store \<Rightarrow> 'e Circle \<Rightarrow> error + ('e Circle \<times> store)" where
  "clone_circle emptyExtent s this =
     (let circle = newCircle_null emptyExtent in
      case slice (flatCoordinates this) s of
        Inl e \<Rightarrow> Inl e
      | Inr (fc, s') \<Rightarrow> Inr (setFlatCoordinates_circle (layout this) (Some fc) circle, s'))"

text \<open>
  \<open>Circle.computeExtent\<close>, from the source, as a function of the stride and the elements
  of the flat coordinates (\<open>null\<close> flat coordinates make \<open>flatCoordinates[this.stride]\<close> a
  \<open>TypeError\<close>); \<open>createOrUpdate\<close> of ol/extent.js (not among the sources) gives the extent
  of its four arguments.
\<close>

definition computeExtent_circle :: "nat \<Rightarrow> rat list option \<Rightarrow> error + jsextent" where
  "computeExtent_circle strideOfThis fc =
     (case fc of
        None \<Rightarrow> Inl TypeError
      | Some xs \<Rightarrow>
          (let radius = js_sub (nth_js xs strideOfThis) (nth_js xs 0)
           in Inr (js_sub (nth_js xs 0) radius, js_sub (nth_js xs 1) radius,
                   js_add (nth_js xs 0) radius, js_add (nth_js xs 1) radius)))"

text \<open>A circle whose flat coordinates exist in a well-formed store, with the stride of its layout.\<close>

definition circleOK :: "store \<Rightarrow> 'e Circle \<Rightarrow> bool" where
  "circleOK s g = (storeOK s \<and> stride g = getStrideForLayout (layout g) \<and>
     (\<exists>a xs. flatCoordinates g = Some a \<and> st_nums s a = Some xs))"

text \<open>
  \<open>G.clone().getExtent()\<close> for a linear ring: the extent (or the error thrown) that
  \<open>getExtent()\<close> gives on the clone.
\<close>

definition cloneExtent_ring ::
  "(nat \<Rightarrow> rat list option \<Rightarrow> error + 'e) \<Rightarrow> 'e \<Rightarrow> store \<Rightarrow> 'e LinearRing \<Rightarrow> error + 'e" where
  "cloneExtent_ring ce emptyExtent s g =
     (case clone_ring emptyExtent s g of Inl e \<Rightarrow> Inl e | Inr (g', s') \<Rightarrow> extentOf ce s' g')"

text \<open>
  For the examples: the extent \<open>createEmpty()\<close> gives; a store with the flat coordinates
  \<open>[1, 2, 4, 2]\<close> of the circle with center \<open>(1, 2)\<close> and radius \<open>3\<close>; that circle at revision
  1 with no extent computed yet; and what cloning it gives.
\<close>

definition emptyExtent_js :: jsextent where
  "emptyExtent_js = (PosInf, PosInf, NegInf, NegInf)"

definition demo_store_circle :: store where
  "demo_store_circle = \<lparr>st_nums = [0 \<mapsto> [1, 2, 4, 2]], st_refs = Map.empty, st_next = 1\<rparr>"

definition demo_circle :: "jsextent Circle" where
  "demo_circle =
     \<lparr>revision = 1, g_extent = emptyExtent_js, extentRevision = -1, layout = XY, stride = 2,
      flatCoordinates = Some 0\<rparr>"

definition demo_circle_clone :: "jsextent Circle" where
  "demo_circle_clone =
     \<lparr>revision = 2, g_extent = emptyExtent_js, extentRevision = -1, layout = XY, stride = 2,
      flatCoordinates = Some 1\<rparr>"

definition demo_store_circle_cloned :: store where
  "demo_store_circle_cloned =
     \<lparr>st_nums = [0 \<mapsto> [1, 2, 4, 2], 1 \<mapsto> [1, 2, 4, 2]], st_refs = Map.empty, st_next = 2\<rparr>"

text \<open>
  The example ring after \<open>getExtent()\<close> stored its extent, and the example store after the
  ring's flat coordinates were then written in place (with no call of \<open>changed()\<close>).
\<close>

definition demo_ring_cached :: "extent option LinearRing" where
  "demo_ring_cached = demo_ring\<lparr>g_extent := Some (0, 0, 10, 10), extentRevision := 1\<rparr>"

definition demo_store_written :: store where
  "demo_store_written = writeNums 0 [0, 0, 0, 5, 5, 5, 5, 0, 0, 0] demo_store"

section \<open>ol/renderer/canvas/VectorTileLayer: the data the renderer works on\<close>

text \<open>
  Modelled from the spec: the load states of a tile (ol/TileState.js is not among the
  sources): "IDLE, LOADING, LOADED, ERROR, ABORT".
\<close>

datatype TileState = IDLE | LOADING | LOADED | ERROR | ABORT

text \<open>The render modes of a vector tile layer and the replay types, by their names.\<close>

datatype VectorTileRenderType = Mode_image | Mode_hybrid | Mode_vector

datatype ReplayType = POLYGON | CIRCLE | LINE_STRING | IMAGE | TEXT | DEFAULT

text \<open>
  What a style function returns: nothing (\<open>undefined\<close> or \<open>null\<close>), one style, or an
  array of styles. A style is named by a number. An array, even an empty one, is truthy.
\<close>

datatype Styles = NoStyles | OneStyle nat | ManyStyles "nat list"

fun truthy_styles :: "Styles \<Rightarrow> bool" where
  "truthy_styles NoStyles = False"
| "truthy_styles (OneStyle s) = True"
| "truthy_styles (ManyStyles ss) = True"

text \<open>
  A projection as the renderer uses it, and the parts of the frame state (with its view
  state) that the renderer reads.
\<close>

record VtProjection =
  vp_code :: string
  vp_units :: string
  vp_extent :: "extent option"
  vp_worldExtent :: "extent option"

definition TILE_PIXELS :: string where
  "TILE_PIXELS = ''tile-pixels''"

record VtFrameState =
  vf_pixelRatio :: rat
  vf_size :: "rat \<times> rat"
  vf_resolution :: rat
  vf_rotation :: rat
  vf_projection :: VtProjection

text \<open>
  A replay group (ol/render/canvas/ReplayGroup.js is not among the sources) as the
  renderer sees it: an object with an identity, the arguments of its constructor, the
  features rendered into it in order (each with the style and the squared tolerance), and
  whether \<open>finish()\<close> was called.
\<close>

record 'g ReplayGroup =
  rg_id :: nat
  rg_extent :: extent
  rg_resolution :: rat
  rg_pixelRatio :: rat
  rg_overlaps :: bool
  rg_declutter :: bool
  rg_renderBuffer :: rat
  rg_rendered :: "('g Feature \<times> nat \<times> rat) list"
  rg_finished :: bool

text \<open>
  The replay state of a tile for a layer. \<open>renderedRenderOrder\<close> is the identity of a
  render order function or \<open>null\<close>.
\<close>

record ReplayState =
  dirty :: bool
  renderedRenderOrder :: "nat option"
  renderedRevision :: int
  renderedTileRevision :: int

text \<open>
  A source tile (\<open>ol.VectorTile\<close>) with its replay groups, keyed by the layer's uid and
  the tile coordinate of the composite tile; and a composite tile (\<open>ol.VectorImageTile\<close>)
  with the keys of its source tiles and its replay state per layer uid.
\<close>

record 'g SourceTile =
  st_state :: TileState
  st_tileCoord :: tileCoord
  st_extent :: "extent option"
  st_projection :: VtProjection
  st_features :: "'g Feature list"
  st_replayGroups :: "nat \<times> tileCoord \<rightharpoonup> 'g ReplayGroup"

record VectorImageTile =
  vt_state :: TileState
  vt_tileCoord :: tileCoord
  vt_wrappedTileCoord :: tileCoord
  vt_tileKeys :: "string list"
  vt_replayState :: "nat \<Rightarrow> ReplayState"

text \<open>
  The source tiles are shared objects: a composite tile reaches them by key
  (\<open>tile.getTile(key)\<close>), and the renderer updates them in place. They are kept in a
  dictionary from key to source tile.
\<close>

type_synonym 'g sourceTiles = "string \<rightharpoonup> 'g SourceTile"

text \<open>
  Modelled from the spec: the initial replay state of a tile for a layer
  (ol/VectorImageTile.js is not among the sources), "created lazily on first render
  attempt", not dirty and with nothing rendered.
\<close>

definition initialReplayState :: ReplayState where
  "initialReplayState = \<lparr>dirty = False, renderedRenderOrder = None, renderedRevision = -1,
                          renderedTileRevision = -1\<rparr>"

text \<open>
  The vector tile layer: a layer with a revision, a render order (\<open>null\<close> when none is
  set), a render buffer, a render mode, the declutter flag, and whether its source has
  overlaps.
\<close>

record VtLayer = Layer +
  vl_revision :: nat
  vl_renderOrder :: "nat option"
  vl_renderBuffer :: rat
  vl_renderMode :: VectorTileRenderType
  vl_declutter :: bool
  vl_overlaps :: bool

text \<open>A tile grid: the resolution of a zoom level and the extent of a tile coordinate.\<close>

record TileGrid =
  tg_getResolution :: "int \<Rightarrow> rat"
  tg_getTileCoordExtent :: "tileCoord \<Rightarrow> extent"

text \<open>
  The four corners of a clip region, \<open>[x0, y0, x1, y1, x2, y2, x3, y3]\<close>, and a transform
  (six numbers).
\<close>

type_synonym clipCoords = "coordinate \<times> coordinate \<times> coordinate \<times> coordinate"

type_synonym transform = "rat list"

text \<open>
  What the renderer takes from modules that are not among the sources: the tile grids of
  the source, the functions of ol/extent.js, \<open>equivalent\<close> of ol/proj.js, the geometry
  transform and the extent of a feature's geometry, the style functions of a feature and
  of the layer, \<open>getSquaredTolerance\<close> and \<open>renderFeature\<close> of ol/renderer/vector.js (whether
  an image is still loading), \<open>Array.prototype.sort\<close> with a render order, \<open>ORDER\<close> of
  ol/render/replay.js, \<open>hasReplays\<close> and \<open>getClipCoords\<close> of a replay group, the candidates
  a replay group reports at a coordinate in the order it tests them, \<open>getTransform\<close> of the
  layer renderer, and \<open>getTilePixelSize\<close> of the source.
\<close>

record 'g VtEnv =
  ve_sourceTileGrid :: TileGrid
  ve_tileGridForProjection :: "VtProjection \<Rightarrow> TileGrid"
  ve_getIntersection :: "extent \<Rightarrow> extent \<Rightarrow> extent"
  ve_equals :: "extent \<Rightarrow> extent \<Rightarrow> bool"
  ve_buffer :: "extent \<Rightarrow> rat \<Rightarrow> extent"
  ve_intersects :: "extent \<Rightarrow> extent \<Rightarrow> bool"
  ve_containsCoordinate :: "extent \<Rightarrow> coordinate \<Rightarrow> bool"
  ve_equivalentProjection :: "VtProjection \<Rightarrow> VtProjection \<Rightarrow> bool"
  ve_transformGeometry :: "VtProjection \<Rightarrow> VtProjection \<Rightarrow> 'g \<Rightarrow> 'g"
  ve_geometryExtent :: "'g \<Rightarrow> extent"
  ve_featureStyleFunction :: "'g Feature \<Rightarrow> ('g Feature \<Rightarrow> rat \<Rightarrow> Styles) option"
  ve_layerStyleFunction :: "('g Feature \<Rightarrow> rat \<Rightarrow> Styles) option"
  ve_getSquaredRenderTolerance :: "rat \<Rightarrow> rat \<Rightarrow> rat"
  ve_imageLoading :: "'g Feature \<Rightarrow> nat \<Rightarrow> bool"
  ve_sort :: "nat \<Rightarrow> 'g Feature list \<Rightarrow> 'g Feature list"
  ve_ORDER :: "ReplayType list"
  ve_hasReplays :: "'g ReplayGroup \<Rightarrow> ReplayType list \<Rightarrow> bool"
  ve_getClipCoords :: "'g ReplayGroup \<Rightarrow> transform \<Rightarrow> clipCoords"
  ve_candidates :: "'g ReplayGroup \<Rightarrow> coordinate \<Rightarrow> rat \<Rightarrow> rat \<Rightarrow> rat \<Rightarrow> 'g Feature list"
  ve_getTransform :: "VtFrameState \<Rightarrow> rat \<Rightarrow> transform"
  ve_getTilePixelSize :: "int \<Rightarrow> rat \<Rightarrow> VtProjection \<Rightarrow> rat \<times> rat"

text \<open>
  The renderer: its layer, whether it has a canvas context (render modes other than
  \<open>vector\<close>), \<open>dirty_\<close>, \<open>renderedLayerRevision_\<close> (\<open>undefined\<close> at first), the rendered tiles,
  and the next free object identity, from which new replay groups take theirs. The
  constructor sets \<open>declutterTree_\<close> to a tree when the layer declutters and to \<open>null\<close>
  otherwise, so what a new replay group is given as its declutter tree is told by the
  layer's declutter flag.
\<close>

record VtRenderer =
  vr_layer :: VtLayer
  vr_context :: bool
  vr_dirty :: bool
  vr_renderedLayerRevision :: "nat option"
  vr_renderedTiles :: "VectorImageTile list"
  vr_nextObj :: nat

definition getReplayState :: "VectorImageTile \<Rightarrow> VtLayer \<Rightarrow> ReplayState" where
  "getReplayState tile layer = vt_replayState tile (ly_uid layer)"

definition setReplayState :: "VtLayer \<Rightarrow> ReplayState \<Rightarrow> VectorImageTile \<Rightarrow> VectorImageTile" where
  "setReplayState layer rs tile = tile\<lparr>vt_replayState := (vt_replayState tile)(ly_uid layer := rs)\<rparr>"

definition getReplayGroup ::
  "'g SourceTile \<Rightarrow> VtLayer \<Rightarrow> tileCoord \<Rightarrow> 'g ReplayGroup option" where
  "getReplayGroup sourceTile layer key = st_replayGroups sourceTile (ly_uid layer, key)"

definition setReplayGroup ::
  "VtLayer \<Rightarrow> tileCoord \<Rightarrow> 'g ReplayGroup \<Rightarrow> 'g SourceTile \<Rightarrow> 'g SourceTile" where
  "setReplayGroup layer key replayGroup sourceTile =
     sourceTile\<lparr>st_replayGroups := (st_replayGroups sourceTile)((ly_uid layer, key) \<mapsto> replayGroup)\<rparr>"

section \<open>ol/renderer/canvas/VectorTileLayer: building the replay groups of a tile\<close>

text \<open>
  \<open>renderFeature\<close> of ol/renderer/vector.js, as far as the renderer depends on it: the
  feature is recorded in the replay group with the style, and the result says whether an
  image of the style is still loading.
\<close>

definition renderFeature_vector ::
  "'g VtEnv \<Rightarrow> 'g ReplayGroup \<Rightarrow> 'g Feature \<Rightarrow> nat \<Rightarrow> rat \<Rightarrow> bool \<times> 'g ReplayGroup"
where
  "renderFeature_vector env replayGroup feature style squaredTolerance =
     (ve_imageLoading env feature style,
      replayGroup\<lparr>rg_rendered := rg_rendered replayGroup @ [(feature, style, squaredTolerance)]\<rparr>)"

text \<open>The loop of \<open>renderFeature\<close> over an array of styles: \<open>loading = renderFeature(...) || loading\<close>.\<close>

fun renderStyles ::
  "'g VtEnv \<Rightarrow> 'g Feature \<Rightarrow> rat \<Rightarrow> nat list \<Rightarrow> bool \<Rightarrow> 'g ReplayGroup \<Rightarrow> bool \<times> 'g ReplayGroup"
where
  "renderStyles env feature squaredTolerance [] loading replayGroup = (loading, replayGroup)"
| "renderStyles env feature squaredTolerance (style # styles) loading replayGroup =
     (case renderFeature_vector env replayGroup feature style squaredTolerance of
        (l, replayGroup') \<Rightarrow>
          renderStyles env feature squaredTolerance styles (l \<or> loading) replayGroup')"

text \<open>The method \<open>renderFeature(feature, squaredTolerance, styles, replayGroup)\<close> of the renderer.\<close>

definition renderFeature ::
  "'g VtEnv \<Rightarrow> 'g Feature \<Rightarrow> rat \<Rightarrow> Styles \<Rightarrow> 'g ReplayGroup \<Rightarrow> bool \<times> 'g ReplayGroup"
where
  "renderFeature env feature squaredTolerance styles replayGroup =
     (case styles of
        NoStyles \<Rightarrow> (False, replayGroup)
      | ManyStyles ss \<Rightarrow> renderStyles env feature squaredTolerance ss False replayGroup
      | OneStyle s \<Rightarrow> renderFeature_vector env replayGroup feature s squaredTolerance)"

text \<open>
  What the feature loop of \<open>createReplayGroup_\<close> carries: the replay group being built,
  \<open>this.dirty_\<close> and \<open>replayState.dirty\<close>.
\<close>

type_synonym 'g buildState = "'g ReplayGroup \<times> bool \<times> bool"

text \<open>The inner function \<open>render(feature)\<close> of \<open>createReplayGroup_\<close>.\<close>

definition render ::
  "'g VtEnv \<Rightarrow> rat \<Rightarrow> rat \<Rightarrow> 'g Feature \<Rightarrow> 'g buildState \<Rightarrow> 'g buildState"
where
  "render env resolution squaredTolerance feature b =
     (case b of (replayGroup, this_dirty, state_dirty) \<Rightarrow>
        (let styleFunction = (case ve_featureStyleFunction env feature of
                                Some f \<Rightarrow> Some f
                              | None \<Rightarrow> ve_layerStyleFunction env);
             styles = (case styleFunction of
                         Some f \<Rightarrow> f feature resolution
                       | None \<Rightarrow> NoStyles)
         in if truthy_styles styles
            then (case renderFeature env feature squaredTolerance styles replayGroup of
                    (d, replayGroup') \<Rightarrow> (replayGroup', this_dirty \<or> d, state_dirty \<or> d))
            else b))"

text \<open>
  The loop over the features of a source tile: each feature's geometry is transformed
  in place when reprojecting (for a projection in tile pixels after \<open>setWorldExtent\<close> and
  \<open>setExtent\<close>), and the feature is rendered unless a buffered extent is given and does not
  intersect the geometry's extent. The result has the features as the loop leaves them.
\<close>

fun featuresLoop ::
  "'g VtEnv \<Rightarrow> rat \<Rightarrow> rat \<Rightarrow> bool \<Rightarrow> VtProjection \<Rightarrow> VtProjection \<Rightarrow> extent \<Rightarrow> extent option \<Rightarrow>
   extent option \<Rightarrow> 'g Feature list \<Rightarrow> 'g buildState \<Rightarrow> 'g Feature list \<times> 'g buildState"
where
  "featuresLoop env resolution squaredTolerance reproject tileProjection projection
       sourceTileExtent tileExtentPx bufferedExtent [] b = ([], b)"
| "featuresLoop env resolution squaredTolerance reproject tileProjection projection
       sourceTileExtent tileExtentPx bufferedExtent (feature # rest) b =
     (let tileProjection' =
            (if reproject \<and> vp_units tileProjection = TILE_PIXELS
             then tileProjection\<lparr>vp_worldExtent := Some sourceTileExtent,
                                 vp_extent := tileExtentPx\<rparr>
             else tileProjection);
          feature' =
            (if reproject
             then feature\<lparr>f_geometry :=
                    ve_transformGeometry env tileProjection' projection (f_geometry feature)\<rparr>
             else feature);
          b' = (if (case bufferedExtent of
                      None \<Rightarrow> True
                    | Some be \<Rightarrow> ve_intersects env be (ve_geometryExtent env (f_geometry feature')))
                then render env resolution squaredTolerance feature' b
                else b)
      in case featuresLoop env resolution squaredTolerance reproject tileProjection' projection
                sourceTileExtent tileExtentPx bufferedExtent rest b' of
           (rest', b'') \<Rightarrow> (feature' # rest', b''))"

text \<open>
  What the loop over the source tiles of a composite tile carries: the replay state of
  the tile, the renderer and the source tiles.
\<close>

type_synonym 'g createState = "ReplayState \<times> VtRenderer \<times> 'g sourceTiles"

text \<open>
  The body of the loop \<open>for (t = 0; t < tile.tileKeys.length; ++t)\<close> for one source tile
  that is not in the state \<open>ERROR\<close>.
\<close>

definition createForSourceTile ::
  "'g VtEnv \<Rightarrow> VtFrameState \<Rightarrow> VectorImageTile \<Rightarrow> string \<Rightarrow> 'g SourceTile \<Rightarrow>
   'g createState \<Rightarrow> 'g createState"
where
  "createForSourceTile env frameState tile key sourceTile c =
     (case c of (replayState, this, tiles) \<Rightarrow>
        (let layer = vr_layer this;
             pixelRatio = vf_pixelRatio frameState;
             projection = vf_projection frameState;
             renderOrder = vl_renderOrder layer;
             sourceTileGrid = ve_sourceTileGrid env;
             tileGrid = ve_tileGridForProjection env projection;
             resolution = tg_getResolution tileGrid (fst (vt_tileCoord tile));
             tileExtent = tg_getTileCoordExtent tileGrid (vt_wrappedTileCoord tile);
             sourceTileCoord = st_tileCoord sourceTile;
             sourceTileExtent = tg_getTileCoordExtent sourceTileGrid sourceTileCoord;
             sharedExtent = ve_getIntersection env tileExtent sourceTileExtent;
             bufferedExtent =
               (if ve_equals env sourceTileExtent sharedExtent then None
                else Some (ve_buffer env sharedExtent (vl_renderBuffer layer * resolution)));
             tileProjection = st_projection sourceTile;
             reproject = \<not> ve_equivalentProjection env projection tileProjection;
             sourceTile1 = (if reproject then sourceTile\<lparr>st_projection := projection\<rparr>
                            else sourceTile);
             replayState1 = replayState\<lparr>dirty := False\<rparr>;
             replayGroup = \<lparr>rg_id = vr_nextObj this, rg_extent = sharedExtent,
                            rg_resolution = resolution, rg_pixelRatio = pixelRatio,
                            rg_overlaps = vl_overlaps layer, rg_declutter = vl_declutter layer,
                            rg_renderBuffer = vl_renderBuffer layer, rg_rendered = [],
                            rg_finished = False\<rparr>;
             this1 = this\<lparr>vr_nextObj := Suc (vr_nextObj this)\<rparr>;
             squaredTolerance = ve_getSquaredRenderTolerance env resolution pixelRatio;
             features = (case renderOrder of
                           None \<Rightarrow> st_features sourceTile1
                         | Some ro \<Rightarrow>
                             if renderOrder \<noteq> renderedRenderOrder replayState1
                             then ve_sort env ro (st_features sourceTile1)
                             else st_features sourceTile1)
         in case featuresLoop env resolution squaredTolerance reproject tileProjection projection
                   sourceTileExtent (st_extent sourceTile1) bufferedExtent features
                   (replayGroup, vr_dirty this1, dirty replayState1) of
              (features', replayGroup', this_dirty, state_dirty) \<Rightarrow>
                (replayState1\<lparr>dirty := state_dirty\<rparr>,
                 this1\<lparr>vr_dirty := this_dirty\<rparr>,
                 tiles(key \<mapsto> setReplayGroup layer (vt_tileCoord tile)
                                 (replayGroup'\<lparr>rg_finished := True\<rparr>)
                                 (sourceTile1\<lparr>st_features := features'\<rparr>)))))"

text \<open>
  The loop over \<open>tile.tileKeys\<close>: a source tile in the state \<open>ERROR\<close> is passed over
  (\<open>continue\<close>); a key with no source tile is a \<open>TypeError\<close>.
\<close>

fun createKeysLoop ::
  "'g VtEnv \<Rightarrow> VtFrameState \<Rightarrow> VectorImageTile \<Rightarrow> string list \<Rightarrow> 'g createState \<Rightarrow>
   error + 'g createState"
where
  "createKeysLoop env frameState tile [] c = Inr c"
| "createKeysLoop env frameState tile (key # keys) c =
     (case c of (replayState, this, tiles) \<Rightarrow>
        (case tiles key of
           None \<Rightarrow> Inl TypeError
         | Some sourceTile \<Rightarrow>
             if st_state sourceTile = ERROR
             then createKeysLoop env frameState tile keys c
             else createKeysLoop env frameState tile keys
                    (createForSourceTile env frameState tile key sourceTile c)))"

text \<open>
  \<open>createReplayGroup_(tile, frameState)\<close>: the tile, the renderer and the source tiles as
  the call leaves them, or the error thrown.
\<close>

definition createReplayGroup ::
  "'g VtEnv \<Rightarrow> VtFrameState \<Rightarrow> VectorImageTile \<Rightarrow> VtRenderer \<Rightarrow> 'g sourceTiles \<Rightarrow>
   error + (VectorImageTile \<times> VtRenderer \<times> 'g sourceTiles)"
where
  "createReplayGroup env frameState tile this tiles =
     (let layer = vr_layer this;
          revision = int (vl_revision layer);
          renderOrder = vl_renderOrder layer;
          replayState = getReplayState tile layer
      in if \<not> dirty replayState \<and> renderedRevision replayState = revision \<and>
            renderedRenderOrder replayState = renderOrder
         then Inr (tile, this, tiles)
         else
           (case createKeysLoop env frameState tile (vt_tileKeys tile) (replayState, this, tiles) of
              Inl e \<Rightarrow> Inl e
            | Inr (replayState', this', tiles') \<Rightarrow>
                Inr (setReplayState layer
                       (replayState'\<lparr>renderedRevision := revision,
                                      renderedRenderOrder := renderOrder\<rparr>) tile,
                     this', tiles')))"

text \<open>
  Names used to state what the call does: whether the replay state of a tile is clean
  for the renderer's layer, whether the source tile at a key is in the state \<open>ERROR\<close>, and
  the keys of a tile whose source tiles are not.
\<close>

definition clean :: "VectorImageTile \<Rightarrow> VtLayer \<Rightarrow> bool" where
  "clean tile layer =
     (\<not> dirty (getReplayState tile layer) \<and>
      renderedRevision (getReplayState tile layer) = int (vl_revision layer) \<and>
      renderedRenderOrder (getReplayState tile layer) = vl_renderOrder layer)"

definition inError :: "'g sourceTiles \<Rightarrow> string \<Rightarrow> bool" where
  "inError tiles key = (case tiles key of None \<Rightarrow> False | Some t \<Rightarrow> st_state t = ERROR)"

definition usableKeys :: "'g sourceTiles \<Rightarrow> string list \<Rightarrow> string list" where
  "usableKeys tiles keys = filter (\<lambda>k. \<not> inError tiles k) keys"

text \<open>
  Two dictionaries of source tiles have the same states when every key has a source tile
  in both or in neither, in the same load state.
\<close>

definition sameStates :: "'g sourceTiles \<Rightarrow> 'g sourceTiles \<Rightarrow> bool" where
  "sameStates tiles tiles' = (\<forall>k. map_option st_state (tiles' k) = map_option st_state (tiles k))"

text \<open>
  What the loop over the keys of a tile leaves: the layer and the rendered revision and
  render order as they were; one new object identity taken for each usable key; the states
  of the source tiles as they were; the source tiles at the other keys unchanged; and at
  each usable key a finished replay group with a new identity.
\<close>

definition keysBuilt ::
  "VectorImageTile \<Rightarrow> string list \<Rightarrow> 'g createState \<Rightarrow> 'g createState \<Rightarrow> bool" where
  "keysBuilt tile keys c c' =
     (case c of (rs, this, tiles) \<Rightarrow> case c' of (rs', this', tiles') \<Rightarrow>
        vr_layer this' = vr_layer this \<and>
        vr_nextObj this' = vr_nextObj this + length (usableKeys tiles keys) \<and>
        renderedRevision rs' = renderedRevision rs \<and>
        renderedRenderOrder rs' = renderedRenderOrder rs \<and>
        sameStates tiles tiles' \<and>
        (\<forall>k. k \<notin> set (usableKeys tiles keys) \<longrightarrow> tiles' k = tiles k) \<and>
        (\<forall>k \<in> set (usableKeys tiles keys).
           \<exists>st rg. tiles' k = Some st \<and>
             getReplayGroup st (vr_layer this) (vt_tileCoord tile) = Some rg \<and>
             vr_nextObj this \<le> rg_id rg \<and> rg_id rg < vr_nextObj this' \<and> rg_finished rg))"

section \<open>ol/renderer/canvas/VectorTileLayer: hit detection\<close>

text \<open>
  What the hit detection of the renderer carries: \<open>found\<close>, the dictionary \<open>features\<close> of
  the uids already passed to the callback, and (for the statement of the properties) the
  features the callback was called with, in order.
\<close>

record 'g HitState =
  hs_found :: jsval
  hs_features :: "nat set"
  hs_calls :: "'g Feature list"

text \<open>
  The function handed to the replay group: for a feature whose uid is not yet in
  \<open>features\<close> it enters the uid and returns what the callback returns; otherwise it returns
  \<open>undefined\<close> without calling the callback.
\<close>

definition hitCallback ::
  "('g Feature \<Rightarrow> VtLayer \<Rightarrow> error + jsval) \<Rightarrow> VtLayer \<Rightarrow> 'g Feature \<Rightarrow> 'g HitState \<Rightarrow>
   (error + jsval) \<times> 'g HitState"
where
  "hitCallback callback layer feature h =
     (let key = getUid feature in
      if key \<notin> hs_features h
      then (callback feature layer,
            h\<lparr>hs_features := insert key (hs_features h), hs_calls := hs_calls h @ [feature]\<rparr>)
      else (Inr JUndefined, h))"

text \<open>
  Modelled from the spec: \<open>forEachFeatureAtCoordinate\<close> of a replay group
  (ol/render/canvas/ReplayGroup.js is not among the sources) "invokes callback(feature) for
  each hit until a truthy result is returned, short-circuiting the search"; it returns
  that result, and \<open>undefined\<close> when no result is truthy. The hits, in the order they are
  tested, are given.
\<close>

fun replayGroupForEach ::
  "('g Feature \<Rightarrow> VtLayer \<Rightarrow> error + jsval) \<Rightarrow> VtLayer \<Rightarrow> 'g Feature list \<Rightarrow> 'g HitState \<Rightarrow>
   (error + jsval) \<times> 'g HitState"
where
  "replayGroupForEach callback layer [] h = (Inr JUndefined, h)"
| "replayGroupForEach callback layer (feature # rest) h =
     (case hitCallback callback layer feature h of
        (Inl e, h') \<Rightarrow> (Inl e, h')
      | (Inr result, h') \<Rightarrow>
          if truthy result then (Inr result, h')
          else replayGroupForEach callback layer rest h')"

text \<open>
  The loop over the source tiles of one rendered tile:
  \<open>found = found || replayGroup.forEachFeatureAtCoordinate(...)\<close>. A source tile in the
  state \<open>ERROR\<close> is passed over. The replay group is looked up for every other source tile
  but used only while \<open>found\<close> is falsy; a missing source tile, and a missing replay group
  that is used, are a \<open>TypeError\<close>.
\<close>

fun hitKeysLoop ::
  "'g VtEnv \<Rightarrow> VtFrameState \<Rightarrow> VtLayer \<Rightarrow> 'g sourceTiles \<Rightarrow> coordinate \<Rightarrow> rat \<Rightarrow>
   ('g Feature \<Rightarrow> VtLayer \<Rightarrow> error + jsval) \<Rightarrow> VectorImageTile \<Rightarrow> string list \<Rightarrow> 'g HitState \<Rightarrow>
   error option \<times> 'g HitState"
where
  "hitKeysLoop env frameState layer tiles coordinate hitTolerance callback tile [] h = (None, h)"
| "hitKeysLoop env frameState layer tiles coordinate hitTolerance callback tile (key # keys) h =
     (case tiles key of
        None \<Rightarrow> (Some TypeError, h)
      | Some sourceTile \<Rightarrow>
          if st_state sourceTile = ERROR
          then hitKeysLoop env frameState layer tiles coordinate hitTolerance callback tile keys h
          else if truthy (hs_found h)
          then hitKeysLoop env frameState layer tiles coordinate hitTolerance callback tile keys h
          else (case getReplayGroup sourceTile layer (vt_tileCoord tile) of
                  None \<Rightarrow> (Some TypeError, h)
                | Some replayGroup \<Rightarrow>
                    (case replayGroupForEach callback layer
                            (ve_candidates env replayGroup coordinate (vf_resolution frameState)
                               (vf_rotation frameState) hitTolerance) h of
                       (Inl e, h') \<Rightarrow> (Some e, h')
                     | (Inr result, h') \<Rightarrow>
                         hitKeysLoop env frameState layer tiles coordinate hitTolerance callback
                           tile keys (h'\<lparr>hs_found := result\<rparr>))))"

text \<open>
  The loop over the rendered tiles: a tile whose extent, buffered by the hit tolerance,
  does not contain the coordinate is passed over.
\<close>

fun hitTilesLoop ::
  "'g VtEnv \<Rightarrow> VtFrameState \<Rightarrow> VtLayer \<Rightarrow> 'g sourceTiles \<Rightarrow> coordinate \<Rightarrow> rat \<Rightarrow>
   ('g Feature \<Rightarrow> VtLayer \<Rightarrow> error + jsval) \<Rightarrow> VectorImageTile list \<Rightarrow> 'g HitState \<Rightarrow>
   error option \<times> 'g HitState"
where
  "hitTilesLoop env frameState layer tiles coordinate hitTolerance callback [] h = (None, h)"
| "hitTilesLoop env frameState layer tiles coordinate hitTolerance callback (tile # rest) h =
     (let tileGrid = ve_tileGridForProjection env (vf_projection frameState);
          tileExtent = tg_getTileCoordExtent tileGrid (vt_wrappedTileCoord tile);
          bufferedExtent = ve_buffer env tileExtent (hitTolerance * vf_resolution frameState)
      in if \<not> ve_containsCoordinate env bufferedExtent coordinate
         then hitTilesLoop env frameState layer tiles coordinate hitTolerance callback rest h
         else (case hitKeysLoop env frameState layer tiles coordinate hitTolerance callback tile
                      (vt_tileKeys tile) h of
                 (Some e, h') \<Rightarrow> (Some e, h')
               | (None, h') \<Rightarrow>
                   hitTilesLoop env frameState layer tiles coordinate hitTolerance callback
                     rest h'))"

text \<open>
  \<open>forEachFeatureAtCoordinate(coordinate, frameState, hitTolerance, callback, thisArg)\<close> of
  the renderer (\<open>hitTolerance\<close> given): the error thrown, if any, and the final state, whose
  \<open>hs_found\<close> is the value returned when nothing is thrown.
\<close>

definition forEachFeatureAtCoordinate ::
  "'g VtEnv \<Rightarrow> VtRenderer \<Rightarrow> 'g sourceTiles \<Rightarrow> coordinate \<Rightarrow> VtFrameState \<Rightarrow> rat \<Rightarrow>
   ('g Feature \<Rightarrow> VtLayer \<Rightarrow> error + jsval) \<Rightarrow> error option \<times> 'g HitState"
where
  "forEachFeatureAtCoordinate env this tiles coordinate frameState hitTolerance callback =
     hitTilesLoop env frameState (vr_layer this) tiles coordinate hitTolerance callback
       (vr_renderedTiles this) \<lparr>hs_found = JUndefined, hs_features = {}, hs_calls = []\<rparr>"

text \<open>
  What holds of the hit detection's state throughout: the features passed to the callback
  have distinct uids, and \<open>features\<close> holds exactly their uids.
\<close>

definition hitInv :: "'g HitState \<Rightarrow> bool" where
  "hitInv h = (distinct (map getUid (hs_calls h)) \<and> getUid ` set (hs_calls h) = hs_features h)"

section \<open>ol/renderer/canvas/VectorTileLayer: compositing and rasterizing\<close>

text \<open>
  The calls made on a canvas context, in order. \<open>ReplayOp\<close> is
  \<open>replayGroup.replay(context, transform, rotation, {}, replayTypes, declutterReplays)\<close>
  for the replay group of the given identity; \<open>SuperPostCompose\<close> is the \<open>postCompose\<close> of
  the base class \<open>ol.renderer.canvas.TileLayer\<close>, which is not among the sources.
\<close>

datatype ctx_op =
    Save
  | Restore
  | SetGlobalAlpha jsnum
  | BeginPath
  | MoveTo coordinate
  | LineTo coordinate
  | Clip
  | RotateAtOffset rat rat rat
  | ClearDeclutterTree
  | ReplayOp nat transform rat "ReplayType list" bool
  | ReplayDeclutter
  | SuperPostCompose
  | SetCanvasSize "rat \<times> rat"

text \<open>The tables \<open>IMAGE_REPLAYS\<close> and \<open>VECTOR_REPLAYS\<close>; \<open>IMAGE_REPLAYS\<close> has no entry for \<open>vector\<close>.\<close>

fun IMAGE_REPLAYS :: "VectorTileRenderType \<Rightarrow> ReplayType list option" where
  "IMAGE_REPLAYS Mode_image = Some [POLYGON, CIRCLE, LINE_STRING, IMAGE, TEXT]"
| "IMAGE_REPLAYS Mode_hybrid = Some [POLYGON, LINE_STRING]"
| "IMAGE_REPLAYS Mode_vector = None"

fun VECTOR_REPLAYS :: "'g VtEnv \<Rightarrow> VectorTileRenderType \<Rightarrow> ReplayType list" where
  "VECTOR_REPLAYS env Mode_image = [DEFAULT]"
| "VECTOR_REPLAYS env Mode_hybrid = [IMAGE, TEXT, DEFAULT]"
| "VECTOR_REPLAYS env Mode_vector = ve_ORDER env"

text \<open>\<open>Math.round\<close>, which rounds a half upwards.\<close>

definition Math_round :: "rat \<Rightarrow> rat" where
  "Math_round x = of_int \<lfloor>x + 1 / 2\<rfloor>"

text \<open>
  The compound clip path drawn for one earlier clip: the outer ring through the corners
  of the current tile's clip in order, the inner ring through the corners of the earlier
  clip in reverse order, then \<open>clip()\<close>.
\<close>

definition clipPath :: "clipCoords \<Rightarrow> clipCoords \<Rightarrow> ctx_op list" where
  "clipPath currentClip clip =
     (case currentClip of (c0, c1, c2, c3) \<Rightarrow>
      case clip of (k0, k1, k2, k3) \<Rightarrow>
        [BeginPath, MoveTo c0, LineTo c1, LineTo c2, LineTo c3,
         MoveTo k3, LineTo k2, LineTo k1, LineTo k0, Clip])"

text \<open>
  The loop \<open>for (j = 0; j < clips.length; ++j)\<close> over the arrays \<open>clips\<close> and \<open>zs\<close>, which are
  pushed to together: a clip path for each entry with \<open>currentZ < zs[j]\<close>.
\<close>

fun clipsLoop :: "int \<Rightarrow> clipCoords \<Rightarrow> clipCoords list \<Rightarrow> int list \<Rightarrow> ctx_op list" where
  "clipsLoop currentZ currentClip (clip # clips) (z # zs) =
     (if currentZ < z then clipPath currentClip clip else []) @
     clipsLoop currentZ currentClip clips zs"
| "clipsLoop currentZ currentClip _ _ = []"

text \<open>
  What the compositing loops carry: the calls made on the context so far and the arrays
  \<open>clips\<close> and \<open>zs\<close>; within one tile also \<open>transform\<close>, computed when first needed.
\<close>

type_synonym composeState = "ctx_op list \<times> clipCoords list \<times> int list"

fun composeKeysLoop ::
  "'g VtEnv \<Rightarrow> VtFrameState \<Rightarrow> VtLayer \<Rightarrow> jsnum \<Rightarrow> 'g sourceTiles \<Rightarrow> VectorImageTile \<Rightarrow> rat \<Rightarrow>
   string list \<Rightarrow> transform option \<Rightarrow> composeState \<Rightarrow> error + composeState"
where
  "composeKeysLoop env frameState layer opacity tiles tile worldOffset [] transform c = Inr c"
| "composeKeysLoop env frameState layer opacity tiles tile worldOffset (key # keys) transform c =
     (case tiles key of
        None \<Rightarrow> Inl TypeError
      | Some sourceTile \<Rightarrow>
          if st_state sourceTile = ERROR
          then composeKeysLoop env frameState layer opacity tiles tile worldOffset keys transform c
          else
            (case getReplayGroup sourceTile layer (vt_tileCoord tile) of
               None \<Rightarrow> Inl TypeError
             | Some replayGroup \<Rightarrow>
                 (let renderMode = vl_renderMode layer;
                      replayTypes = VECTOR_REPLAYS env renderMode
                  in if renderMode \<noteq> Mode_vector \<and> \<not> ve_hasReplays env replayGroup replayTypes
                     then composeKeysLoop env frameState layer opacity tiles tile worldOffset
                            keys transform c
                     else
                       (let transform' = (case transform of
                                            None \<Rightarrow> ve_getTransform env frameState worldOffset
                                          | Some t \<Rightarrow> t);
                            currentZ = fst (st_tileCoord sourceTile);
                            currentClip = ve_getClipCoords env replayGroup transform'
                        in case c of (ops, clips, zs) \<Rightarrow>
                             composeKeysLoop env frameState layer opacity tiles tile worldOffset
                               keys (Some transform')
                               (ops @ [Save, SetGlobalAlpha opacity] @
                                  clipsLoop currentZ currentClip clips zs @
                                  [ReplayOp (rg_id replayGroup) transform'
                                     (vf_rotation frameState) replayTypes (vl_declutter layer),
                                   Restore],
                                clips @ [currentClip], zs @ [currentZ])))))"

text \<open>
  The loop \<open>for (i = tiles.length - 1; i >= 0; --i)\<close>, over the rendered tiles in the
  order it visits them; a tile in the state \<open>ABORT\<close> is passed over.
\<close>

fun composeTilesLoop ::
  "'g VtEnv \<Rightarrow> VtFrameState \<Rightarrow> VtLayer \<Rightarrow> jsnum \<Rightarrow> 'g sourceTiles \<Rightarrow> VectorImageTile list \<Rightarrow>
   composeState \<Rightarrow> error + composeState"
where
  "composeTilesLoop env frameState layer opacity tiles [] c = Inr c"
| "composeTilesLoop env frameState layer opacity tiles (tile # rest) c =
     (if vt_state tile = ABORT
      then composeTilesLoop env frameState layer opacity tiles rest c
      else
        (let tileGrid = ve_tileGridForProjection env (vf_projection frameState);
             worldOffset = fst (tg_getTileCoordExtent tileGrid (vt_tileCoord tile)) -
                           fst (tg_getTileCoordExtent tileGrid (vt_wrappedTileCoord tile))
         in case composeKeysLoop env frameState layer opacity tiles tile worldOffset
                   (vt_tileKeys tile) None c of
              Inl e \<Rightarrow> Inl e
            | Inr c' \<Rightarrow> composeTilesLoop env frameState layer opacity tiles rest c'))"

text \<open>
  \<open>postCompose(context, frameState, layerState)\<close>: the calls made on the context and the
  arrays \<open>clips\<close> and \<open>zs\<close> at the end of the pass, or the error thrown.
\<close>

definition postCompose ::
  "'g VtEnv \<Rightarrow> VtRenderer \<Rightarrow> 'g sourceTiles \<Rightarrow> VtFrameState \<Rightarrow> jsnum \<Rightarrow> error + composeState"
where
  "postCompose env this tiles frameState opacity =
     (let layer = vr_layer this;
          declutterReplays = vl_declutter layer;
          pixelRatio = vf_pixelRatio frameState;
          rotation = vf_rotation frameState;
          size = vf_size frameState;
          offsetX = Math_round (pixelRatio * fst size / 2);
          offsetY = Math_round (pixelRatio * snd size / 2);
          ops0 = (if rotation \<noteq> 0 then [RotateAtOffset (- rotation) offsetX offsetY] else []) @
                 (if declutterReplays then [ClearDeclutterTree] else [])
      in case composeTilesLoop env frameState layer opacity tiles (rev (vr_renderedTiles this))
                (ops0, [], []) of
           Inl e \<Rightarrow> Inl e
         | Inr (ops, clips, zs) \<Rightarrow>
             Inr (ops @ (if declutterReplays then [ReplayDeclutter] else []) @
                    (if rotation \<noteq> 0 then [RotateAtOffset rotation offsetX offsetY] else []) @
                    [SuperPostCompose],
                  clips, zs))"

text \<open>
  The transform \<open>renderTileImage_\<close> builds with \<open>reset\<close>, \<open>scale\<close> and \<open>translate\<close> of
  ol/transform.js (not among the sources; the six numbers are those of a scaling by
  \<open>(pixelScale, -pixelScale)\<close> applied after a translation by \<open>(-minX, -maxY)\<close>).
\<close>

definition tileImageTransform :: "rat \<Rightarrow> extent \<Rightarrow> transform" where
  "tileImageTransform pixelScale tileExtent =
     (case tileExtent of (minX, minY, maxX, maxY) \<Rightarrow>
        [pixelScale, 0, 0, - pixelScale, pixelScale * (- minX), (- pixelScale) * (- maxY)])"

text \<open>The loop of \<open>renderTileImage_\<close> over the source tiles, drawing into the tile's own canvas.\<close>

fun imageKeysLoop ::
  "'g VtEnv \<Rightarrow> VtLayer \<Rightarrow> 'g sourceTiles \<Rightarrow> VectorImageTile \<Rightarrow> rat \<Rightarrow> extent \<Rightarrow> ReplayType list \<Rightarrow>
   string list \<Rightarrow> ctx_op list \<Rightarrow> error + ctx_op list"
where
  "imageKeysLoop env layer tiles tile pixelScale tileExtent replays [] ops = Inr ops"
| "imageKeysLoop env layer tiles tile pixelScale tileExtent replays (key # keys) ops =
     (case tiles key of
        None \<Rightarrow> Inl TypeError
      | Some sourceTile \<Rightarrow>
          if st_state sourceTile = ERROR
          then imageKeysLoop env layer tiles tile pixelScale tileExtent replays keys ops
          else
            (case getReplayGroup sourceTile layer (vt_tileCoord tile) of
               None \<Rightarrow> Inl TypeError
             | Some replayGroup \<Rightarrow>
                 imageKeysLoop env layer tiles tile pixelScale tileExtent replays keys
                   (ops @ [ReplayOp (rg_id replayGroup)
                             (tileImageTransform pixelScale tileExtent) 0 replays False])))"

text \<open>
  \<open>renderTileImage_(tile, frameState, layerState)\<close>: the tile with its replay state
  updated and the calls made on the tile's canvas context, or the error thrown.
\<close>

definition renderTileImage ::
  "'g VtEnv \<Rightarrow> VtRenderer \<Rightarrow> 'g sourceTiles \<Rightarrow> VectorImageTile \<Rightarrow> VtFrameState \<Rightarrow>
   error + (VectorImageTile \<times> ctx_op list)"
where
  "renderTileImage env this tiles tile frameState =
     (let layer = vr_layer this;
          replayState = getReplayState tile layer;
          revision = int (vl_revision layer)
      in case IMAGE_REPLAYS (vl_renderMode layer) of
           None \<Rightarrow> Inr (tile, [])
         | Some replays \<Rightarrow>
             if renderedTileRevision replayState \<noteq> revision
             then
               (let tile' = setReplayState layer
                              (replayState\<lparr>renderedTileRevision := revision\<rparr>) tile;
                    tileCoord = vt_wrappedTileCoord tile;
                    z = fst tileCoord;
                    pixelRatio = vf_pixelRatio frameState;
                    tileGrid = ve_tileGridForProjection env (vf_projection frameState);
                    resolution = tg_getResolution tileGrid z;
                    size = ve_getTilePixelSize env z pixelRatio (vf_projection frameState);
                    tileExtent = tg_getTileCoordExtent tileGrid tileCoord
                in case imageKeysLoop env layer tiles tile (pixelRatio / resolution) tileExtent
                          replays (vt_tileKeys tile) [SetCanvasSize size] of
                     Inl e \<Rightarrow> Inl e
                   | Inr ops \<Rightarrow> Inr (tile', ops))
             else Inr (tile, []))"











text \<open>
  Names used to state what is passed over: a composite tile with the keys of its source
  tiles in the state \<open>ERROR\<close> taken out, and a list of composite tiles with the tiles in the
  state \<open>ABORT\<close> taken out and the others so reduced.
\<close>

definition usableTile :: "'g sourceTiles \<Rightarrow> VectorImageTile \<Rightarrow> VectorImageTile" where
  "usableTile tiles tile = tile\<lparr>vt_tileKeys := usableKeys tiles (vt_tileKeys tile)\<rparr>"

definition notAborted :: "VectorImageTile list \<Rightarrow> VectorImageTile list" where
  "notAborted ts = filter (\<lambda>t. vt_state t \<noteq> ABORT) ts"

text \<open>The calls on the tile's canvas context that \<open>renderTileImage_\<close> makes, or the error thrown.\<close>

definition renderTileImage_ops ::
  "'g VtEnv \<Rightarrow> VtRenderer \<Rightarrow> 'g sourceTiles \<Rightarrow> VectorImageTile \<Rightarrow> VtFrameState \<Rightarrow>
   error + ctx_op list"
where
  "renderTileImage_ops env this tiles tile frameState =
     map_sum id snd (renderTileImage env this tiles tile frameState)"



section \<open>ol/renderer/canvas/VectorTileLayer: a small world\<close>

text \<open>
  A vector tile layer in the render mode \<open>hybrid\<close> over a tile grid with two zoom levels.
  The functions of ol/extent.js are given their usual meaning; a replay group has replays
  when something was rendered into it, reports the features rendered into it as its
  candidates, and has the unit square shifted by its identity as its clip.
\<close>

definition vt_projection :: VtProjection where
  "vt_projection = \<lparr>vp_code = ''EPSG:3857'', vp_units = ''m'', vp_extent = None,
                     vp_worldExtent = None\<rparr>"

definition vt_grid :: TileGrid where
  "vt_grid = \<lparr>tg_getResolution = (\<lambda>z. if z = 0 then 2 else 1),
               tg_getTileCoordExtent = (\<lambda>(z, x, y).
                 if z = 0 then (0, 0, 512, 512)
                 else (256 * of_int x, 256 * of_int y, 256 * of_int x + 256, 256 * of_int y + 256))\<rparr>"

definition vt_env :: "nat VtEnv" where
  "vt_env = \<lparr>
     ve_sourceTileGrid = vt_grid,
     ve_tileGridForProjection = (\<lambda>p. vt_grid),
     ve_getIntersection = (\<lambda>(a0, a1, a2, a3) (b0, b1, b2, b3).
        (max a0 b0, max a1 b1, min a2 b2, min a3 b3)),
     ve_equals = (\<lambda>a b. a = b),
     ve_buffer = (\<lambda>(a0, a1, a2, a3) v. (a0 - v, a1 - v, a2 + v, a3 + v)),
     ve_intersects = (\<lambda>(a0, a1, a2, a3) (b0, b1, b2, b3).
        a0 \<le> b2 \<and> b0 \<le> a2 \<and> a1 \<le> b3 \<and> b1 \<le> a3),
     ve_containsCoordinate = (\<lambda>(a0, a1, a2, a3) (x, y). a0 \<le> x \<and> x \<le> a2 \<and> a1 \<le> y \<and> y \<le> a3),
     ve_equivalentProjection = (\<lambda>p q. vp_code p = vp_code q),
     ve_transformGeometry = (\<lambda>p q g. g),
     ve_geometryExtent = (\<lambda>g. (10, 10, 20, 20)),
     ve_featureStyleFunction = (\<lambda>f. None),
     ve_layerStyleFunction = Some (\<lambda>f r. OneStyle 0),
     ve_getSquaredRenderTolerance = (\<lambda>r p. (r / (2 * p)) * (r / (2 * p))),
     ve_imageLoading = (\<lambda>f s. False),
     ve_sort = (\<lambda>ro fs. fs),
     ve_ORDER = [POLYGON, CIRCLE, LINE_STRING, IMAGE, TEXT, DEFAULT],
     ve_hasReplays = (\<lambda>rg ts. rg_rendered rg \<noteq> []),
     ve_getClipCoords = (\<lambda>rg t.
        ((of_nat (rg_id rg), 0), (of_nat (rg_id rg) + 1, 0),
         (of_nat (rg_id rg) + 1, 1), (of_nat (rg_id rg), 1))),
     ve_candidates = (\<lambda>rg c r rot tol. map fst (rg_rendered rg)),
     ve_getTransform = (\<lambda>fs off. [1, 0, 0, 1, off, 0]),
     ve_getTilePixelSize = (\<lambda>z pr p. (256 * pr, 256 * pr))\<rparr>"

definition vt_layer :: VtLayer where
  "vt_layer = \<lparr>ly_uid = 7, ly_type = ''VECTOR_TILE'', ly_source = Some \<lparr>src_wrapX = False\<rparr>,
                vl_revision = 1, vl_renderOrder = None, vl_renderBuffer = 100,
                vl_renderMode = Mode_hybrid, vl_declutter = False, vl_overlaps = True\<rparr>"

definition vt_frameState :: VtFrameState where
  "vt_frameState = \<lparr>vf_pixelRatio = 1, vf_size = (512, 512), vf_resolution = 1,
                     vf_rotation = 0, vf_projection = vt_projection\<rparr>"

text \<open>
  Three features and three source tiles: \<open>a\<close> (loaded, zoom 1), \<open>b\<close> (in the state \<open>ERROR\<close>,
  zoom 1) and \<open>c\<close> (loaded, zoom 0), which holds a feature that \<open>a\<close> holds as well.
\<close>

definition vt_feature1 :: "nat Feature" where
  "vt_feature1 = \<lparr>f_uid = 11, f_geometry = 0\<rparr>"

definition vt_feature2 :: "nat Feature" where
  "vt_feature2 = \<lparr>f_uid = 12, f_geometry = 1\<rparr>"

definition vt_feature3 :: "nat Feature" where
  "vt_feature3 = \<lparr>f_uid = 13, f_geometry = 2\<rparr>"

definition vt_sourceA :: "nat SourceTile" where
  "vt_sourceA = \<lparr>st_state = LOADED, st_tileCoord = (1, 0, 0), st_extent = None,
                  st_projection = vt_projection, st_features = [vt_feature1, vt_feature2],
                  st_replayGroups = Map.empty\<rparr>"

definition vt_sourceB :: "nat SourceTile" where
  "vt_sourceB = \<lparr>st_state = ERROR, st_tileCoord = (1, 1, 0), st_extent = None,
                  st_projection = vt_projection, st_features = [vt_feature3],
                  st_replayGroups = Map.empty\<rparr>"

definition vt_sourceC :: "nat SourceTile" where
  "vt_sourceC = \<lparr>st_state = LOADED, st_tileCoord = (0, 0, 0), st_extent = None,
                  st_projection = vt_projection, st_features = [vt_feature1],
                  st_replayGroups = Map.empty\<rparr>"

definition vt_sources :: "nat sourceTiles" where
  "vt_sources = [''a'' \<mapsto> vt_sourceA, ''b'' \<mapsto> vt_sourceB, ''c'' \<mapsto> vt_sourceC]"

text \<open>
  Two composite tiles, one at zoom 1 over \<open>a\<close> and \<open>b\<close> and one at zoom 0 over \<open>c\<close>, and a
  composite tile in the state \<open>ABORT\<close>; the renderer has rendered all three.
\<close>

definition vt_tile1 :: VectorImageTile where
  "vt_tile1 = \<lparr>vt_state = LOADED, vt_tileCoord = (1, 0, 0), vt_wrappedTileCoord = (1, 0, 0),
                vt_tileKeys = [''a'', ''b''], vt_replayState = (\<lambda>uid. initialReplayState)\<rparr>"

definition vt_tile0 :: VectorImageTile where
  "vt_tile0 = \<lparr>vt_state = LOADED, vt_tileCoord = (0, 0, 0), vt_wrappedTileCoord = (0, 0, 0),
                vt_tileKeys = [''c''], vt_replayState = (\<lambda>uid. initialReplayState)\<rparr>"

definition vt_tileAborted :: VectorImageTile where
  "vt_tileAborted = \<lparr>vt_state = ABORT, vt_tileCoord = (1, 1, 1), vt_wrappedTileCoord = (1, 1, 1),
                      vt_tileKeys = [''a''], vt_replayState = (\<lambda>uid. initialReplayState)\<rparr>"

definition vt_renderer :: VtRenderer where
  "vt_renderer = \<lparr>vr_layer = vt_layer, vr_context = True, vr_dirty = False,
                   vr_renderedLayerRevision = None,
                   vr_renderedTiles = [vt_tile0, vt_tileAborted, vt_tile1], vr_nextObj = 100\<rparr>"

text \<open>
  The world after the replay groups of the two loaded composite tiles were built: the
  replay group of \<open>a\<close> has the identity 100 and that of \<open>c\<close> the identity 101.
\<close>

definition vt_groupA :: "nat ReplayGroup" where
  "vt_groupA = \<lparr>rg_id = 100, rg_extent = (0, 0, 256, 256), rg_resolution = 1,
                 rg_pixelRatio = 1, rg_overlaps = True, rg_declutter = False,
                 rg_renderBuffer = 100,
                 rg_rendered = [(vt_feature1, 0, 1 / 4), (vt_feature2, 0, 1 / 4)],
                 rg_finished = True\<rparr>"

definition vt_groupC :: "nat ReplayGroup" where
  "vt_groupC = \<lparr>rg_id = 101, rg_extent = (0, 0, 512, 512), rg_resolution = 2,
                 rg_pixelRatio = 1, rg_overlaps = True, rg_declutter = False,
                 rg_renderBuffer = 100,
                 rg_rendered = [(vt_feature1, 0, 1)],
                 rg_finished = True\<rparr>"

definition vt_sources1 :: "nat sourceTiles" where
  "vt_sources1 = vt_sources(''a'' \<mapsto> vt_sourceA\<lparr>st_replayGroups := [(7, (1, 0, 0)) \<mapsto> vt_groupA]\<rparr>)"

definition vt_built :: "nat sourceTiles" where
  "vt_built = vt_sources1(''c'' \<mapsto> vt_sourceC\<lparr>st_replayGroups := [(7, (0, 0, 0)) \<mapsto> vt_groupC]\<rparr>)"

definition vt_renderedState :: ReplayState where
  "vt_renderedState = \<lparr>dirty = False, renderedRenderOrder = None, renderedRevision = 1,
                        renderedTileRevision = -1\<rparr>"

definition vt_tile1_built :: VectorImageTile where
  "vt_tile1_built = vt_tile1\<lparr>vt_replayState := (vt_replayState vt_tile1)(7 := vt_renderedState)\<rparr>"

definition vt_tile0_built :: VectorImageTile where
  "vt_tile0_built = vt_tile0\<lparr>vt_replayState := (vt_replayState vt_tile0)(7 := vt_renderedState)\<rparr>"

definition vt_renderer1 :: VtRenderer where
  "vt_renderer1 = vt_renderer\<lparr>vr_nextObj := 101\<rparr>"

definition vt_renderer_built :: VtRenderer where
  "vt_renderer_built = vt_renderer\<lparr>vr_renderedTiles := [vt_tile0_built, vt_tileAborted, vt_tile1_built],
                                   vr_nextObj := 102\<rparr>"

text \<open>A feature callback that returns \<open>undefined\<close>, so that the search goes on.\<close>

definition vt_callback :: "nat Feature \<Rightarrow> VtLayer \<Rightarrow> error + jsval" where
  "vt_callback feature layer = Inr JUndefined"



section \<open>Theorems\<close>


subsection \<open>The layer state snapshot\<close>

lemma clamp_unit_bounds:
  "v \<noteq> NaN \<Longrightarrow>
     js_le (Fin 0) (clamp v (Fin 0) (Fin 1)) \<and> js_le (clamp v (Fin 0) (Fin 1)) (Fin 1)"
  by (cases v) (simp_all add: clamp_def Math_max_def Math_min_def)

lemma clamp_NaN: "clamp NaN lo hi = NaN"
  by (simp add: clamp_def Math_max_def Math_min_def)

lemma Math_max_zero_id: "js_le (Fin 0) v \<Longrightarrow> Math_max v (Fin 0) = v"
  by (cases v) (auto simp: Math_max_def)

text \<open>
  Claim C9, as the spec states it, asks the opacity of the snapshot to lie in \<open>[0, 1]\<close>
  for every opacity set before, and every other field of the snapshot, \<open>minResolution\<close>
  among them, to be the layer's property. Neither is so. \<open>setOpacity\<close> stores any number,
  and for the opacity \<open>NaN\<close> the snapshot's opacity is \<open>NaN\<close>, which is not within \<open>[0, 1]\<close>.
  The layer with \<open>minResolution = -1\<close> has the snapshot value \<open>0\<close>.
\<close>

theorem getLayerState_minResolution_counterexample:
  "ls_minResolution (fst (getLayerState layer_negMinRes)) \<noteq> getMinResolution layer_negMinRes \<and>
   ls_opacity (fst (getLayerState (setOpacity NaN layer_negMinRes))) = NaN \<and>
   \<not> js_le (Fin 0) (ls_opacity (fst (getLayerState (setOpacity NaN layer_negMinRes)))) \<and>
   \<not> js_le (ls_opacity (fst (getLayerState (setOpacity NaN layer_negMinRes)))) (Fin 1)"
  by (simp add: getLayerState_def layer_negMinRes_def getMinResolution_def getOpacity_def
      setOpacity_def clamp_def Math_max_def Math_min_def Let_def)

text \<open>
  Claim C9, amended: for every layer and every opacity set before, the snapshot returned
  by \<open>getLayerState\<close> has the opacity \<open>clamp(opacity, 0, 1)\<close>: within \<open>[0, 1]\<close> for every
  opacity other than \<open>NaN\<close>, and \<open>NaN\<close> for the opacity \<open>NaN\<close>; \<open>visible\<close>, \<open>zIndex\<close>,
  \<open>maxResolution\<close>, \<open>sourceState\<close> and \<open>extent\<close> are the layer's current values;
  \<open>minResolution\<close> is \<open>Math.max\<close> of the layer's current \<open>minResolution\<close> and \<open>0\<close> (so it is
  the layer's value when that is not negative and not \<open>NaN\<close>); \<open>layer\<close> and \<open>managed\<close> are
  left as they were; and the returned object is the layer's \<open>state_\<close> (here \<open>bl_state\<close>).
\<close>

theorem getLayerState_snapshot:
  "getLayerState (setOpacity v l) = (s, l') \<Longrightarrow>
     ls_opacity s = clamp v (Fin 0) (Fin 1) \<and>
     (v \<noteq> NaN \<longrightarrow> js_le (Fin 0) (ls_opacity s) \<and> js_le (ls_opacity s) (Fin 1)) \<and>
     (v = NaN \<longrightarrow> ls_opacity s = NaN) \<and>
     ls_visible s = getVisible l \<and>
     ls_zIndex s = getZIndex l \<and>
     ls_maxResolution s = getMaxResolution l \<and>
     ls_sourceState s = getSourceState l \<and>
     ls_extent s = getExtent_layer l \<and>
     ls_minResolution s = Math_max (getMinResolution l) (Fin 0) \<and>
     (js_le (Fin 0) (getMinResolution l) \<longrightarrow> ls_minResolution s = getMinResolution l) \<and>
     ls_layer s = ls_layer (bl_state l) \<and> ls_managed s = ls_managed (bl_state l) \<and>
     bl_state l' = s"
  using clamp_unit_bounds [of v] clamp_NaN [of "Fin 0" "Fin 1"]
    Math_max_zero_id [of "getMinResolution l"]
  by (auto simp: getLayerState_def setOpacity_def getOpacity_def getVisible_def getZIndex_def
      getMaxResolution_def getMinResolution_def getSourceState_def getExtent_layer_def Let_def)

theorem getLayerState_snapshot_witness:
  "ls_opacity (fst (getLayerState (setOpacity (Fin 5) layer_minRes2))) = Fin 1 \<and>
   ls_minResolution (fst (getLayerState (setOpacity (Fin 5) layer_minRes2))) = Fin 2 \<and>
   ls_maxResolution (fst (getLayerState (setOpacity (Fin 5) layer_minRes2))) = PosInf \<and>
   ls_opacity (fst (getLayerState (setOpacity NaN layer_negMinRes))) = NaN \<and>
   ls_minResolution (fst (getLayerState (setOpacity NaN layer_negMinRes))) = Fin 0"
  using getLayerState_snapshot [of "Fin 5" layer_minRes2
      "fst (getLayerState (setOpacity (Fin 5) layer_minRes2))"
      "snd (getLayerState (setOpacity (Fin 5) layer_minRes2))"]
    getLayerState_snapshot [of NaN layer_negMinRes
      "fst (getLayerState (setOpacity NaN layer_negMinRes))"
      "snd (getLayerState (setOpacity NaN layer_negMinRes))"]
  by (simp add: clamp_def Math_max_def Math_min_def layer_negMinRes_def layer_minRes2_def
      setMinResolution_def getMinResolution_def getMaxResolution_def)

subsection \<open>The memoized layer renderer\<close>

lemma scanPlugins_none:
  "(\<forall>p \<in> set ps. \<not> handles p (mr_type mr) layer) \<Longrightarrow>
     scanPlugins ps i mr layer = (map Handles [i..<i + length ps], None)"
proof (induction ps arbitrary: i)
  case Nil
  then show ?case by simp
next
  case (Cons p ps)
  have "[i..<i + length (p # ps)] = i # [Suc i..<Suc i + length ps]"
    by (subst upt_conv_Cons) simp_all
  with Cons show ?case by simp
qed

lemma scanPlugins_first:
  "n < length ps \<Longrightarrow> handles (ps ! n) (mr_type mr) layer \<Longrightarrow>
   (\<forall>j < n. \<not> handles (ps ! j) (mr_type mr) layer) \<Longrightarrow>
     scanPlugins ps i mr layer =
       (map Handles [i..<Suc (i + n)] @ [Create (i + n)], create (ps ! n) mr layer)"
proof (induction ps arbitrary: i n)
  case Nil
  then show ?case by simp
next
  case (Cons p ps)
  show ?case
  proof (cases n)
    case 0
    with Cons.prems show ?thesis by simp
  next
    case (Suc m)
    have nh: "\<not> handles p (mr_type mr) layer"
      using Cons.prems(3) Suc by auto
    have m1: "m < length ps" using Cons.prems(1) Suc by simp
    have m2: "handles (ps ! m) (mr_type mr) layer" using Cons.prems(2) Suc by simp
    have m3: "\<forall>j < m. \<not> handles (ps ! j) (mr_type mr) layer"
      using Cons.prems(3) Suc by auto
    have ih: "scanPlugins ps (Suc i) mr layer =
        (map Handles [Suc i..<Suc (Suc i + m)] @ [Create (Suc i + m)],
         create (ps ! m) mr layer)"
      using Cons.IH [OF m1 m2 m3] .
    have "[i..<Suc (i + n)] = i # [Suc i..<Suc (Suc i + m)]"
      unfolding Suc by (subst upt_conv_Cons) simp_all
    with nh ih Suc show ?thesis by simp
  qed
qed

lemma getLayerRenderer_hit:
  "layerRenderers mr (getUid_layer layer) = Some r \<Longrightarrow>
     getLayerRenderer ps layer mr = Inr (r, mr)"
  by (simp add: getLayerRenderer_def)

lemma getLayerRenderer_table:
  "getLayerRenderer ps layer mr = Inr (r, mr') \<Longrightarrow>
     layerRenderers mr' = (layerRenderers mr)(getUid_layer layer \<mapsto> r)"
  by (auto simp: getLayerRenderer_def Let_def map_upd_triv split: option.splits prod.splits)

lemma getLayerRenderer_stores:
  "getLayerRenderer ps layer mr = Inr (r, mr') \<Longrightarrow>
     layerRenderers mr' (getUid_layer layer) = Some r"
  using getLayerRenderer_table [of ps layer mr r mr'] by simp

lemma getLayerRenderer_mono:
  "getLayerRenderer ps layer mr = Inr (r, mr') \<Longrightarrow> layerRenderers mr k = Some x \<Longrightarrow>
     layerRenderers mr' k = Some x"
  by (auto simp: getLayerRenderer_def Let_def split: option.splits prod.splits)

lemma getLayerRenderer_miss_none:
  assumes "layerRenderers mr (getUid_layer layer) = None"
    and "\<forall>p \<in> set ps. \<not> handles p (mr_type mr) layer"
  shows "getLayerRenderer ps layer mr =
           Inl (Error (''Unable to create renderer for layer: '' @ ly_type layer))"
  using assms scanPlugins_none [of ps mr layer 0]
  by (simp add: getLayerRenderer_def)

lemma getLayerRenderer_miss_first:
  assumes "layerRenderers mr (getUid_layer layer) = None"
    and "n < length ps" and "handles (ps ! n) (mr_type mr) layer"
    and "\<forall>j < n. \<not> handles (ps ! j) (mr_type mr) layer"
    and "create (ps ! n) mr layer = Some k"
  shows "getLayerRenderer ps layer mr =
     Inr (\<lparr>lr_id = mr_nextObj mr, lr_impl = k\<rparr>,
          mr\<lparr>layerRenderers := (layerRenderers mr)(getUid_layer layer \<mapsto>
                 \<lparr>lr_id = mr_nextObj mr, lr_impl = k\<rparr>),
             layerRendererListeners :=
                 (layerRendererListeners mr)(getUid_layer layer \<mapsto> mr_nextObj mr),
             mr_nextObj := Suc (mr_nextObj mr),
             mr_log := mr_log mr @ ReadRegistry # map Handles [0..<Suc n] @ [Create n]\<rparr>)"
  using assms(1) assms(5) scanPlugins_first [OF assms(2) assms(3) assms(4), of 0]
  by (simp add: getLayerRenderer_def Let_def)

lemma getLayerRenderer_miss_falsy:
  assumes "layerRenderers mr (getUid_layer layer) = None"
    and "n < length ps" and "handles (ps ! n) (mr_type mr) layer"
    and "\<forall>j < n. \<not> handles (ps ! j) (mr_type mr) layer"
    and "create (ps ! n) mr layer = None"
  shows "getLayerRenderer ps layer mr =
           Inl (Error (''Unable to create renderer for layer: '' @ ly_type layer))"
  using assms(1) assms(5) scanPlugins_first [OF assms(2) assms(3) assms(4), of 0]
  by (simp add: getLayerRenderer_def Let_def)

text \<open>
  Claim C5: \<open>getLayerRenderer(layer)\<close> is memoized by the layer's uid. When a call returns
  a renderer, a second call with the same layer returns that same renderer and leaves the
  state as it is, the record of registry accesses included: the registry is not read
  again. The table of renderers after the call is the table before it with the renderer
  entered under the layer's key, so the renderers of the other layers stay; and after a
  call for any other layer in between, the call for the first layer still returns the same
  renderer and leaves the state as it is. On a miss the plugins are scanned in order and
  the renderer is the one created by the first plugin whose \<open>handles\<close> accepts the renderer
  type and the layer; it is stored under the layer's key. On a miss with no plugin
  accepting, the call throws \<open>Unable to create renderer for layer: <type>\<close> instead of
  returning; so it does when \<open>create\<close> of the first accepting plugin returns no renderer but
  a falsy value.
\<close>

theorem getLayerRenderer_memoized:
  "(getLayerRenderer ps layer mr = Inr (r, mr') \<longrightarrow>
      getLayerRenderer ps layer mr' = Inr (r, mr') \<and>
      layerRenderers mr' = (layerRenderers mr)(getUid_layer layer \<mapsto> r) \<and>
      (\<forall>layer2 r2 mr2. getLayerRenderer ps layer2 mr' = Inr (r2, mr2) \<longrightarrow>
         getLayerRenderer ps layer mr2 = Inr (r, mr2))) \<and>
   (layerRenderers mr (getUid_layer layer) = Some r0 \<longrightarrow>
      getLayerRenderer ps layer mr = Inr (r0, mr)) \<and>
   (layerRenderers mr (getUid_layer layer) = None \<and> n < length ps \<and>
    handles (ps ! n) (mr_type mr) layer \<and> (\<forall>j < n. \<not> handles (ps ! j) (mr_type mr) layer) \<and>
    create (ps ! n) mr layer = Some k \<longrightarrow>
      (\<exists>mr1. getLayerRenderer ps layer mr =
                Inr (\<lparr>lr_id = mr_nextObj mr, lr_impl = k\<rparr>, mr1) \<and>
              layerRenderers mr1 =
                (layerRenderers mr)(getUid_layer layer \<mapsto> \<lparr>lr_id = mr_nextObj mr, lr_impl = k\<rparr>) \<and>
              mr_log mr1 = mr_log mr @ ReadRegistry # map Handles [0..<Suc n] @ [Create n])) \<and>
   (layerRenderers mr (getUid_layer layer) = None \<and> n < length ps \<and>
    handles (ps ! n) (mr_type mr) layer \<and> (\<forall>j < n. \<not> handles (ps ! j) (mr_type mr) layer) \<and>
    create (ps ! n) mr layer = None \<longrightarrow>
      getLayerRenderer ps layer mr =
        Inl (Error (''Unable to create renderer for layer: '' @ ly_type layer))) \<and>
   (layerRenderers mr (getUid_layer layer) = None \<and>
    (\<forall>p \<in> set ps. \<not> handles p (mr_type mr) layer) \<longrightarrow>
      getLayerRenderer ps layer mr =
        Inl (Error (''Unable to create renderer for layer: '' @ ly_type layer)))"
proof (intro conjI impI allI)
  assume a: "getLayerRenderer ps layer mr = Inr (r, mr')"
  from getLayerRenderer_stores [OF a] show "getLayerRenderer ps layer mr' = Inr (r, mr')"
    by (rule getLayerRenderer_hit)
next
  assume a: "getLayerRenderer ps layer mr = Inr (r, mr')"
  then show "layerRenderers mr' = (layerRenderers mr)(getUid_layer layer \<mapsto> r)"
    by (rule getLayerRenderer_table)
next
  fix layer2 r2 mr2
  assume a: "getLayerRenderer ps layer mr = Inr (r, mr')"
    and b: "getLayerRenderer ps layer2 mr' = Inr (r2, mr2)"
  from getLayerRenderer_mono [OF b getLayerRenderer_stores [OF a]]
  show "getLayerRenderer ps layer mr2 = Inr (r, mr2)" by (rule getLayerRenderer_hit)
next
  assume "layerRenderers mr (getUid_layer layer) = Some r0"
  then show "getLayerRenderer ps layer mr = Inr (r0, mr)" by (rule getLayerRenderer_hit)
next
  assume a: "layerRenderers mr (getUid_layer layer) = None \<and> n < length ps \<and>
    handles (ps ! n) (mr_type mr) layer \<and> (\<forall>j < n. \<not> handles (ps ! j) (mr_type mr) layer) \<and>
    create (ps ! n) mr layer = Some k"
  then have "getLayerRenderer ps layer mr =
     Inr (\<lparr>lr_id = mr_nextObj mr, lr_impl = k\<rparr>,
          mr\<lparr>layerRenderers := (layerRenderers mr)(getUid_layer layer \<mapsto>
                 \<lparr>lr_id = mr_nextObj mr, lr_impl = k\<rparr>),
             layerRendererListeners :=
                 (layerRendererListeners mr)(getUid_layer layer \<mapsto> mr_nextObj mr),
             mr_nextObj := Suc (mr_nextObj mr),
             mr_log := mr_log mr @ ReadRegistry # map Handles [0..<Suc n] @ [Create n]\<rparr>)"
    using getLayerRenderer_miss_first [of mr layer n ps k] by blast
  then show "\<exists>mr1. getLayerRenderer ps layer mr =
                Inr (\<lparr>lr_id = mr_nextObj mr, lr_impl = k\<rparr>, mr1) \<and>
              layerRenderers mr1 =
                (layerRenderers mr)(getUid_layer layer \<mapsto> \<lparr>lr_id = mr_nextObj mr, lr_impl = k\<rparr>) \<and>
              mr_log mr1 = mr_log mr @ ReadRegistry # map Handles [0..<Suc n] @ [Create n]"
    by simp
next
  assume "layerRenderers mr (getUid_layer layer) = None \<and> n < length ps \<and>
    handles (ps ! n) (mr_type mr) layer \<and> (\<forall>j < n. \<not> handles (ps ! j) (mr_type mr) layer) \<and>
    create (ps ! n) mr layer = None"
  then show "getLayerRenderer ps layer mr =
        Inl (Error (''Unable to create renderer for layer: '' @ ly_type layer))"
    using getLayerRenderer_miss_falsy [of mr layer n ps] by blast
next
  assume "layerRenderers mr (getUid_layer layer) = None \<and>
    (\<forall>p \<in> set ps. \<not> handles p (mr_type mr) layer)"
  then show "getLayerRenderer ps layer mr =
        Inl (Error (''Unable to create renderer for layer: '' @ ly_type layer))"
    using getLayerRenderer_miss_none [of mr layer ps] by blast
qed

theorem getLayerRenderer_memoized_witness:
  "getLayerRenderer demo_plugins demo_layer demo_mr =
     Inr (\<lparr>lr_id = 0, lr_impl = ''vectortile''\<rparr>, demo_mr1) \<and>
   getLayerRenderer demo_plugins demo_layer demo_mr1 =
     Inr (\<lparr>lr_id = 0, lr_impl = ''vectortile''\<rparr>, demo_mr1) \<and>
   mr_log demo_mr1 = [ReadRegistry, Handles 0, Handles 1, Create 1] \<and>
   getLayerRenderer demo_plugins demo_layer2 demo_mr1 =
     Inr (\<lparr>lr_id = 1, lr_impl = ''image''\<rparr>, demo_mr2) \<and>
   getLayerRenderer demo_plugins demo_layer demo_mr2 =
     Inr (\<lparr>lr_id = 0, lr_impl = ''vectortile''\<rparr>, demo_mr2) \<and>
   getLayerRenderer (take 1 demo_plugins) demo_layer demo_mr =
     Inl (Error ''Unable to create renderer for layer: VECTOR_TILE'') \<and>
   getLayerRenderer demo_plugins_null demo_layer demo_mr =
     Inl (Error ''Unable to create renderer for layer: VECTOR_TILE'')"
proof -
  have miss1: "layerRenderers demo_mr (getUid_layer demo_layer) = None \<and>
      1 < length demo_plugins \<and> handles (demo_plugins ! 1) (mr_type demo_mr) demo_layer \<and>
      (\<forall>j < 1. \<not> handles (demo_plugins ! j) (mr_type demo_mr) demo_layer) \<and>
      create (demo_plugins ! 1) demo_mr demo_layer = Some ''vectortile''"
    by (simp add: demo_plugins_def demo_layer_def demo_mr_def getUid_layer_def)
  have first: "getLayerRenderer demo_plugins demo_layer demo_mr =
      Inr (\<lparr>lr_id = 0, lr_impl = ''vectortile''\<rparr>, demo_mr1)"
  proof -
    from getLayerRenderer_memoized [where ps = demo_plugins and layer = demo_layer
        and mr = demo_mr and n = 1 and k = "''vectortile''",
        THEN conjunct2, THEN conjunct2, THEN conjunct1] miss1
    obtain mr1 where "getLayerRenderer demo_plugins demo_layer demo_mr =
        Inr (\<lparr>lr_id = mr_nextObj demo_mr, lr_impl = ''vectortile''\<rparr>, mr1)"
      by blast
    moreover have "getLayerRenderer demo_plugins demo_layer demo_mr =
        Inr (\<lparr>lr_id = 0, lr_impl = ''vectortile''\<rparr>, demo_mr1)"
      by (simp add: getLayerRenderer_def demo_plugins_def demo_layer_def demo_mr_def
          demo_mr1_def getUid_layer_def Let_def)
    ultimately show ?thesis by simp
  qed
  have next2: "getLayerRenderer demo_plugins demo_layer2 demo_mr1 =
      Inr (\<lparr>lr_id = 1, lr_impl = ''image''\<rparr>, demo_mr2)"
    by (simp add: getLayerRenderer_def demo_plugins_def demo_layer2_def demo_mr1_def
        demo_mr2_def getUid_layer_def Let_def fun_upd_twist)
  note m = getLayerRenderer_memoized [of demo_plugins demo_layer demo_mr
        "\<lparr>lr_id = 0, lr_impl = ''vectortile''\<rparr>" demo_mr1, THEN conjunct1]
  have second: "getLayerRenderer demo_plugins demo_layer demo_mr1 =
      Inr (\<lparr>lr_id = 0, lr_impl = ''vectortile''\<rparr>, demo_mr1)"
    using m first by blast
  have again: "getLayerRenderer demo_plugins demo_layer demo_mr2 =
      Inr (\<lparr>lr_id = 0, lr_impl = ''vectortile''\<rparr>, demo_mr2)"
    using m first next2 by blast
  have miss: "layerRenderers demo_mr (getUid_layer demo_layer) = None \<and>
      (\<forall>p \<in> set (take 1 demo_plugins). \<not> handles p (mr_type demo_mr) demo_layer)"
    by (simp add: demo_plugins_def demo_layer_def demo_mr_def getUid_layer_def)
  have third: "getLayerRenderer (take 1 demo_plugins) demo_layer demo_mr =
      Inl (Error (''Unable to create renderer for layer: '' @ ly_type demo_layer))"
    using getLayerRenderer_memoized [of "take 1 demo_plugins" demo_layer demo_mr] miss
    by blast
  have falsy: "layerRenderers demo_mr (getUid_layer demo_layer) = None \<and>
      0 < length demo_plugins_null \<and>
      handles (demo_plugins_null ! 0) (mr_type demo_mr) demo_layer \<and>
      (\<forall>j < 0. \<not> handles (demo_plugins_null ! j) (mr_type demo_mr) demo_layer) \<and>
      create (demo_plugins_null ! 0) demo_mr demo_layer = None"
    by (simp add: demo_plugins_null_def demo_layer_def demo_mr_def getUid_layer_def)
  have fourth: "getLayerRenderer demo_plugins_null demo_layer demo_mr =
      Inl (Error (''Unable to create renderer for layer: '' @ ly_type demo_layer))"
    using getLayerRenderer_memoized [where ps = demo_plugins_null and layer = demo_layer
        and mr = demo_mr and n = 0,
        THEN conjunct2, THEN conjunct2, THEN conjunct2, THEN conjunct1] falsy
    by blast
  have log: "mr_log demo_mr1 = [ReadRegistry, Handles 0, Handles 1, Create 1]"
    by (simp add: demo_mr1_def)
  from first second next2 again third fourth log show ?thesis by (simp add: demo_layer_def)
qed

subsection \<open>Hit detection across the layers\<close>

lemma layersLoop_mono:
  "layersLoop env c fs tol cb xs result hits mr = Inr (v, hits', mr') \<Longrightarrow>
   layerRenderers mr k = Some x \<Longrightarrow> layerRenderers mr' k = Some x"
proof (induction xs arbitrary: result hits mr)
  case Nil
  then show ?case by simp
next
  case (Cons ls rest)
  show ?case
  proof (cases "me_visibleAtResolution env ls (vs_resolution (fs_viewState fs)) \<and>
                me_layerFilter env (ls_layer ls)")
    case False
    with Cons.prems(1) have "layersLoop env c fs tol cb rest result hits mr = Inr (v, hits', mr')"
      by (auto simp: Let_def)
    from Cons.IH [OF this Cons.prems(2)] show ?thesis .
  next
    case True
    show ?thesis
    proof (cases "getLayerRenderer (me_plugins env) (ls_layer ls) mr")
      case (Inl e)
      with True Cons.prems(1) show ?thesis by (simp add: Let_def)
    next
      case (Inr p)
      obtain lr mr1 where p: "p = (lr, mr1)" by (cases p)
      have k1: "layerRenderers mr1 k = Some x"
        using getLayerRenderer_mono Inr p Cons.prems(2) by fastforce
      show ?thesis
      proof (cases "ly_source (ls_layer ls)")
        case None
        with True Inr p Cons.prems(1) k1 Cons.IH [of result hits mr1] show ?thesis
          by (auto simp: Let_def split: if_splits)
      next
        case (Some s)
        with True Inr p Cons.prems(1) k1 Cons.IH show ?thesis
          by (auto simp: Let_def split: if_splits sum.splits)
      qed
    qed
  qed
qed

lemma layersLoop_char:
  assumes "layersLoop env c fs tol cb xs result hits mr = Inr (v, hits', mr')"
    and "\<not> truthy result"
  shows "\<exists>new. hits' = hits @ new \<and>
     prefix (map hitKey new) (map (expectedHit fs c) (filter (hitTested env fs) xs)) \<and>
     (\<forall>h \<in> set (butlast new). \<not> truthy (hitResult h)) \<and>
     (\<forall>h \<in> set new. \<exists>lr. layerRenderers mr' (fst h) = Some lr \<and>
         me_hit env lr (fst (snd h)) fs tol (wrappedCallback fs cb) = Inr (hitResult h)) \<and>
     (if truthy v then new \<noteq> [] \<and> v = hitResult (last new)
      else v = JUndefined \<and> (\<forall>h \<in> set new. \<not> truthy (hitResult h)) \<and>
           map hitKey new = map (expectedHit fs c) (filter (hitTested env fs) xs))"
  using assms
proof (induction xs arbitrary: result hits mr)
  case Nil
  then show ?case by simp
next
  case (Cons ls rest)
  show ?case
  proof (cases "me_visibleAtResolution env ls (vs_resolution (fs_viewState fs)) \<and>
                me_layerFilter env (ls_layer ls)")
    case False
    with Cons.prems(1) have rec: "layersLoop env c fs tol cb rest result hits mr = Inr (v, hits', mr')"
      by (auto simp: Let_def)
    have f: "filter (hitTested env fs) (ls # rest) = filter (hitTested env fs) rest"
      using False by (auto simp: hitTested_def)
    show ?thesis unfolding f by (rule Cons.IH [OF rec Cons.prems(2)])
  next
    case True
    show ?thesis
    proof (cases "getLayerRenderer (me_plugins env) (ls_layer ls) mr")
      case (Inl e)
      with True Cons.prems(1) show ?thesis by (simp add: Let_def)
    next
      case (Inr p)
      obtain lr mr1 where p: "p = (lr, mr1)" by (cases p)
      have stored: "layerRenderers mr1 (getUid_layer (ls_layer ls)) = Some lr"
        using getLayerRenderer_stores Inr p by fastforce
      show ?thesis
      proof (cases "ly_source (ls_layer ls)")
        case None
        with True Inr p Cons.prems have
          rec: "layersLoop env c fs tol cb rest result hits mr1 = Inr (v, hits', mr')"
          by (simp add: Let_def)
        have f: "filter (hitTested env fs) (ls # rest) = filter (hitTested env fs) rest"
          using None by (simp add: hitTested_def)
        show ?thesis unfolding f by (rule Cons.IH [OF rec Cons.prems(2)])
      next
        case (Some s)
        define c' where "c' = coordinateFor fs c (ls_layer ls)"
        have c'_eq: "(if src_wrapX s then translatedCoordinate (vs_projection (fs_viewState fs)) c else c) = c'"
          by (simp add: c'_def coordinateFor_def Some)
        have ht: "hitTested env fs ls" using True Some by (simp add: hitTested_def)
        show ?thesis
        proof (cases "me_hit env lr c' fs tol (wrappedCallback fs cb)")
          case (Inl e)
          with True Inr p Some c'_eq Cons.prems(1) show ?thesis by (simp add: Let_def)
        next
          case r: (Inr r')
          define h where "h = (getUid_layer (ls_layer ls), c', r')"
          have hk: "hitKey h = expectedHit fs c ls"
            by (simp add: h_def hitKey_def expectedHit_def c'_def)
          show ?thesis
          proof (cases "truthy r'")
            case True': True
            with True Inr p Some c'_eq r Cons.prems(1)
            have "v = r'" "hits' = hits @ [h]" "mr' = mr1"
              by (auto simp: Let_def h_def)
            with True' stored r ht hk show ?thesis
              by (intro exI [of _ "[h]"]) (simp add: hitResult_def h_def)
          next
            case False
            with True Inr p Some c'_eq r Cons.prems(1)
            have rec: "layersLoop env c fs tol cb rest r' (hits @ [h]) mr1 = Inr (v, hits', mr')"
              by (simp add: Let_def h_def)
            from Cons.IH [OF rec False] obtain new where
              n1: "hits' = (hits @ [h]) @ new" and
              n2: "prefix (map hitKey new) (map (expectedHit fs c) (filter (hitTested env fs) rest))" and
              n3: "\<forall>h \<in> set (butlast new). \<not> truthy (hitResult h)" and
              n4: "\<forall>h \<in> set new. \<exists>lr. layerRenderers mr' (fst h) = Some lr \<and>
                 me_hit env lr (fst (snd h)) fs tol (wrappedCallback fs cb) = Inr (hitResult h)" and
              n5: "(if truthy v then new \<noteq> [] \<and> v = hitResult (last new)
                    else v = JUndefined \<and> (\<forall>h \<in> set new. \<not> truthy (hitResult h)) \<and>
                     map hitKey new = map (expectedHit fs c) (filter (hitTested env fs) rest))"
              by blast
            have st': "layerRenderers mr' (getUid_layer (ls_layer ls)) = Some lr"
              using layersLoop_mono [OF rec stored] .
            have hf: "\<not> truthy (hitResult h)" using False by (simp add: hitResult_def h_def)
            have b: "\<forall>x \<in> set (butlast (h # new)). \<not> truthy (hitResult x)"
              using n3 hf by (cases new) auto
            have hh: "\<exists>lr. layerRenderers mr' (fst h) = Some lr \<and>
                 me_hit env lr (fst (snd h)) fs tol (wrappedCallback fs cb) = Inr (hitResult h)"
              using st' r by (simp add: h_def hitResult_def)
            show ?thesis
              using n1 n2 n4 n5 b hh hf ht hk
              by (intro exI [of _ "h # new"]) (auto split: if_splits)
          qed
        qed
      qed
    qed
  qed
qed

lemma translated_in_extent:
  assumes "pj_canWrapX p" and e: "pj_extent p = (minX, minY, maxX, maxY)" and w: "minX < maxX"
  shows "translatedCoordinate p c = (fst c + getWidth (pj_extent p) * of_int (if fst c < minX \<or> fst c > maxX then worldsAway p c else 0), snd c) \<and>
     minX \<le> fst (translatedCoordinate p c) \<and> fst (translatedCoordinate p c) \<le> maxX"
proof (cases "fst c < minX \<or> fst c > maxX")
  case False
  with assms show ?thesis by (simp add: translatedCoordinate_def Let_def)
next
  case True
  define wd where "wd = maxX - minX"
  define t where "t = (minX - fst c) / wd"
  have wd: "0 < wd" using w by (simp add: wd_def)
  have gw: "getWidth (pj_extent p) = wd" by (simp add: getWidth_def e wd_def)
  have wa: "worldsAway p c = \<lceil>t\<rceil>" unfolding worldsAway_def gw t_def by (simp add: e)
  have tw: "t * wd = minX - fst c" using wd by (simp add: t_def)
  define q where "q = wd * of_int \<lceil>t\<rceil>"
  have mx: "maxX = minX + wd" by (simp add: wd_def)
  have "t \<le> of_int \<lceil>t\<rceil>" by (rule le_of_int_ceiling)
  then have "wd * t \<le> q" unfolding q_def using wd by (simp add: mult_left_mono)
  then have lo: "minX \<le> fst c + q" using tw by (simp add: mult.commute)
  have "of_int \<lceil>t\<rceil> < t + 1" by linarith
  then have "q < wd * (t + 1)" unfolding q_def using wd by (simp add: mult_strict_left_mono)
  then have "q < wd * t + wd" by (simp add: distrib_left)
  then have hi: "fst c + q < maxX" using tw mx by (simp add: mult.commute)
  have tc: "translatedCoordinate p c = (fst c + q, snd c)" unfolding q_def
    using True assms(1) unfolding translatedCoordinate_def Let_def gw wa by (simp add: e)
  show ?thesis using True lo hi by (simp add: tc gw wa q_def)
qed

lemma ceiling_demo: "\<lceil>- (37 / 36 :: rat)\<rceil> = -1"
  by (rule ceiling_unique) simp_all
lemma translatedCoordinate_demo: "translatedCoordinate \<lparr>pj_canWrapX = True, pj_extent = (-180, -90, 180, 90)\<rparr> (190, 0) = (-170, 0)"
  by (simp add: translatedCoordinate_def worldsAway_def getWidth_def Let_def ceiling_demo)

lemma cex_search_run: "forEachFeatureAtCoordinate_map cex_env (190, 0) cex_fs 0 cex_callback cex_mr = Inr (JObj 100, cex_hits, cex_mr_final)"
  by (simp add: forEachFeatureAtCoordinate_map_def cex_env_def cex_fs_def cex_state_def cex_layer0_def cex_layer1_def
     cex_callback_def cex_mr_def cex_hits_def cex_mr_final_def getLayerRenderer_def getUid_layer_def getUid_def
     wrappedCallback_def Let_def translatedCoordinate_demo)


text \<open>
  Claim C3, as the spec states it, has the search return the first result that is not
  \<open>undefined\<close>, without consulting a lower layer. In the concrete search the upper layer's
  hit test returns \<open>false\<close>; the code goes on to the lower layer and returns its result.
\<close>

theorem forEachFeatureAtCoordinate_map_counterexample:
  "forEachFeatureAtCoordinate_map cex_env (190, 0) cex_fs 0 cex_callback cex_mr =
     Inr (JObj 100, cex_hits, cex_mr_final) \<and>
   map hitResult cex_hits = [JBool False, JObj 100] \<and>
   firstNonUndefined (map hitResult cex_hits) = JBool False \<and>
   JObj 100 \<noteq> firstNonUndefined (map hitResult cex_hits)"
proof -
  have "forEachFeatureAtCoordinate_map cex_env (190, 0) cex_fs 0 cex_callback cex_mr =
     Inr (JObj 100, cex_hits, cex_mr_final)"
    by (simp add: forEachFeatureAtCoordinate_map_def cex_env_def cex_fs_def cex_state_def
        cex_layer0_def cex_layer1_def cex_callback_def cex_mr_def cex_hits_def cex_mr_final_def
        getLayerRenderer_def getUid_layer_def getUid_def wrappedCallback_def Let_def
        translatedCoordinate_demo)
  then show ?thesis by (simp add: cex_hits_def hitResult_def)
qed

text \<open>
  Claim C3, amended: when \<open>forEachFeatureAtCoordinate\<close> of the map renderer returns, the
  hit tests it performed are, in order, those of an initial part of the layer states
  taken in reverse index order and restricted to the layers that are visible at the view
  resolution, accepted by the layer filter and have a source; each such layer is given the
  translated coordinate if its source wraps x and the original coordinate otherwise, and
  the hit test is that of the layer's renderer (the one stored for the layer). Every hit
  test before the last returned a falsy result. If the returned value is truthy it is the
  result of the last hit test performed (the first truthy result; no lower layer was
  consulted); otherwise the returned value is \<open>undefined\<close>, every layer of the restricted
  list was hit-tested and every result was falsy. The translated coordinate is the
  coordinate moved in x by an integer number of world widths: when the projection wraps x
  and has positive width it lies within the projection extent, and it is moved only when
  the coordinate's x lies outside that extent; when the projection does not wrap x it is
  the coordinate itself.
\<close>

theorem forEachFeatureAtCoordinate_map_first_truthy:
  assumes run: "forEachFeatureAtCoordinate_map env c fs tol cb mr = Inr (v, hits, mr')"
  shows "prefix (map hitKey hits)
           (map (expectedHit fs c) (filter (hitTested env fs) (rev (fs_layerStatesArray fs)))) \<and>
     (\<forall>h \<in> set (butlast hits). \<not> truthy (hitResult h)) \<and>
     (\<forall>h \<in> set hits. \<exists>lr. layerRenderers mr' (fst h) = Some lr \<and>
         me_hit env lr (fst (snd h)) fs tol (wrappedCallback fs cb) = Inr (hitResult h)) \<and>
     (if truthy v then hits \<noteq> [] \<and> v = hitResult (last hits)
      else v = JUndefined \<and> (\<forall>h \<in> set hits. \<not> truthy (hitResult h)) \<and>
           map hitKey hits =
             map (expectedHit fs c) (filter (hitTested env fs) (rev (fs_layerStatesArray fs)))) \<and>
     (\<forall>minX minY maxX maxY.
        pj_canWrapX (vs_projection (fs_viewState fs)) \<and>
        pj_extent (vs_projection (fs_viewState fs)) = (minX, minY, maxX, maxY) \<and> minX < maxX \<longrightarrow>
          translatedCoordinate (vs_projection (fs_viewState fs)) c =
            (fst c + getWidth (pj_extent (vs_projection (fs_viewState fs))) *
               of_int (if fst c < minX \<or> fst c > maxX
                       then worldsAway (vs_projection (fs_viewState fs)) c else 0), snd c) \<and>
          minX \<le> fst (translatedCoordinate (vs_projection (fs_viewState fs)) c) \<and>
          fst (translatedCoordinate (vs_projection (fs_viewState fs)) c) \<le> maxX) \<and>
     (\<not> pj_canWrapX (vs_projection (fs_viewState fs)) \<longrightarrow>
        translatedCoordinate (vs_projection (fs_viewState fs)) c = c)"
proof -
  have f: "\<not> truthy JUndefined" by simp
  from run have "layersLoop env c fs tol cb (rev (fs_layerStatesArray fs)) JUndefined [] mr =
      Inr (v, hits, mr')"
    by (simp add: forEachFeatureAtCoordinate_map_def)
  from layersLoop_char [OF this f] have search:
    "prefix (map hitKey hits)
           (map (expectedHit fs c) (filter (hitTested env fs) (rev (fs_layerStatesArray fs)))) \<and>
     (\<forall>h \<in> set (butlast hits). \<not> truthy (hitResult h)) \<and>
     (\<forall>h \<in> set hits. \<exists>lr. layerRenderers mr' (fst h) = Some lr \<and>
         me_hit env lr (fst (snd h)) fs tol (wrappedCallback fs cb) = Inr (hitResult h)) \<and>
     (if truthy v then hits \<noteq> [] \<and> v = hitResult (last hits)
      else v = JUndefined \<and> (\<forall>h \<in> set hits. \<not> truthy (hitResult h)) \<and>
           map hitKey hits =
             map (expectedHit fs c) (filter (hitTested env fs) (rev (fs_layerStatesArray fs))))"
    by simp
  have nowrap: "\<not> pj_canWrapX (vs_projection (fs_viewState fs)) \<longrightarrow>
        translatedCoordinate (vs_projection (fs_viewState fs)) c = c"
    by (simp add: translatedCoordinate_def)
  from search translated_in_extent [of "vs_projection (fs_viewState fs)" _ _ _ _ c] nowrap
  show ?thesis by blast
qed

theorem forEachFeatureAtCoordinate_map_first_truthy_witness:
  "prefix (map hitKey cex_hits)
     (map (expectedHit cex_fs (190, 0))
        (filter (hitTested cex_env cex_fs) (rev (fs_layerStatesArray cex_fs)))) \<and>
   JObj 100 = hitResult (last cex_hits) \<and>
   translatedCoordinate (vs_projection (fs_viewState cex_fs)) (190, 0) = (-170, 0) \<and>
   - 180 \<le> fst (translatedCoordinate (vs_projection (fs_viewState cex_fs)) (190, 0))"
proof -
  have p: "pj_canWrapX (vs_projection (fs_viewState cex_fs)) \<and>
      pj_extent (vs_projection (fs_viewState cex_fs)) = (-180, -90, 180, 90) \<and>
      (-180 :: rat) < 180"
    by (simp add: cex_fs_def)
  from forEachFeatureAtCoordinate_map_first_truthy [OF cex_search_run] p
  have "prefix (map hitKey cex_hits)
     (map (expectedHit cex_fs (190, 0))
        (filter (hitTested cex_env cex_fs) (rev (fs_layerStatesArray cex_fs))))"
    and "JObj 100 = hitResult (last cex_hits)"
    and "- 180 \<le> fst (translatedCoordinate (vs_projection (fs_viewState cex_fs)) (190, 0))"
    by (simp, simp, blast)
  then show ?thesis by (simp add: cex_fs_def translatedCoordinate_demo)
qed

subsection \<open>Expiring the tile cache\<close>

lemma expireCache_closed_form:
  "0 \<le> highWaterMark c \<Longrightarrow>
     expireCache usedTiles c =
       Inr (c\<lparr>tc_entries := drop (evictCount usedTiles c) (tc_entries c),
              tc_disposed := tc_disposed c @
                map (dispose \<circ> snd) (take (evictCount usedTiles c) (tc_entries c))\<rparr>)"
proof (induction usedTiles c rule: expireCache.induct)
  case (1 usedTiles c)
  show ?case
  proof (cases "canExpireCache c")
    case False
    then have "evictCount usedTiles c = 0"
      by (simp add: canExpireCache_def getCount_def evictCount_def)
    with False show ?thesis by (simp add: expireCache.simps [of usedTiles c])
  next
    case True
    then obtain k t rest where es: "tc_entries c = (k, t) # rest"
      using "1.prems" by (cases "tc_entries c") (auto simp: canExpireCache_def getCount_def)
    have pk: "peekLast c = Some t" by (simp add: peekLast_def es)
    have pp: "pop c = Some (t, c\<lparr>tc_entries := rest\<rparr>)" by (simp add: pop_def es)
    show ?thesis
    proof (cases "inUse usedTiles (k, t)")
      case used: True
      then have "evictCount usedTiles c = 0" by (simp add: evictCount_def es)
      moreover have u: "case usedTiles (fst (tl_tileCoord t)) of None \<Rightarrow> False
                  | Some tileRange \<Rightarrow> contains tileRange (tl_tileCoord t)"
        using used by (simp add: inUse_def split: option.splits)
      have "expireCache usedTiles c = Inr c"
        using True pk u by (simp add: expireCache.simps [of usedTiles c] Let_def)
      ultimately show ?thesis by simp
    next
      case unused: False
      define c1 where "c1 = c\<lparr>tc_entries := rest, tc_disposed := tc_disposed c @ [dispose t]\<rparr>"
      have u: "\<not> (case usedTiles (fst (tl_tileCoord t)) of None \<Rightarrow> False
                  | Some tileRange \<Rightarrow> contains tileRange (tl_tileCoord t))"
        using unused by (simp add: inUse_def split: option.splits)
      have step: "expireCache usedTiles c = expireCache usedTiles c1"
        using True pk pp u
        by (simp add: expireCache.simps [of usedTiles c] Let_def c1_def)
      have h1: "0 \<le> highWaterMark c1" using "1.prems" by (simp add: c1_def)
      have ih: "expireCache usedTiles c1 =
          Inr (c1\<lparr>tc_entries := drop (evictCount usedTiles c1) (tc_entries c1),
                 tc_disposed := tc_disposed c1 @
                   map (dispose \<circ> snd) (take (evictCount usedTiles c1) (tc_entries c1))\<rparr>)"
        using "1.IH" [OF True pk refl u pp refl] h1 by (simp add: c1_def)
      have ec: "evictCount usedTiles c = Suc (evictCount usedTiles c1)"
        using True unused
        by (auto simp: evictCount_def es c1_def canExpireCache_def getCount_def)
      show ?thesis unfolding step ih ec by (simp add: es c1_def)
    qed
  qed
qed

lemma expireCache_stop_full:
  "\<not> canExpireCache c \<Longrightarrow> expireCache usedTiles c = Inr c"
  by (simp add: expireCache.simps [of usedTiles c])

lemma expireCache_stop_used:
  "canExpireCache c \<Longrightarrow> peekLast c = Some t \<Longrightarrow>
   usedTiles (fst (tl_tileCoord t)) = Some tileRange \<Longrightarrow> contains tileRange (tl_tileCoord t) \<Longrightarrow>
     expireCache usedTiles c = Inr c"
  by (simp add: expireCache.simps [of usedTiles c] Let_def)

lemma expireCache_evict:
  "canExpireCache c \<Longrightarrow> pop c = Some (t, c') \<Longrightarrow>
   (usedTiles (fst (tl_tileCoord t)) = None \<or>
    (\<exists>tileRange. usedTiles (fst (tl_tileCoord t)) = Some tileRange \<and>
                  \<not> contains tileRange (tl_tileCoord t))) \<Longrightarrow>
     expireCache usedTiles c =
       expireCache usedTiles (c'\<lparr>tc_disposed := tc_disposed c' @ [dispose t]\<rparr>)"
  by (auto simp: expireCache.simps [of usedTiles c] Let_def pop_def peekLast_def
      split: list.splits)

lemma expireCache_post:
  assumes "0 \<le> highWaterMark c" and "expireCache usedTiles c = Inr c'"
  shows "\<not> canExpireCache c' \<or> (\<exists>e rest. tc_entries c' = e # rest \<and> inUse usedTiles e)"
proof -
  let ?P = "\<lambda>e. \<not> inUse usedTiles e"
  let ?n = "evictCount usedTiles c"
  have c': "c' = c\<lparr>tc_entries := drop ?n (tc_entries c),
              tc_disposed := tc_disposed c @ map (dispose \<circ> snd) (take ?n (tc_entries c))\<rparr>"
    using expireCache_closed_form [OF assms(1), of usedTiles] assms(2) by simp
  show ?thesis
  proof (cases "length (takeWhile ?P (tc_entries c)) <
                nat (int (length (tc_entries c)) - highWaterMark c)")
    case False
    then have "?n = nat (int (length (tc_entries c)) - highWaterMark c)"
      by (simp add: evictCount_def)
    then have "\<not> canExpireCache c'"
      using assms(1) by (simp add: c' canExpireCache_def getCount_def)
    then show ?thesis by simp
  next
    case True
    then have n: "?n = length (takeWhile ?P (tc_entries c))"
      by (simp add: evictCount_def)
    have d: "tc_entries c' = dropWhile ?P (tc_entries c)"
      by (simp add: c' n dropWhile_eq_drop)
    have lt: "length (takeWhile ?P (tc_entries c)) < length (tc_entries c)"
      using True assms(1) by linarith
    have ne: "dropWhile ?P (tc_entries c) \<noteq> []"
    proof
      assume "dropWhile ?P (tc_entries c) = []"
      then have "takeWhile ?P (tc_entries c) = tc_entries c"
        by (simp add: takeWhile_eq_all_conv)
      with lt show False by simp
    qed
    then obtain e rest where er: "dropWhile ?P (tc_entries c) = e # rest"
      by (cases "dropWhile ?P (tc_entries c)") auto
    then have "inUse usedTiles e"
      using hd_dropWhile [OF ne] by simp
    with er d show ?thesis by simp
  qed
qed

lemma cacheABC_entries:
  "cacheABC = \<lparr>highWaterMark = 2,
      tc_entries = [(''1/0/0'', tileA), (''1/1/0'', tileB), (''2/0/0'', tileC)],
      tc_disposed = []\<rparr>"
  by (simp add: cacheABC_def set_lru_def newTileCache_def)

lemma cacheABC_expire_empty:
  "expireCache Map.empty cacheABC =
     Inr \<lparr>highWaterMark = 2, tc_entries = [(''1/1/0'', tileB), (''2/0/0'', tileC)],
          tc_disposed = [tileA\<lparr>tl_disposed := True\<rparr>]\<rparr>"
proof -
  have e: "evictCount Map.empty cacheABC = 1"
    by (simp add: evictCount_def cacheABC_entries inUse_def)
  have h: "0 \<le> highWaterMark cacheABC" by (simp add: cacheABC_entries)
  show ?thesis
    unfolding expireCache_closed_form [OF h] e
    by (simp add: cacheABC_entries dispose_def)
qed

text \<open>
  Claim C8: \<open>expireCache(usedTiles)\<close> returns the cache as it is when the count is not above
  the high-water mark; while the count is above it, it examines the least recently used
  entry: if that tile's z level is a key of \<open>usedTiles\<close> and the tile range there contains
  the tile coordinate, eviction stops; otherwise the entry is popped, the tile disposed,
  and the loop goes on with the rest. With a high-water mark that is not negative the
  call returns, having evicted exactly the oldest entries not in use for as long as the
  count was above the mark, and afterwards the count is within the mark or the least
  recently used entry is in use. In the scenario (high-water mark 2; A, B, C set in
  that order; an empty used-set) A is disposed and B and C are retained.
\<close>

theorem expireCache_lru:
  "(\<not> canExpireCache c \<longrightarrow> expireCache usedTiles c = Inr c) \<and>
   (canExpireCache c \<and> peekLast c = Some t \<and>
    usedTiles (fst (tl_tileCoord t)) = Some tileRange \<and> contains tileRange (tl_tileCoord t) \<longrightarrow>
      expireCache usedTiles c = Inr c) \<and>
   (canExpireCache c \<and> pop c = Some (t, c') \<and>
    (usedTiles (fst (tl_tileCoord t)) = None \<or>
     (\<exists>r. usedTiles (fst (tl_tileCoord t)) = Some r \<and> \<not> contains r (tl_tileCoord t))) \<longrightarrow>
      expireCache usedTiles c =
        expireCache usedTiles (c'\<lparr>tc_disposed := tc_disposed c' @ [dispose t]\<rparr>)) \<and>
   (0 \<le> highWaterMark c \<longrightarrow>
      (\<exists>r. expireCache usedTiles c = Inr r \<and>
           tc_entries r = drop (evictCount usedTiles c) (tc_entries c) \<and>
           tc_disposed r = tc_disposed c @
             map (dispose \<circ> snd) (take (evictCount usedTiles c) (tc_entries c)) \<and>
           highWaterMark r = highWaterMark c \<and>
           (\<not> canExpireCache r \<or> (\<exists>e rest. tc_entries r = e # rest \<and> inUse usedTiles e)))) \<and>
   expireCache Map.empty cacheABC =
     Inr \<lparr>highWaterMark = 2, tc_entries = [(''1/1/0'', tileB), (''2/0/0'', tileC)],
          tc_disposed = [tileA\<lparr>tl_disposed := True\<rparr>]\<rparr>"
proof (intro conjI impI)
  assume "\<not> canExpireCache c"
  then show "expireCache usedTiles c = Inr c" by (rule expireCache_stop_full)
next
  assume "canExpireCache c \<and> peekLast c = Some t \<and>
    usedTiles (fst (tl_tileCoord t)) = Some tileRange \<and> contains tileRange (tl_tileCoord t)"
  then show "expireCache usedTiles c = Inr c" using expireCache_stop_used by blast
next
  assume "canExpireCache c \<and> pop c = Some (t, c') \<and>
    (usedTiles (fst (tl_tileCoord t)) = None \<or>
     (\<exists>r. usedTiles (fst (tl_tileCoord t)) = Some r \<and> \<not> contains r (tl_tileCoord t)))"
  then show "expireCache usedTiles c =
        expireCache usedTiles (c'\<lparr>tc_disposed := tc_disposed c' @ [dispose t]\<rparr>)"
    using expireCache_evict [of c t c' usedTiles] by blast
next
  assume h: "0 \<le> highWaterMark c"
  let ?r = "c\<lparr>tc_entries := drop (evictCount usedTiles c) (tc_entries c),
              tc_disposed := tc_disposed c @
                map (dispose \<circ> snd) (take (evictCount usedTiles c) (tc_entries c))\<rparr>"
  have r: "expireCache usedTiles c = Inr ?r" by (rule expireCache_closed_form [OF h])
  from expireCache_post [OF h r] r
  show "\<exists>r. expireCache usedTiles c = Inr r \<and>
           tc_entries r = drop (evictCount usedTiles c) (tc_entries c) \<and>
           tc_disposed r = tc_disposed c @
             map (dispose \<circ> snd) (take (evictCount usedTiles c) (tc_entries c)) \<and>
           highWaterMark r = highWaterMark c \<and>
           (\<not> canExpireCache r \<or> (\<exists>e rest. tc_entries r = e # rest \<and> inUse usedTiles e))"
    by (intro exI [of _ ?r]) simp
next
  show "expireCache Map.empty cacheABC =
     Inr \<lparr>highWaterMark = 2, tc_entries = [(''1/1/0'', tileB), (''2/0/0'', tileC)],
          tc_disposed = [tileA\<lparr>tl_disposed := True\<rparr>]\<rparr>"
    by (rule cacheABC_expire_empty)
qed

theorem expireCache_lru_witness:
  "expireCache usedA cacheABC = Inr cacheABC \<and>
   canExpireCache cacheABC \<and> peekLast cacheABC = Some tileA \<and>
   expireCache Map.empty cacheABC =
     Inr \<lparr>highWaterMark = 2, tc_entries = [(''1/1/0'', tileB), (''2/0/0'', tileC)],
          tc_disposed = [dispose tileA]\<rparr>"
proof -
  have a: "canExpireCache cacheABC \<and> peekLast cacheABC = Some tileA \<and>
      usedA (fst (tl_tileCoord tileA)) = Some \<lparr>tr_minX = 0, tr_maxX = 0, tr_minY = 0, tr_maxY = 0\<rparr> \<and>
      contains \<lparr>tr_minX = 0, tr_maxX = 0, tr_minY = 0, tr_maxY = 0\<rparr> (tl_tileCoord tileA)"
    by (simp add: cacheABC_entries canExpireCache_def getCount_def peekLast_def usedA_def
        tileA_def contains_def)
  have stop: "expireCache usedA cacheABC = Inr cacheABC"
    using expireCache_lru [of cacheABC usedA tileA
        "\<lparr>tr_minX = 0, tr_maxX = 0, tr_minY = 0, tr_maxY = 0\<rparr>"] a by blast
  have h: "0 \<le> highWaterMark cacheABC" by (simp add: cacheABC_entries)
  have e: "evictCount Map.empty cacheABC = 1"
    by (simp add: evictCount_def cacheABC_entries inUse_def)
  from expireCache_lru [of cacheABC Map.empty] h obtain r where
    r: "expireCache Map.empty cacheABC = Inr r"
      "tc_entries r = drop (evictCount Map.empty cacheABC) (tc_entries cacheABC)"
      "tc_disposed r = tc_disposed cacheABC @
         map (dispose \<circ> snd) (take (evictCount Map.empty cacheABC) (tc_entries cacheABC))"
      "highWaterMark r = highWaterMark cacheABC"
    by blast
  have "tc_entries r = [(''1/1/0'', tileB), (''2/0/0'', tileC)] \<and>
        tc_disposed r = [dispose tileA] \<and> highWaterMark r = 2"
    unfolding r(2) r(3) r(4) e by (simp add: cacheABC_entries)
  then have "r = \<lparr>highWaterMark = 2, tc_entries = [(''1/1/0'', tileB), (''2/0/0'', tileC)],
          tc_disposed = [dispose tileA]\<rparr>"
    by (cases r) simp
  with r(1) stop a show ?thesis by simp
qed

subsection \<open>Arrays copied by cloning\<close>

lemma slice_Some:
  "st_nums s a = Some xs \<Longrightarrow>
     slice (Some a) s = Inr (st_next s, s\<lparr>st_nums := (st_nums s)(st_next s \<mapsto> xs),
                                          st_next := Suc (st_next s)\<rparr>)"
  by (simp add: slice_def allocNums_def)

lemma sliceEach_props:
  assumes "storeOK s" and "\<forall>e \<in> set es. e \<in> dom (st_nums s)"
  shows "\<exists>s'. sliceEach es s = Inr ([st_next s..<st_next s + length es], s') \<and>
           st_next s' = st_next s + length es \<and> st_refs s' = st_refs s \<and>
           (\<forall>b. b < st_next s \<longrightarrow> st_nums s' b = st_nums s b) \<and>
           (\<forall>i < length es. st_nums s' (st_next s + i) = st_nums s (es ! i)) \<and>
           storeOK s'"
  using assms
proof (induction es arbitrary: s)
  case Nil
  then show ?case by simp
next
  case (Cons e es)
  from Cons.prems(2) obtain xs where xs: "st_nums s e = Some xs" by auto
  define s1 where "s1 = s\<lparr>st_nums := (st_nums s)(st_next s \<mapsto> xs), st_next := Suc (st_next s)\<rparr>"
  have sl: "slice (Some e) s = Inr (st_next s, s1)"
    unfolding s1_def by (rule slice_Some [OF xs])
  have ok1: "storeOK s1"
    using Cons.prems(1) by (auto simp: storeOK_def s1_def less_Suc_eq split: if_splits)
  have lt: "\<forall>e' \<in> set (e # es). e' < st_next s"
    using Cons.prems by (auto simp: storeOK_def)
  have dom1: "\<forall>e' \<in> set es. e' \<in> dom (st_nums s1)"
    using Cons.prems(2) by (auto simp: s1_def)
  from Cons.IH [OF ok1 dom1] obtain s' where
    r: "sliceEach es s1 = Inr ([st_next s1..<st_next s1 + length es], s')" and
    n: "st_next s' = st_next s1 + length es" and
    rf: "st_refs s' = st_refs s1" and
    old: "\<forall>b. b < st_next s1 \<longrightarrow> st_nums s' b = st_nums s1 b" and
    new: "\<forall>i < length es. st_nums s' (st_next s1 + i) = st_nums s1 (es ! i)" and
    ok: "storeOK s'"
    by blast
  have n1: "st_next s1 = Suc (st_next s)" by (simp add: s1_def)
  have upt: "[st_next s..<st_next s + length (e # es)] =
             st_next s # [Suc (st_next s)..<Suc (st_next s) + length es]"
    by (subst upt_conv_Cons) simp_all
  have res: "sliceEach (e # es) s = Inr ([st_next s..<st_next s + length (e # es)], s')"
    unfolding upt using sl r n1 by simp
  have old': "\<forall>b. b < st_next s \<longrightarrow> st_nums s' b = st_nums s b"
    using old n1 by (simp add: s1_def)
  have new': "\<forall>i < length (e # es). st_nums s' (st_next s + i) = st_nums s ((e # es) ! i)"
  proof (intro allI impI)
    fix i assume i: "i < length (e # es)"
    show "st_nums s' (st_next s + i) = st_nums s ((e # es) ! i)"
    proof (cases i)
      case 0
      then show ?thesis using old n1 xs by (simp add: s1_def)
    next
      case (Suc j)
      then have j: "j < length es" using i by simp
      have "es ! j < st_next s" using lt j by simp
      then have "st_nums s1 (es ! j) = st_nums s (es ! j)" by (simp add: s1_def)
      with new j Suc n1 show ?thesis by simp
    qed
  qed
  show ?case
    using res n n1 rf old' new' ok by (intro exI [of _ s']) (simp add: s1_def)
qed


lemma newMultiPolygon_null_eq:
  "newMultiPolygon_null E s =
     (\<lparr>revision = 1, g_extent = E, extentRevision = -1, layout = XY, stride = 2,
       flatCoordinates = None, endss = st_next s, flatInteriorPointsRevision = -1,
       flatInteriorPoints = None, mp_maxDelta = -1, mp_maxDeltaRevision = -1,
       orientedRevision = -1, orientedFlatCoordinates = None\<rparr>,
      s\<lparr>st_refs := (st_refs s)(st_next s \<mapsto> []), st_next := Suc (st_next s)\<rparr>)"
  by (simp add: newMultiPolygon_null_def allocRefs_def setFlatCoordinates_def
      setFlatCoordinatesInternal_def changed_def)

lemma clone_shape:
  assumes ok: "multiPolygonOK s g" and fc: "flatCoordinates g = Some a"
    and es: "st_refs s (endss g) = Some es"
  shows "\<exists>s'. clone E s g =
      Inr (\<lparr>revision = 2, g_extent = E, extentRevision = -1, layout = layout g,
            stride = getStrideForLayout (layout g),
            flatCoordinates = Some (st_next s + 2 + length es), endss = Suc (st_next s),
            flatInteriorPointsRevision = -1, flatInteriorPoints = None, mp_maxDelta = -1,
            mp_maxDeltaRevision = -1, orientedRevision = -1,
            orientedFlatCoordinates = None\<rparr>, s') \<and>
     st_next s' = st_next s + 3 + length es \<and>
     (\<forall>b. b < st_next s \<longrightarrow> st_nums s' b = st_nums s b \<and> st_refs s' b = st_refs s b) \<and>
     st_refs s' (Suc (st_next s)) = Some [st_next s + 2..<st_next s + 2 + length es] \<and>
     (\<forall>i < length es. st_nums s' (st_next s + 2 + i) = st_nums s (es ! i)) \<and>
     st_nums s' (st_next s + 2 + length es) = st_nums s a \<and> storeOK s'"
proof -
  define n where "n = st_next s"
  from ok have sok: "storeOK s" by (simp add: multiPolygonOK_def)
  from ok fc obtain xs where xs: "st_nums s a = Some xs" by (auto simp: multiPolygonOK_def)
  from ok es have esdom: "\<forall>e \<in> set es. e \<in> dom (st_nums s)" by (auto simp: multiPolygonOK_def)
  have a_lt: "a < n" using sok xs by (auto simp: storeOK_def n_def)
  have e_lt: "endss g < n" using sok es by (auto simp: storeOK_def n_def)
  define s0 where "s0 = s\<lparr>st_refs := (st_refs s)(n \<mapsto> []), st_next := Suc n\<rparr>"
  define s1 where "s1 = s0\<lparr>st_refs := (st_refs s0)(Suc n \<mapsto> []), st_next := Suc (Suc n)\<rparr>"
  have ok1: "storeOK s1"
    using sok by (auto simp: storeOK_def s1_def s0_def n_def less_Suc_eq split: if_splits)
  have dom1: "\<forall>e \<in> set es. e \<in> dom (st_nums s1)"
    using esdom by (simp add: s1_def s0_def)
  have n1: "st_next s1 = n + 2" by (simp add: s1_def)
  from sliceEach_props [OF ok1 dom1] obtain s2 where
    r: "sliceEach es s1 = Inr ([n + 2..<n + 2 + length es], s2)" and
    n2: "st_next s2 = n + 2 + length es" and
    rf2: "st_refs s2 = st_refs s1" and
    old2: "\<forall>b. b < n + 2 \<longrightarrow> st_nums s2 b = st_nums s1 b" and
    new2: "\<forall>i < length es. st_nums s2 (n + 2 + i) = st_nums s1 (es ! i)" and
    ok2: "storeOK s2"
    unfolding n1 by blast
  define s2w where "s2w = writeRefs (Suc n) [n + 2..<n + 2 + length es] s2"
  have xs2: "st_nums s2w a = Some xs"
    using old2 a_lt xs by (simp add: s2w_def writeRefs_def s1_def s0_def)
  define s3 where "s3 = s2w\<lparr>st_nums := (st_nums s2w)(st_next s2w \<mapsto> xs),
                             st_next := Suc (st_next s2w)\<rparr>"
  have sl: "slice (Some a) s2w = Inr (st_next s2w, s3)"
    unfolding s3_def by (rule slice_Some [OF xs2])
  have n2w: "st_next s2w = n + 2 + length es" by (simp add: s2w_def writeRefs_def n2)
  have es0: "st_refs s0 (endss g) = Some es" using es e_lt by (simp add: s0_def)
  define es' where "es' = [n + 2..<n + 2 + length es]"
  define mp0 :: "'a MultiPolygon" where "mp0 =
     \<lparr>revision = 1, g_extent = E, extentRevision = -1, layout = XY, stride = 2,
       flatCoordinates = None, endss = n, flatInteriorPointsRevision = -1,
       flatInteriorPoints = None, mp_maxDelta = -1, mp_maxDeltaRevision = -1,
       orientedRevision = -1, orientedFlatCoordinates = None\<rparr>"
  have a0: "newMultiPolygon_null E s = (mp0, s0)"
    by (simp add: newMultiPolygon_null_eq mp0_def s0_def n_def)
  have a1: "allocRefs [] s0 = (Suc n, s1)"
    by (simp add: allocRefs_def s1_def s0_def)
  have a2: "sliceEach es s1 = Inr (es', s2)"
    using r by (simp only: es'_def)
  have a3: "slice (flatCoordinates g) (writeRefs (Suc n) es' s2) = Inr (n + 2 + length es, s3)"
    using sl n2w unfolding fc es'_def s2w_def by simp
  have g': "setFlatCoordinates (layout g) (Some (n + 2 + length es)) (Suc n) mp0 =
       \<lparr>revision = 2, g_extent = E, extentRevision = -1, layout = layout g,
            stride = getStrideForLayout (layout g),
            flatCoordinates = Some (n + 2 + length es), endss = Suc n,
            flatInteriorPointsRevision = -1, flatInteriorPoints = None, mp_maxDelta = -1,
            mp_maxDeltaRevision = -1, orientedRevision = -1,
            orientedFlatCoordinates = None\<rparr>"
    by (simp add: setFlatCoordinates_def setFlatCoordinatesInternal_def changed_def mp0_def)
  have cl: "clone E s g =
      Inr (\<lparr>revision = 2, g_extent = E, extentRevision = -1, layout = layout g,
            stride = getStrideForLayout (layout g),
            flatCoordinates = Some (n + 2 + length es), endss = Suc n,
            flatInteriorPointsRevision = -1, flatInteriorPoints = None, mp_maxDelta = -1,
            mp_maxDeltaRevision = -1, orientedRevision = -1,
            orientedFlatCoordinates = None\<rparr>, s3)"
    unfolding clone_def a0 by (simp only: es0 a1 a2 a3 g' option.case sum.case prod.case)
  have p1: "st_next s3 = n + 3 + length es" by (simp add: s3_def n2w)
  have p2: "\<forall>b. b < n \<longrightarrow> st_nums s3 b = st_nums s b \<and> st_refs s3 b = st_refs s b"
    using old2 rf2 by (simp add: s3_def n2 s2w_def writeRefs_def s1_def s0_def)
  have p3: "st_refs s3 (Suc n) = Some [n + 2..<n + 2 + length es]"
    by (simp add: s3_def n2 s2w_def writeRefs_def)
  have p4: "\<forall>i < length es. st_nums s3 (n + 2 + i) = st_nums s (es ! i)"
    using new2 by (simp add: s3_def n2 s2w_def writeRefs_def s1_def s0_def)
  have p5: "st_nums s3 (n + 2 + length es) = st_nums s a"
    using xs by (simp add: s3_def n2w)
  have p6: "storeOK s3"
    unfolding storeOK_def
  proof (intro conjI allI impI)
    fix b assume "b \<in> dom (st_nums s3)"
    then have "b = n + 2 + length es \<or> b \<in> dom (st_nums s2)"
      by (auto simp: s3_def s2w_def writeRefs_def n2 split: if_splits)
    with ok2 n2 p1 show "b < st_next s3" by (auto simp: storeOK_def)
  next
    fix b assume "b \<in> dom (st_refs s3)"
    then have "b = Suc n \<or> b \<in> dom (st_refs s2)"
      by (auto simp: s3_def s2w_def writeRefs_def split: if_splits)
    with ok2 n2 p1 show "b < st_next s3" by (auto simp: storeOK_def)
  qed
  show ?thesis
    using cl p1 p2 p3 p4 p5 p6 unfolding n_def by (intro exI [of _ s3]) simp
qed

subsection \<open>The extent cache\<close>

lemma getExtent_stale:
  "extentRevision g \<noteq> int (getRevision g) \<Longrightarrow>
     getExtent f g = (case f g of Inl e \<Rightarrow> Inl e
        | Inr ex \<Rightarrow> Inr (ex, g\<lparr>g_extent := ex, extentRevision := int (getRevision g)\<rparr>))"
  by (simp add: getExtent_def)

lemma getExtent_fresh:
  "extentRevision g = int (getRevision g) \<Longrightarrow> getExtent f g = Inr (g_extent g, g)"
  by (simp add: getExtent_def)

lemma extentOf_valid:
  "cacheValid ce s g \<Longrightarrow> extentOf ce s g = computeExtent ce s g"
  by (auto simp: extentOf_def getExtent_def cacheValid_def split: sum.splits)

lemma computeExtent_cache_fields:
  "computeExtent ce s (g\<lparr>g_extent := x, extentRevision := r\<rparr>) = computeExtent ce s g"
  by (simp add: computeExtent_def flatElements_def)

lemma getExtent_establishes:
  "cacheValid ce s g \<Longrightarrow> getExtent (computeExtent ce s) g = Inr (x, g1) \<Longrightarrow>
     cacheValid ce s g1 \<and> extentRevision g1 = int (getRevision g1) \<and>
     computeExtent ce s g = Inr x \<and> flatCoordinates g1 = flatCoordinates g \<and>
     revision g1 = revision g"
  by (auto simp: getExtent_def cacheValid_def computeExtent_def flatElements_def getRevision_def
      split: if_splits sum.splits)

lemma setFlatCoordinates_stale:
  "extentRevision g \<le> int (getRevision g) \<Longrightarrow>
     extentRevision (setFlatCoordinates l fc es g) \<noteq> int (getRevision (setFlatCoordinates l fc es g)) \<and>
     getRevision (setFlatCoordinates l fc es g) = Suc (getRevision g)"
  by (simp add: setFlatCoordinates_def setFlatCoordinatesInternal_def changed_def getRevision_def)

lemma setFlatCoordinates_extent:
  "extentRevision g \<le> int (getRevision g) \<Longrightarrow>
     extentOf ce s (setFlatCoordinates l fc es g) =
       ce (getStrideForLayout l) (case fc of None \<Rightarrow> None | Some a \<Rightarrow> st_nums s a)"
  using setFlatCoordinates_stale [of g l fc es]
  by (auto simp: extentOf_def getExtent_def computeExtent_def flatElements_def
      setFlatCoordinates_def setFlatCoordinatesInternal_def changed_def getRevision_def
      split: sum.splits)

text \<open>
  Claim C6: \<open>getExtent()\<close> recomputes the extent through \<open>computeExtent\<close> and stores the
  current revision exactly when the stored revision differs from the geometry's current
  revision; when they are equal it returns the cached extent and leaves the geometry as it
  is. For a multi-polygon whose cache is valid (the invariant of the data model),
  \<open>getExtent()\<close> therefore returns the extent computed from the current coordinates, and
  leaves the cache valid with the stored revision current. \<open>setFlatCoordinates\<close> bumps the
  revision past the stored one (the stored revision is never ahead of the current one), so
  the cached extent is invalidated: the next \<open>getExtent()\<close> returns the extent computed from
  the new coordinates.
\<close>

theorem getExtent_revision_cache:
  "(extentRevision g \<noteq> int (getRevision g) \<longrightarrow>
      getExtent f g = (case f g of Inl e \<Rightarrow> Inl e
        | Inr ex \<Rightarrow> Inr (ex, g\<lparr>g_extent := ex, extentRevision := int (getRevision g)\<rparr>))) \<and>
   (extentRevision g = int (getRevision g) \<longrightarrow> getExtent f g = Inr (g_extent g, g)) \<and>
   (cacheValid ce s mp \<longrightarrow> extentOf ce s mp = computeExtent ce s mp) \<and>
   (cacheValid ce s mp \<and> getExtent (computeExtent ce s) mp = Inr (x, mp1) \<longrightarrow>
      computeExtent ce s mp = Inr x \<and> cacheValid ce s mp1 \<and>
      extentRevision mp1 = int (getRevision mp1)) \<and>
   (extentRevision mp \<le> int (getRevision mp) \<longrightarrow>
      extentRevision (setFlatCoordinates l fc es mp) \<noteq>
        int (getRevision (setFlatCoordinates l fc es mp)) \<and>
      getRevision (setFlatCoordinates l fc es mp) = Suc (getRevision mp) \<and>
      extentOf ce s' (setFlatCoordinates l fc es mp) =
        ce (getStrideForLayout l) (case fc of None \<Rightarrow> None | Some a \<Rightarrow> st_nums s' a))"
  using getExtent_stale [of g f] getExtent_fresh [of g f] extentOf_valid [of ce s mp]
    getExtent_establishes [of ce s mp x mp1] setFlatCoordinates_stale [of mp l fc es]
    setFlatCoordinates_extent [of mp ce s' l fc es]
  by blast

theorem getExtent_revision_cache_witness:
  "getExtent (computeExtent demo_ce demo_store) demo_multiPolygon =
     Inr (Some (0, 0, 10, 10),
          demo_multiPolygon\<lparr>g_extent := Some (0, 0, 10, 10), extentRevision := 1\<rparr>) \<and>
   getExtent (computeExtent demo_ce demo_store)
       (demo_multiPolygon\<lparr>g_extent := Some (0, 0, 10, 10), extentRevision := 1\<rparr>) =
     Inr (Some (0, 0, 10, 10),
          demo_multiPolygon\<lparr>g_extent := Some (0, 0, 10, 10), extentRevision := 1\<rparr>) \<and>
   extentOf demo_ce demo_store
       (setFlatCoordinates XY (Some 3) 2
          (demo_multiPolygon\<lparr>g_extent := Some (0, 0, 10, 10), extentRevision := 1\<rparr>)) =
     Inr (Some (0, 0, 4, 3))"
proof -
  let ?g1 = "demo_multiPolygon\<lparr>g_extent := Some (0, 0, 10, 10), extentRevision := 1\<rparr>"
  have stale: "extentRevision demo_multiPolygon \<noteq> int (getRevision demo_multiPolygon)"
    by (simp add: demo_multiPolygon_def getRevision_def)
  have fresh: "extentRevision ?g1 = int (getRevision ?g1)"
    by (simp add: demo_multiPolygon_def getRevision_def)
  have le: "extentRevision ?g1 \<le> int (getRevision ?g1)"
    by (simp add: demo_multiPolygon_def getRevision_def)
  have a: "getExtent (computeExtent demo_ce demo_store) demo_multiPolygon =
      (case computeExtent demo_ce demo_store demo_multiPolygon of Inl e \<Rightarrow> Inl e
        | Inr ex \<Rightarrow> Inr (ex, demo_multiPolygon\<lparr>g_extent := ex,
             extentRevision := int (getRevision demo_multiPolygon)\<rparr>))"
    using getExtent_revision_cache [of demo_multiPolygon "computeExtent demo_ce demo_store",
        THEN conjunct1] stale by simp
  have b: "getExtent (computeExtent demo_ce demo_store) ?g1 = Inr (g_extent ?g1, ?g1)"
    using getExtent_revision_cache [of ?g1 "computeExtent demo_ce demo_store",
        THEN conjunct2, THEN conjunct1] fresh by simp
  have c: "extentOf demo_ce demo_store (setFlatCoordinates XY (Some 3) 2 ?g1) =
      demo_ce (getStrideForLayout XY) (st_nums demo_store 3)"
    using getExtent_revision_cache [where mp = ?g1 and l = XY and fc = "Some 3" and es = 2
        and ce = demo_ce and s' = demo_store, THEN conjunct2, THEN conjunct2, THEN conjunct2,
        THEN conjunct2] le
    by simp
  have ce0: "computeExtent demo_ce demo_store demo_multiPolygon = Inr (Some (0, 0, 10, 10))"
    by (simp add: computeExtent_def flatElements_def demo_ce_def demo_store_def
        demo_multiPolygon_def)
  have ce3: "demo_ce (getStrideForLayout XY) (st_nums demo_store 3) = Inr (Some (0, 0, 4, 3))"
    by (simp add: demo_ce_def demo_store_def)
  show ?thesis
    unfolding a b c ce0 ce3 by (simp add: demo_multiPolygon_def getRevision_def)
qed

subsection \<open>Cloning copies the arrays\<close>

lemma elements_frame:
  assumes "\<forall>b \<in> set_option (flatCoordinates g). st_nums s2 b = st_nums s1 b"
    and "st_refs s2 (endss g) = st_refs s1 (endss g)"
    and "\<forall>es. st_refs s1 (endss g) = Some es \<longrightarrow> (\<forall>e \<in> set es. st_nums s2 e = st_nums s1 e)"
  shows "flatElements s2 g = flatElements s1 g \<and> endsElements s2 g = endsElements s1 g"
  using assms
  by (cases "flatCoordinates g"; cases "st_refs s1 (endss g)")
     (auto simp: flatElements_def endsElements_def)

lemma extentOf_frame:
  "flatElements s2 g = flatElements s1 g \<Longrightarrow> extentOf ce s2 g = extentOf ce s1 g"
  by (simp add: extentOf_def getExtent_def computeExtent_def)

lemma extentOf_stale:
  "extentRevision g \<noteq> int (getRevision g) \<Longrightarrow> extentOf ce s g = computeExtent ce s g"
  by (auto simp: extentOf_def getExtent_def split: sum.splits)

lemma map_upt_eq:
  "(\<forall>i < length es. f (k + i) = h (es ! i)) \<Longrightarrow> map f [k..<k + length es] = map h es"
  by (rule nth_equalityI) simp_all


lemma clone_multiPolygon_copy:
  assumes ok: "multiPolygonOK s g"
  shows "\<exists>g' s'. clone E s g = Inr (g', s') \<and> multiPolygonOK s' g' \<and>
       layout g' = layout g \<and> stride g' = stride g \<and>
       flatElements s' g' = flatElements s g \<and> endsElements s' g' = endsElements s g \<and>
       flatElements s' g = flatElements s g \<and> endsElements s' g = endsElements s g \<and>
       (\<forall>b \<in> ownedNums s' g' \<union> {endss g'}. st_next s \<le> b) \<and>
       (\<forall>b \<in> ownedNums s g \<union> {endss g}. b < st_next s) \<and>
       (cacheValid ce s g \<longrightarrow> extentOf ce s' g' = extentOf ce s g) \<and>
       (\<forall>b xs. b \<in> ownedNums s' g' \<longrightarrow>
          flatElements (writeNums b xs s') g = flatElements s g \<and>
          endsElements (writeNums b xs s') g = endsElements s g \<and>
          extentOf ce (writeNums b xs s') g = extentOf ce s g) \<and>
       (\<forall>rs. flatElements (writeRefs (endss g') rs s') g = flatElements s g \<and>
          endsElements (writeRefs (endss g') rs s') g = endsElements s g \<and>
          extentOf ce (writeRefs (endss g') rs s') g = extentOf ce s g) \<and>
       (\<forall>b xs. b \<in> ownedNums s g \<longrightarrow>
          flatElements (writeNums b xs s') g' = flatElements s' g' \<and>
          endsElements (writeNums b xs s') g' = endsElements s' g' \<and>
          extentOf ce (writeNums b xs s') g' = extentOf ce s' g') \<and>
       (\<forall>rs. flatElements (writeRefs (endss g) rs s') g' = flatElements s' g' \<and>
          endsElements (writeRefs (endss g) rs s') g' = endsElements s' g' \<and>
          extentOf ce (writeRefs (endss g) rs s') g' = extentOf ce s' g')"
proof -
  define n where "n = st_next s"
  from ok obtain a xs es where fc: "flatCoordinates g = Some a" and xs: "st_nums s a = Some xs"
    and es: "st_refs s (endss g) = Some es" and esdom: "\<forall>e \<in> set es. e \<in> dom (st_nums s)"
    and sok: "storeOK s" and str: "stride g = getStrideForLayout (layout g)"
    by (auto simp: multiPolygonOK_def)
  have a_lt: "a < n" using sok xs by (auto simp: storeOK_def n_def)
  have e_lt: "endss g < n" using sok es by (auto simp: storeOK_def n_def)
  have es_lt: "\<forall>e \<in> set es. e < n" using sok esdom by (auto simp: storeOK_def n_def)
  define g' :: "'a MultiPolygon" where "g' =
     \<lparr>revision = 2, g_extent = E, extentRevision = -1, layout = layout g,
            stride = getStrideForLayout (layout g),
            flatCoordinates = Some (n + 2 + length es), endss = Suc n,
            flatInteriorPointsRevision = -1, flatInteriorPoints = None, mp_maxDelta = -1,
            mp_maxDeltaRevision = -1, orientedRevision = -1,
            orientedFlatCoordinates = None\<rparr>"
  from clone_shape [OF ok fc es, of E] obtain s' where
    cl: "clone E s g = Inr (g', s')" and
    nx: "st_next s' = n + 3 + length es" and
    old: "\<forall>b. b < n \<longrightarrow> st_nums s' b = st_nums s b \<and> st_refs s' b = st_refs s b" and
    rf: "st_refs s' (Suc n) = Some [n + 2..<n + 2 + length es]" and
    new: "\<forall>i < length es. st_nums s' (n + 2 + i) = st_nums s (es ! i)" and
    fl: "st_nums s' (n + 2 + length es) = st_nums s a" and
    sok': "storeOK s'"
    unfolding n_def g'_def by blast
  have g'f: "flatCoordinates g' = Some (n + 2 + length es)" "endss g' = Suc n"
    "layout g' = layout g" "stride g' = stride g" "extentRevision g' \<noteq> int (getRevision g')"
    by (simp_all add: g'_def str getRevision_def)
  have m: "map (st_nums s') [n + 2..<n + 2 + length es] = map (st_nums s) es"
    using new by (rule map_upt_eq)
  have fe': "flatElements s' g' = flatElements s g"
    using fl by (simp add: flatElements_def g'f fc)
  have ee': "endsElements s' g' = endsElements s g"
    using rf m by (simp add: endsElements_def g'f es)
  have own': "ownedNums s' g' = insert (n + 2 + length es) (set [n + 2..<n + 2 + length es])"
    using rf by (simp add: ownedNums_def g'f)
  have own: "ownedNums s g = insert a (set es)"
    by (simp add: ownedNums_def fc es)
  have frame_g: "flatElements s2 g = flatElements s g \<and> endsElements s2 g = endsElements s g"
    if "\<forall>b. b < n \<longrightarrow> st_nums s2 b = st_nums s b \<and> st_refs s2 b = st_refs s b" for s2
    using that a_lt e_lt es_lt es by (intro elements_frame) (auto simp: fc)
  have frame_g': "flatElements s2 g' = flatElements s' g' \<and> endsElements s2 g' = endsElements s' g'"
    if "\<forall>b. n \<le> b \<longrightarrow> st_nums s2 b = st_nums s' b \<and> st_refs s2 b = st_refs s' b" for s2
    using that rf by (intro elements_frame) (auto simp: g'f)
  have c1: "flatElements s' g = flatElements s g \<and> endsElements s' g = endsElements s g"
    using old by (rule frame_g)
  have ok': "multiPolygonOK s' g'"
  proof -
    have "\<forall>e \<in> set [n + 2..<n + 2 + length es]. e \<in> dom (st_nums s')"
    proof
      fix e assume "e \<in> set [n + 2..<n + 2 + length es]"
      then obtain i where i: "i < length es" "e = n + 2 + i"
        by (auto simp: nat_le_iff_add)
      with new esdom show "e \<in> dom (st_nums s')" by (auto simp: dom_def)
    qed
    then show ?thesis using sok' fl xs rf by (simp add: multiPolygonOK_def g'_def)
  qed
  have c2: "\<forall>b \<in> ownedNums s' g' \<union> {endss g'}. st_next s \<le> b"
    by (auto simp: own' g'f n_def)
  have c3: "\<forall>b \<in> ownedNums s g \<union> {endss g}. b < st_next s"
    using a_lt e_lt es_lt by (auto simp: own n_def)
  have c4: "cacheValid ce s g \<longrightarrow> extentOf ce s' g' = extentOf ce s g"
  proof
    assume v: "cacheValid ce s g"
    have "extentOf ce s' g' = computeExtent ce s' g'" using g'f(5) by (rule extentOf_stale)
    also have "\<dots> = computeExtent ce s g" by (simp add: computeExtent_def fe' g'f)
    also have "\<dots> = extentOf ce s g" using extentOf_valid [OF v] by simp
    finally show "extentOf ce s' g' = extentOf ce s g" .
  qed
  have c5: "\<forall>b xs. b \<in> ownedNums s' g' \<longrightarrow>
          flatElements (writeNums b xs s') g = flatElements s g \<and>
          endsElements (writeNums b xs s') g = endsElements s g \<and>
          extentOf ce (writeNums b xs s') g = extentOf ce s g"
  proof (intro allI impI)
    fix b xs assume "b \<in> ownedNums s' g'"
    then have "n \<le> b" by (auto simp: own')
    then have "\<forall>c. c < n \<longrightarrow> st_nums (writeNums b xs s') c = st_nums s c \<and>
                  st_refs (writeNums b xs s') c = st_refs s c"
      using old by (simp add: writeNums_def)
    from frame_g [OF this] show "flatElements (writeNums b xs s') g = flatElements s g \<and>
          endsElements (writeNums b xs s') g = endsElements s g \<and>
          extentOf ce (writeNums b xs s') g = extentOf ce s g"
      using extentOf_frame [of "writeNums b xs s'" g s ce] by simp
  qed
  have c6: "\<forall>rs. flatElements (writeRefs (endss g') rs s') g = flatElements s g \<and>
          endsElements (writeRefs (endss g') rs s') g = endsElements s g \<and>
          extentOf ce (writeRefs (endss g') rs s') g = extentOf ce s g"
  proof
    fix rs
    have "\<forall>c. c < n \<longrightarrow> st_nums (writeRefs (endss g') rs s') c = st_nums s c \<and>
                  st_refs (writeRefs (endss g') rs s') c = st_refs s c"
      using old by (simp add: writeRefs_def g'f)
    from frame_g [OF this] show "flatElements (writeRefs (endss g') rs s') g = flatElements s g \<and>
          endsElements (writeRefs (endss g') rs s') g = endsElements s g \<and>
          extentOf ce (writeRefs (endss g') rs s') g = extentOf ce s g"
      using extentOf_frame [of "writeRefs (endss g') rs s'" g s ce] by simp
  qed
  have c7: "\<forall>b xs. b \<in> ownedNums s g \<longrightarrow>
          flatElements (writeNums b xs s') g' = flatElements s' g' \<and>
          endsElements (writeNums b xs s') g' = endsElements s' g' \<and>
          extentOf ce (writeNums b xs s') g' = extentOf ce s' g'"
  proof (intro allI impI)
    fix b xs assume "b \<in> ownedNums s g"
    then have "b < n" using a_lt es_lt by (auto simp: own)
    then have "\<forall>c. n \<le> c \<longrightarrow> st_nums (writeNums b xs s') c = st_nums s' c \<and>
                  st_refs (writeNums b xs s') c = st_refs s' c"
      by (simp add: writeNums_def)
    from frame_g' [OF this] show "flatElements (writeNums b xs s') g' = flatElements s' g' \<and>
          endsElements (writeNums b xs s') g' = endsElements s' g' \<and>
          extentOf ce (writeNums b xs s') g' = extentOf ce s' g'"
      using extentOf_frame [of "writeNums b xs s'" g' s' ce] by simp
  qed
  have c8: "\<forall>rs. flatElements (writeRefs (endss g) rs s') g' = flatElements s' g' \<and>
          endsElements (writeRefs (endss g) rs s') g' = endsElements s' g' \<and>
          extentOf ce (writeRefs (endss g) rs s') g' = extentOf ce s' g'"
  proof
    fix rs
    have "\<forall>c. n \<le> c \<longrightarrow> st_nums (writeRefs (endss g) rs s') c = st_nums s' c \<and>
                  st_refs (writeRefs (endss g) rs s') c = st_refs s' c"
      using e_lt by (simp add: writeRefs_def)
    from frame_g' [OF this] show "flatElements (writeRefs (endss g) rs s') g' = flatElements s' g' \<and>
          endsElements (writeRefs (endss g) rs s') g' = endsElements s' g' \<and>
          extentOf ce (writeRefs (endss g) rs s') g' = extentOf ce s' g'"
      using extentOf_frame [of "writeRefs (endss g) rs s'" g' s' ce] by simp
  qed
  show ?thesis
    using cl ok' g'f(3) g'f(4) fe' ee' c1 c2 c3 c4 c5 c6 c7 c8
    by (intro exI [of _ g'] exI [of _ s']) (simp only: simp_thms)
qed

lemma ring_frame:
  "\<forall>b \<in> set_option (flatCoordinates g). st_nums s2 b = st_nums s1 b \<Longrightarrow>
     flatElements s2 g = flatElements s1 g"
  by (cases "flatCoordinates g") (auto simp: flatElements_def)

lemma newLinearRing_null_eq:
  "newLinearRing_null E =
     \<lparr>revision = 1, g_extent = E, extentRevision = -1, layout = XY, stride = 2,
      flatCoordinates = None, ring_maxDelta = -1, ring_maxDeltaRevision = -1\<rparr>"
  by (simp add: newLinearRing_null_def setFlatCoordinates_ring_def setFlatCoordinatesInternal_def
      changed_def)

lemma clone_ring_copy:
  assumes ok: "ringOK s r"
  shows "\<exists>r' s' a a'. clone_ring E s r = Inr (r', s') \<and> ringOK s' r' \<and>
       layout r' = layout r \<and> stride r' = stride r \<and>
       flatCoordinates r = Some a \<and> flatCoordinates r' = Some a' \<and>
       a < st_next s \<and> st_next s \<le> a' \<and>
       flatElements s' r' = flatElements s r \<and> flatElements s' r = flatElements s r \<and>
       (cacheValid ce s r \<longrightarrow> extentOf ce s' r' = extentOf ce s r) \<and>
       (\<forall>xs. flatElements (writeNums a' xs s') r = flatElements s r \<and>
             extentOf ce (writeNums a' xs s') r = extentOf ce s r) \<and>
       (\<forall>xs. flatElements (writeNums a xs s') r' = flatElements s' r' \<and>
             extentOf ce (writeNums a xs s') r' = extentOf ce s' r')"
proof -
  define n where "n = st_next s"
  from ok obtain a xs where fc: "flatCoordinates r = Some a" and xs: "st_nums s a = Some xs"
    and sok: "storeOK s" and str: "stride r = getStrideForLayout (layout r)"
    by (auto simp: ringOK_def)
  have a_lt: "a < n" using sok xs by (auto simp: storeOK_def n_def)
  define s' where "s' = s\<lparr>st_nums := (st_nums s)(n \<mapsto> xs), st_next := Suc n\<rparr>"
  define r' :: "'a LinearRing" where "r' =
     \<lparr>revision = 2, g_extent = E, extentRevision = -1, layout = layout r,
      stride = getStrideForLayout (layout r), flatCoordinates = Some n,
      ring_maxDelta = -1, ring_maxDeltaRevision = -1\<rparr>"
  have sl: "slice (flatCoordinates r) s = Inr (n, s')"
    unfolding fc s'_def n_def by (rule slice_Some [OF xs])
  have cl: "clone_ring E s r = Inr (r', s')"
    unfolding clone_ring_def newLinearRing_null_eq sl
    by (simp add: r'_def setFlatCoordinates_ring_def setFlatCoordinatesInternal_def changed_def)
  have r'f: "flatCoordinates r' = Some n" "layout r' = layout r" "stride r' = stride r"
    "extentRevision r' \<noteq> int (getRevision r')"
    by (simp_all add: r'_def str getRevision_def)
  have sok': "storeOK s'"
    using sok by (auto simp: storeOK_def s'_def n_def less_Suc_eq split: if_splits)
  have ok': "ringOK s' r'" using sok' by (simp add: ringOK_def r'_def s'_def)
  have fe': "flatElements s' r' = flatElements s r"
    by (simp add: flatElements_def r'f fc s'_def xs)
  have fe: "flatElements s' r = flatElements s r"
    using a_lt by (simp add: flatElements_def fc s'_def)
  have c4: "cacheValid ce s r \<longrightarrow> extentOf ce s' r' = extentOf ce s r"
  proof
    assume v: "cacheValid ce s r"
    have "extentOf ce s' r' = computeExtent ce s' r'" using r'f(4) by (rule extentOf_stale)
    also have "\<dots> = computeExtent ce s r" by (simp add: computeExtent_def fe' r'f)
    also have "\<dots> = extentOf ce s r" using extentOf_valid [OF v] by simp
    finally show "extentOf ce s' r' = extentOf ce s r" .
  qed
  have c5: "\<forall>ys. flatElements (writeNums n ys s') r = flatElements s r \<and>
             extentOf ce (writeNums n ys s') r = extentOf ce s r"
  proof
    fix ys
    have f: "flatElements (writeNums n ys s') r = flatElements s r"
      using a_lt by (simp add: flatElements_def fc writeNums_def s'_def)
    with extentOf_frame [OF f, of ce]
    show "flatElements (writeNums n ys s') r = flatElements s r \<and>
             extentOf ce (writeNums n ys s') r = extentOf ce s r" by simp
  qed
  have c6: "\<forall>ys. flatElements (writeNums a ys s') r' = flatElements s' r' \<and>
             extentOf ce (writeNums a ys s') r' = extentOf ce s' r'"
  proof
    fix ys
    have f: "flatElements (writeNums a ys s') r' = flatElements s' r'"
      using a_lt by (simp add: flatElements_def r'f writeNums_def s'_def)
    with extentOf_frame [OF f, of ce]
    show "flatElements (writeNums a ys s') r' = flatElements s' r' \<and>
             extentOf ce (writeNums a ys s') r' = extentOf ce s' r'" by simp
  qed
  have a_lt': "a < st_next s" "st_next s \<le> n" using a_lt by (simp_all add: n_def)
  show ?thesis
    using cl ok' r'f(1,2,3) fc a_lt' fe' fe c4 c5 c6
    by (intro exI [of _ r'] exI [of _ s'] exI [of _ a] exI [of _ n]) (simp only: simp_thms)
qed

lemma slice_err: "slice r s = Inl e \<Longrightarrow> e = TypeError"
  by (auto simp: slice_def split: option.splits)

lemma sliceEach_err: "sliceEach es s = Inl e \<Longrightarrow> e = TypeError"
proof (induction es arbitrary: s)
  case Nil
  then show ?case by simp
next
  case (Cons a as)
  then show ?case
    by (auto simp: slice_err split: sum.splits prod.splits dest: slice_err)
qed

lemma clone_null:
  "flatCoordinates g = None \<Longrightarrow> clone E s g = Inl TypeError"
  by (auto simp: clone_def slice_def allocRefs_def split: prod.splits option.splits sum.splits
      dest: sliceEach_err)

lemma clone_ring_null:
  "flatCoordinates g = None \<Longrightarrow> clone_ring E s g = Inl TypeError"
  by (simp add: clone_ring_def slice_def)

lemma clone_circle_null:
  "flatCoordinates g = None \<Longrightarrow> clone_circle E s g = Inl TypeError"
  by (simp add: clone_circle_def slice_def)

lemma newCircle_null_eq:
  "newCircle_null E =
     \<lparr>revision = 1, g_extent = E, extentRevision = -1, layout = XY, stride = 2,
      flatCoordinates = None\<rparr>"
  by (simp add: newCircle_null_def setFlatCoordinates_circle_def setFlatCoordinatesInternal_def
      changed_def)

lemma clone_circle_copy:
  assumes ok: "circleOK s r"
  shows "\<exists>r' s' a a'. clone_circle E s r = Inr (r', s') \<and> circleOK s' r' \<and>
       layout r' = layout r \<and> stride r' = stride r \<and>
       flatCoordinates r = Some a \<and> flatCoordinates r' = Some a' \<and>
       a < st_next s \<and> st_next s \<le> a' \<and>
       flatElements s' r' = flatElements s r \<and> flatElements s' r = flatElements s r \<and>
       (cacheValid ce s r \<longrightarrow> extentOf ce s' r' = extentOf ce s r) \<and>
       (\<forall>xs. flatElements (writeNums a' xs s') r = flatElements s r \<and>
             extentOf ce (writeNums a' xs s') r = extentOf ce s r) \<and>
       (\<forall>xs. flatElements (writeNums a xs s') r' = flatElements s' r' \<and>
             extentOf ce (writeNums a xs s') r' = extentOf ce s' r')"
proof -
  define n where "n = st_next s"
  from ok obtain a xs where fc: "flatCoordinates r = Some a" and xs: "st_nums s a = Some xs"
    and sok: "storeOK s" and str: "stride r = getStrideForLayout (layout r)"
    by (auto simp: circleOK_def)
  have a_lt: "a < n" using sok xs by (auto simp: storeOK_def n_def)
  define s' where "s' = s\<lparr>st_nums := (st_nums s)(n \<mapsto> xs), st_next := Suc n\<rparr>"
  define r' :: "'a Circle" where "r' =
     \<lparr>revision = 2, g_extent = E, extentRevision = -1, layout = layout r,
      stride = getStrideForLayout (layout r), flatCoordinates = Some n\<rparr>"
  have sl: "slice (flatCoordinates r) s = Inr (n, s')"
    unfolding fc s'_def n_def by (rule slice_Some [OF xs])
  have cl: "clone_circle E s r = Inr (r', s')"
    unfolding clone_circle_def newCircle_null_eq sl
    by (simp add: r'_def setFlatCoordinates_circle_def setFlatCoordinatesInternal_def changed_def)
  have r'f: "flatCoordinates r' = Some n" "layout r' = layout r" "stride r' = stride r"
    "extentRevision r' \<noteq> int (getRevision r')"
    by (simp_all add: r'_def str getRevision_def)
  have sok': "storeOK s'"
    using sok by (auto simp: storeOK_def s'_def n_def less_Suc_eq split: if_splits)
  have ok': "circleOK s' r'" using sok' by (simp add: circleOK_def r'_def s'_def)
  have fe': "flatElements s' r' = flatElements s r"
    by (simp add: flatElements_def r'f fc s'_def xs)
  have fe: "flatElements s' r = flatElements s r"
    using a_lt by (simp add: flatElements_def fc s'_def)
  have c4: "cacheValid ce s r \<longrightarrow> extentOf ce s' r' = extentOf ce s r"
  proof
    assume v: "cacheValid ce s r"
    have "extentOf ce s' r' = computeExtent ce s' r'" using r'f(4) by (rule extentOf_stale)
    also have "\<dots> = computeExtent ce s r" by (simp add: computeExtent_def fe' r'f)
    also have "\<dots> = extentOf ce s r" using extentOf_valid [OF v] by simp
    finally show "extentOf ce s' r' = extentOf ce s r" .
  qed
  have c5: "\<forall>ys. flatElements (writeNums n ys s') r = flatElements s r \<and>
             extentOf ce (writeNums n ys s') r = extentOf ce s r"
  proof
    fix ys
    have f: "flatElements (writeNums n ys s') r = flatElements s r"
      using a_lt by (simp add: flatElements_def fc writeNums_def s'_def)
    with extentOf_frame [OF f, of ce]
    show "flatElements (writeNums n ys s') r = flatElements s r \<and>
             extentOf ce (writeNums n ys s') r = extentOf ce s r" by simp
  qed
  have c6: "\<forall>ys. flatElements (writeNums a ys s') r' = flatElements s' r' \<and>
             extentOf ce (writeNums a ys s') r' = extentOf ce s' r'"
  proof
    fix ys
    have f: "flatElements (writeNums a ys s') r' = flatElements s' r'"
      using a_lt by (simp add: flatElements_def r'f writeNums_def s'_def)
    with extentOf_frame [OF f, of ce]
    show "flatElements (writeNums a ys s') r' = flatElements s' r' \<and>
             extentOf ce (writeNums a ys s') r' = extentOf ce s' r'" by simp
  qed
  have a_lt': "a < st_next s" "st_next s \<le> n" using a_lt by (simp_all add: n_def)
  show ?thesis
    using cl ok' r'f(1,2,3) fc a_lt' fe' fe c4 c5 c6
    by (intro exI [of _ r'] exI [of _ s'] exI [of _ a] exI [of _ n]) (simp only: simp_thms)
qed

lemma demo_clone_eval:
  "clone None demo_store demo_multiPolygon = Inr (demo_multiPolygon_clone, demo_store_cloned)"
  by (simp add: clone_def newMultiPolygon_null_eq slice_def allocRefs_def allocNums_def
      demo_store_def writeRefs_def demo_multiPolygon_def setFlatCoordinates_def
      setFlatCoordinatesInternal_def changed_def demo_multiPolygon_clone_def
      demo_store_cloned_def)
lemma demo_ring_clone_eval:
  "clone_ring None demo_store demo_ring = Inr (demo_ring_clone, demo_store_ring_cloned)"
  by (simp add: clone_ring_def newLinearRing_null_eq slice_def allocNums_def
      demo_store_def demo_ring_def setFlatCoordinates_ring_def
      setFlatCoordinatesInternal_def changed_def demo_ring_clone_def
      demo_store_ring_cloned_def)
lemma demo_ok: "multiPolygonOK demo_store demo_multiPolygon \<and> ringOK demo_store demo_ring"
  by (auto simp: multiPolygonOK_def ringOK_def storeOK_def demo_store_def demo_multiPolygon_def
      demo_ring_def split: if_splits)
lemma demo_valid: "cacheValid demo_ce demo_store demo_multiPolygon \<and> cacheValid demo_ce demo_store demo_ring"
  by (simp add: cacheValid_def demo_multiPolygon_def demo_ring_def getRevision_def)
lemma demo_extent: "extentOf demo_ce demo_store demo_multiPolygon = Inr (Some (0, 0, 10, 10))"
  by (simp add: extentOf_def getExtent_def computeExtent_def flatElements_def demo_ce_def
      demo_store_def demo_multiPolygon_def getRevision_def)
lemma demo_own: "7 \<in> ownedNums demo_store_cloned demo_multiPolygon_clone"
  by (simp add: ownedNums_def demo_store_cloned_def demo_multiPolygon_clone_def)

lemma demo_circle_clone_eval:
  "clone_circle emptyExtent_js demo_store_circle demo_circle =
     Inr (demo_circle_clone, demo_store_circle_cloned)"
  by (simp add: clone_circle_def newCircle_null_eq slice_def allocNums_def
      demo_store_circle_def demo_circle_def setFlatCoordinates_circle_def
      setFlatCoordinatesInternal_def changed_def demo_circle_clone_def
      demo_store_circle_cloned_def)

lemma demo_circle_ok: "circleOK demo_store_circle demo_circle"
  by (auto simp: circleOK_def storeOK_def demo_store_circle_def demo_circle_def split: if_splits)

lemma demo_circle_valid: "cacheValid computeExtent_circle demo_store_circle demo_circle"
  by (simp add: cacheValid_def demo_circle_def getRevision_def)

lemma demo_circle_extent:
  "extentOf computeExtent_circle demo_store_circle demo_circle =
     Inr (Fin (- 2), Fin (- 1), Fin 4, Fin 5)"
  by (simp add: extentOf_def getExtent_def computeExtent_def flatElements_def
      computeExtent_circle_def demo_store_circle_def demo_circle_def getRevision_def
      nth_js_def js_sub_def Let_def)

text \<open>
  Claim C7, as the spec states it, is about every geometry and about \<open>getExtent()\<close> of
  every geometry. A linear ring, a multi-polygon or a circle constructed with \<open>null\<close>
  coordinates has the flat coordinates \<open>null\<close>, and \<open>clone()\<close> throws a \<open>TypeError\<close> on it
  (\<open>this.flatCoordinates.slice()\<close>) instead of returning a copy. And the extent cache is
  keyed by the revision alone: for the example ring, after \<open>getExtent()\<close> stored the extent
  \<open>(0, 0, 10, 10)\<close> and the ring's flat coordinates were then written in place, \<open>getExtent()\<close>
  of the ring still gives the stored extent while \<open>getExtent()\<close> of its clone gives the extent
  \<open>(0, 0, 5, 5)\<close> of the coordinates.
\<close>

theorem clone_null_counterexample:
  "clone_ring None demo_store (newLinearRing_null None) = Inl TypeError \<and>
   clone None (snd (newMultiPolygon_null None demo_store))
     (fst (newMultiPolygon_null None demo_store)) = Inl TypeError \<and>
   clone_circle emptyExtent_js demo_store_circle (newCircle_null emptyExtent_js) = Inl TypeError \<and>
   getExtent (computeExtent demo_ce demo_store) demo_ring =
     Inr (Some (0, 0, 10, 10), demo_ring_cached) \<and>
   extentOf demo_ce demo_store_written demo_ring_cached = Inr (Some (0, 0, 10, 10)) \<and>
   cloneExtent_ring demo_ce None demo_store_written demo_ring_cached = Inr (Some (0, 0, 5, 5))"
  by (simp add: clone_ring_def clone_def clone_circle_def newLinearRing_null_eq
      newMultiPolygon_null_eq newCircle_null_eq slice_def allocRefs_def allocNums_def
      demo_store_def writeRefs_def writeNums_def demo_store_written_def demo_ring_cached_def
      demo_ring_def getExtent_def computeExtent_def flatElements_def demo_ce_def
      getRevision_def extentOf_def cloneExtent_ring_def setFlatCoordinates_ring_def
      setFlatCoordinatesInternal_def changed_def)

text \<open>
  Claim C7, amended: for every multi-polygon, every linear ring and every circle whose
  flat coordinates are not \<open>null\<close> (with its arrays in a well-formed store), \<open>clone()\<close>
  returns a geometry with the same layout and stride whose flat coordinates, and for the
  multi-polygon whose endss and ends arrays, are new arrays (at addresses unused before, so
  distinct from every array of the original) with the same elements; the original's arrays
  are not changed by cloning. When the original's stored extent is that of its coordinates
  or is out of date by its revision, \<open>getExtent()\<close> of the clone gives the same extent as
  \<open>getExtent()\<close> of the original (for the circle with \<open>Circle.computeExtent\<close>). Any later
  write into an array of the clone (its flat coordinates, an ends array, its endss array)
  leaves the original's coordinates, ends and extent as they were, and any write into an
  array of the original leaves those of the clone as they were. On flat coordinates that
  are \<open>null\<close>, \<open>clone()\<close> of each of the three classes throws a \<open>TypeError\<close>.
\<close>

theorem clone_deep_copy:
  "(multiPolygonOK s g \<longrightarrow>
     (\<exists>g' s'. clone E s g = Inr (g', s') \<and> multiPolygonOK s' g' \<and>
       layout g' = layout g \<and> stride g' = stride g \<and>
       flatElements s' g' = flatElements s g \<and> endsElements s' g' = endsElements s g \<and>
       flatElements s' g = flatElements s g \<and> endsElements s' g = endsElements s g \<and>
       (\<forall>b \<in> ownedNums s' g' \<union> {endss g'}. st_next s \<le> b) \<and>
       (\<forall>b \<in> ownedNums s g \<union> {endss g}. b < st_next s) \<and>
       (cacheValid ce s g \<longrightarrow> extentOf ce s' g' = extentOf ce s g) \<and>
       (\<forall>b xs. b \<in> ownedNums s' g' \<longrightarrow>
          flatElements (writeNums b xs s') g = flatElements s g \<and>
          endsElements (writeNums b xs s') g = endsElements s g \<and>
          extentOf ce (writeNums b xs s') g = extentOf ce s g) \<and>
       (\<forall>rs. flatElements (writeRefs (endss g') rs s') g = flatElements s g \<and>
          endsElements (writeRefs (endss g') rs s') g = endsElements s g \<and>
          extentOf ce (writeRefs (endss g') rs s') g = extentOf ce s g) \<and>
       (\<forall>b xs. b \<in> ownedNums s g \<longrightarrow>
          flatElements (writeNums b xs s') g' = flatElements s' g' \<and>
          endsElements (writeNums b xs s') g' = endsElements s' g' \<and>
          extentOf ce (writeNums b xs s') g' = extentOf ce s' g') \<and>
       (\<forall>rs. flatElements (writeRefs (endss g) rs s') g' = flatElements s' g' \<and>
          endsElements (writeRefs (endss g) rs s') g' = endsElements s' g' \<and>
          extentOf ce (writeRefs (endss g) rs s') g' = extentOf ce s' g'))) \<and>
   (ringOK t r \<longrightarrow>
     (\<exists>r' t' a a'. clone_ring E t r = Inr (r', t') \<and> ringOK t' r' \<and>
       layout r' = layout r \<and> stride r' = stride r \<and>
       flatCoordinates r = Some a \<and> flatCoordinates r' = Some a' \<and>
       a < st_next t \<and> st_next t \<le> a' \<and>
       flatElements t' r' = flatElements t r \<and> flatElements t' r = flatElements t r \<and>
       (cacheValid ce t r \<longrightarrow> extentOf ce t' r' = extentOf ce t r) \<and>
       (\<forall>xs. flatElements (writeNums a' xs t') r = flatElements t r \<and>
             extentOf ce (writeNums a' xs t') r = extentOf ce t r) \<and>
       (\<forall>xs. flatElements (writeNums a xs t') r' = flatElements t' r' \<and>
             extentOf ce (writeNums a xs t') r' = extentOf ce t' r'))) \<and>
   (circleOK u c \<longrightarrow>
     (\<exists>c' u' a a'. clone_circle Ec u c = Inr (c', u') \<and> circleOK u' c' \<and>
       layout c' = layout c \<and> stride c' = stride c \<and>
       flatCoordinates c = Some a \<and> flatCoordinates c' = Some a' \<and>
       a < st_next u \<and> st_next u \<le> a' \<and>
       flatElements u' c' = flatElements u c \<and> flatElements u' c = flatElements u c \<and>
       (cacheValid computeExtent_circle u c \<longrightarrow>
          extentOf computeExtent_circle u' c' = extentOf computeExtent_circle u c) \<and>
       (\<forall>xs. flatElements (writeNums a' xs u') c = flatElements u c \<and>
             extentOf computeExtent_circle (writeNums a' xs u') c =
               extentOf computeExtent_circle u c) \<and>
       (\<forall>xs. flatElements (writeNums a xs u') c' = flatElements u' c' \<and>
             extentOf computeExtent_circle (writeNums a xs u') c' =
               extentOf computeExtent_circle u' c'))) \<and>
   (flatCoordinates g = None \<longrightarrow> clone E s g = Inl TypeError) \<and>
   (flatCoordinates r = None \<longrightarrow> clone_ring E t r = Inl TypeError) \<and>
   (flatCoordinates c = None \<longrightarrow> clone_circle Ec u c = Inl TypeError)"
proof (intro conjI impI)
  assume "multiPolygonOK s g"
  then show "\<exists>g' s'. clone E s g = Inr (g', s') \<and> multiPolygonOK s' g' \<and>
       layout g' = layout g \<and> stride g' = stride g \<and>
       flatElements s' g' = flatElements s g \<and> endsElements s' g' = endsElements s g \<and>
       flatElements s' g = flatElements s g \<and> endsElements s' g = endsElements s g \<and>
       (\<forall>b \<in> ownedNums s' g' \<union> {endss g'}. st_next s \<le> b) \<and>
       (\<forall>b \<in> ownedNums s g \<union> {endss g}. b < st_next s) \<and>
       (cacheValid ce s g \<longrightarrow> extentOf ce s' g' = extentOf ce s g) \<and>
       (\<forall>b xs. b \<in> ownedNums s' g' \<longrightarrow>
          flatElements (writeNums b xs s') g = flatElements s g \<and>
          endsElements (writeNums b xs s') g = endsElements s g \<and>
          extentOf ce (writeNums b xs s') g = extentOf ce s g) \<and>
       (\<forall>rs. flatElements (writeRefs (endss g') rs s') g = flatElements s g \<and>
          endsElements (writeRefs (endss g') rs s') g = endsElements s g \<and>
          extentOf ce (writeRefs (endss g') rs s') g = extentOf ce s g) \<and>
       (\<forall>b xs. b \<in> ownedNums s g \<longrightarrow>
          flatElements (writeNums b xs s') g' = flatElements s' g' \<and>
          endsElements (writeNums b xs s') g' = endsElements s' g' \<and>
          extentOf ce (writeNums b xs s') g' = extentOf ce s' g') \<and>
       (\<forall>rs. flatElements (writeRefs (endss g) rs s') g' = flatElements s' g' \<and>
          endsElements (writeRefs (endss g) rs s') g' = endsElements s' g' \<and>
          extentOf ce (writeRefs (endss g) rs s') g' = extentOf ce s' g')"
    by (rule clone_multiPolygon_copy)
next
  assume "ringOK t r"
  then show "\<exists>r' t' a a'. clone_ring E t r = Inr (r', t') \<and> ringOK t' r' \<and>
       layout r' = layout r \<and> stride r' = stride r \<and>
       flatCoordinates r = Some a \<and> flatCoordinates r' = Some a' \<and>
       a < st_next t \<and> st_next t \<le> a' \<and>
       flatElements t' r' = flatElements t r \<and> flatElements t' r = flatElements t r \<and>
       (cacheValid ce t r \<longrightarrow> extentOf ce t' r' = extentOf ce t r) \<and>
       (\<forall>xs. flatElements (writeNums a' xs t') r = flatElements t r \<and>
             extentOf ce (writeNums a' xs t') r = extentOf ce t r) \<and>
       (\<forall>xs. flatElements (writeNums a xs t') r' = flatElements t' r' \<and>
             extentOf ce (writeNums a xs t') r' = extentOf ce t' r')"
    by (rule clone_ring_copy)
next
  assume "circleOK u c"
  then show "\<exists>c' u' a a'. clone_circle Ec u c = Inr (c', u') \<and> circleOK u' c' \<and>
       layout c' = layout c \<and> stride c' = stride c \<and>
       flatCoordinates c = Some a \<and> flatCoordinates c' = Some a' \<and>
       a < st_next u \<and> st_next u \<le> a' \<and>
       flatElements u' c' = flatElements u c \<and> flatElements u' c = flatElements u c \<and>
       (cacheValid computeExtent_circle u c \<longrightarrow>
          extentOf computeExtent_circle u' c' = extentOf computeExtent_circle u c) \<and>
       (\<forall>xs. flatElements (writeNums a' xs u') c = flatElements u c \<and>
             extentOf computeExtent_circle (writeNums a' xs u') c =
               extentOf computeExtent_circle u c) \<and>
       (\<forall>xs. flatElements (writeNums a xs u') c' = flatElements u' c' \<and>
             extentOf computeExtent_circle (writeNums a xs u') c' =
               extentOf computeExtent_circle u' c')"
    by (rule clone_circle_copy)
next
  assume "flatCoordinates g = None"
  then show "clone E s g = Inl TypeError" by (rule clone_null)
next
  assume "flatCoordinates r = None"
  then show "clone_ring E t r = Inl TypeError" by (rule clone_ring_null)
next
  assume "flatCoordinates c = None"
  then show "clone_circle Ec u c = Inl TypeError" by (rule clone_circle_null)
qed

theorem clone_deep_copy_witness:
  "clone None demo_store demo_multiPolygon = Inr (demo_multiPolygon_clone, demo_store_cloned) \<and>
   extentOf demo_ce demo_store_cloned demo_multiPolygon_clone = Inr (Some (0, 0, 10, 10)) \<and>
   extentOf demo_ce (writeNums 7 [5, 5, 6, 6] demo_store_cloned) demo_multiPolygon =
     Inr (Some (0, 0, 10, 10)) \<and>
   clone_ring None demo_store demo_ring = Inr (demo_ring_clone, demo_store_ring_cloned) \<and>
   flatElements demo_store_ring_cloned demo_ring_clone =
     Some [0, 0, 0, 10, 10, 10, 10, 0, 0, 0] \<and>
   clone_circle emptyExtent_js demo_store_circle demo_circle =
     Inr (demo_circle_clone, demo_store_circle_cloned) \<and>
   extentOf computeExtent_circle demo_store_circle_cloned demo_circle_clone =
     Inr (Fin (- 2), Fin (- 1), Fin 4, Fin 5) \<and>
   extentOf computeExtent_circle (writeNums 1 [0, 0, 1, 0] demo_store_circle_cloned) demo_circle =
     Inr (Fin (- 2), Fin (- 1), Fin 4, Fin 5) \<and>
   clone_circle emptyExtent_js demo_store_circle (newCircle_null emptyExtent_js) = Inl TypeError \<and>
   clone_ring None demo_store (newLinearRing_null None) = Inl TypeError \<and>
   clone None demo_store (fst (newMultiPolygon_null None demo_store)) = Inl TypeError"
proof -
  have okm: "multiPolygonOK demo_store demo_multiPolygon" using demo_ok by simp
  have okr: "ringOK demo_store demo_ring" using demo_ok by simp
  have vm: "cacheValid demo_ce demo_store demo_multiPolygon" using demo_valid by simp
  from clone_deep_copy [where s = demo_store and g = demo_multiPolygon and E = None
      and ce = demo_ce, THEN conjunct1] okm
  obtain g' s' where
    cl: "clone None demo_store demo_multiPolygon = Inr (g', s')" and
    ex: "cacheValid demo_ce demo_store demo_multiPolygon \<longrightarrow>
           extentOf demo_ce s' g' = extentOf demo_ce demo_store demo_multiPolygon" and
    wr: "\<forall>b xs. b \<in> ownedNums s' g' \<longrightarrow>
          flatElements (writeNums b xs s') demo_multiPolygon =
            flatElements demo_store demo_multiPolygon \<and>
          endsElements (writeNums b xs s') demo_multiPolygon =
            endsElements demo_store demo_multiPolygon \<and>
          extentOf demo_ce (writeNums b xs s') demo_multiPolygon =
            extentOf demo_ce demo_store demo_multiPolygon"
    by blast
  from cl demo_clone_eval have eq: "g' = demo_multiPolygon_clone" "s' = demo_store_cloned"
    by simp_all
  have e1: "extentOf demo_ce demo_store_cloned demo_multiPolygon_clone =
      Inr (Some (0, 0, 10, 10))"
    using ex vm demo_extent unfolding eq by simp
  have e2: "extentOf demo_ce (writeNums 7 [5, 5, 6, 6] demo_store_cloned) demo_multiPolygon =
      Inr (Some (0, 0, 10, 10))"
    using wr demo_own demo_extent unfolding eq by simp
  from clone_deep_copy [where t = demo_store and r = demo_ring and E = None
      and ce = demo_ce, THEN conjunct2, THEN conjunct1] okr
  obtain r' t' where
    clr: "clone_ring None demo_store demo_ring = Inr (r', t')" and
    fe: "flatElements t' r' = flatElements demo_store demo_ring"
    by blast
  from clr demo_ring_clone_eval have eqr: "r' = demo_ring_clone" "t' = demo_store_ring_cloned"
    by simp_all
  have e3: "flatElements demo_store_ring_cloned demo_ring_clone =
      Some [0, 0, 0, 10, 10, 10, 10, 0, 0, 0]"
    using fe unfolding eqr by (simp add: flatElements_def demo_store_def demo_ring_def)
  from clone_deep_copy [where u = demo_store_circle and c = demo_circle and Ec = emptyExtent_js,
      THEN conjunct2, THEN conjunct2, THEN conjunct1] demo_circle_ok
  obtain c' u' a' where
    clc: "clone_circle emptyExtent_js demo_store_circle demo_circle = Inr (c', u')" and
    fa: "flatCoordinates c' = Some a'" and
    exc: "cacheValid computeExtent_circle demo_store_circle demo_circle \<longrightarrow>
           extentOf computeExtent_circle u' c' =
             extentOf computeExtent_circle demo_store_circle demo_circle" and
    wrc: "\<forall>xs. flatElements (writeNums a' xs u') demo_circle =
                 flatElements demo_store_circle demo_circle \<and>
               extentOf computeExtent_circle (writeNums a' xs u') demo_circle =
                 extentOf computeExtent_circle demo_store_circle demo_circle"
    by blast
  from clc demo_circle_clone_eval have eqc: "c' = demo_circle_clone"
    "u' = demo_store_circle_cloned" by simp_all
  have a': "a' = 1" using fa unfolding eqc by (simp add: demo_circle_clone_def)
  have e4: "extentOf computeExtent_circle demo_store_circle_cloned demo_circle_clone =
      Inr (Fin (- 2), Fin (- 1), Fin 4, Fin 5)"
    using exc demo_circle_valid demo_circle_extent unfolding eqc by simp
  have e5: "extentOf computeExtent_circle (writeNums 1 [0, 0, 1, 0] demo_store_circle_cloned)
      demo_circle = Inr (Fin (- 2), Fin (- 1), Fin 4, Fin 5)"
    using wrc demo_circle_extent unfolding eqc a' by simp
  have n1: "clone_circle emptyExtent_js demo_store_circle (newCircle_null emptyExtent_js) =
      Inl TypeError"
    using clone_deep_copy [where u = demo_store_circle
        and c = "newCircle_null emptyExtent_js" and Ec = emptyExtent_js,
        THEN conjunct2, THEN conjunct2, THEN conjunct2, THEN conjunct2, THEN conjunct2]
    by (simp add: newCircle_null_eq)
  have n2: "clone_ring None demo_store (newLinearRing_null None) = Inl TypeError"
    using clone_deep_copy [where t = demo_store and r = "newLinearRing_null None"
        and E = None,
        THEN conjunct2, THEN conjunct2, THEN conjunct2, THEN conjunct2, THEN conjunct1]
    by (simp add: newLinearRing_null_eq)
  have n3: "clone None demo_store (fst (newMultiPolygon_null None demo_store)) = Inl TypeError"
    using clone_deep_copy [where s = demo_store
        and g = "fst (newMultiPolygon_null None demo_store)" and E = None,
        THEN conjunct2, THEN conjunct2, THEN conjunct2, THEN conjunct1]
    by (simp add: newMultiPolygon_null_eq)
  from cl eq e1 e2 clr eqr e3 clc eqc e4 e5 n1 n2 n3 show ?thesis by simp
qed

subsection \<open>Building the replay groups of a tile\<close>

lemma renderStyles_id:
  "rg_id (snd (renderStyles env feature tol styles loading rg)) = rg_id rg"
  by (induction styles arbitrary: loading rg) (simp_all add: renderFeature_vector_def)

lemma renderFeature_id:
  "rg_id (snd (renderFeature env feature tol styles rg)) = rg_id rg"
  by (cases styles) (simp_all add: renderFeature_def renderStyles_id renderFeature_vector_def)

lemma render_id:
  "rg_id (fst (render env resolution tol feature (rg, a, b))) = rg_id rg"
proof -
  have "\<And>styles. rg_id (fst (case renderFeature env feature tol styles rg of
          (d, rg') \<Rightarrow> (rg', a \<or> d, b \<or> d))) = rg_id rg"
    using renderFeature_id [of env feature tol _ rg] by (simp add: split_beta)
  then show ?thesis by (simp add: render_def Let_def)
qed

lemma featuresLoop_id:
  "rg_id (fst (snd (featuresLoop env resolution tol reproject tp projection ste tep be features b)))
     = rg_id (fst b)"
proof (induction features arbitrary: tp b)
  case Nil
  then show ?case by simp
next
  case (Cons feature rest)
  obtain rg a d where b: "b = (rg, a, d)" by (cases b)
  show ?case
    unfolding b
    by (simp add: Let_def split_beta Cons.IH) (metis render_id prod.collapse)
qed

lemma createForSourceTile_proj:
  assumes r_def: "r = createForSourceTile env frameState tile key sourceTile (rs, this, tiles)"
  shows "snd (snd r) = tiles(key \<mapsto> the (snd (snd r) key))"
    and "vr_layer (fst (snd r)) = vr_layer this"
    and "vr_nextObj (fst (snd r)) = Suc (vr_nextObj this)"
    and "renderedRevision (fst r) = renderedRevision rs"
    and "renderedRenderOrder (fst r) = renderedRenderOrder rs"
    and "st_state (the (snd (snd r) key)) = st_state sourceTile"
    and "st_tileCoord (the (snd (snd r) key)) = st_tileCoord sourceTile"
    and "getReplayGroup (the (snd (snd r) key)) (vr_layer this) (vt_tileCoord tile) \<noteq> None"
    and "rg_id (the (getReplayGroup (the (snd (snd r) key)) (vr_layer this) (vt_tileCoord tile)))
           = vr_nextObj this"
    and "rg_finished (the (getReplayGroup (the (snd (snd r) key)) (vr_layer this) (vt_tileCoord tile)))"
  unfolding r_def createForSourceTile_def
  by (simp_all add: Let_def split_beta getReplayGroup_def setReplayGroup_def featuresLoop_id
        split del: if_split) simp_all

lemma createForSourceTile_props:
  "\<exists>rs' this' st' rg.
     createForSourceTile env frameState tile key sourceTile (rs, this, tiles) =
       (rs', this', tiles(key \<mapsto> st')) \<and>
     vr_layer this' = vr_layer this \<and> vr_nextObj this' = Suc (vr_nextObj this) \<and>
     renderedRevision rs' = renderedRevision rs \<and>
     renderedRenderOrder rs' = renderedRenderOrder rs \<and>
     st_state st' = st_state sourceTile \<and>
     getReplayGroup st' (vr_layer this) (vt_tileCoord tile) = Some rg \<and>
     rg_id rg = vr_nextObj this \<and> rg_finished rg"
proof -
  define r where "r = createForSourceTile env frameState tile key sourceTile (rs, this, tiles)"
  note p = createForSourceTile_proj [OF r_def]
  obtain rg where rg: "getReplayGroup (the (snd (snd r) key)) (vr_layer this) (vt_tileCoord tile)
      = Some rg"
    using p(8) by blast
  have "r = (fst r, fst (snd r), tiles(key \<mapsto> the (snd (snd r) key)))"
    using p(1) by (metis prod.collapse)
  then show ?thesis
    using p(2-7) p(9,10) rg unfolding r_def [symmetric] by (metis option.sel)
qed


lemma usableKeys_sameStates:
  assumes s: "sameStates tiles tiles'"
  shows "usableKeys tiles' keys = usableKeys tiles keys"
proof -
  have "\<And>k. inError tiles' k = inError tiles k"
  proof -
    fix k
    have "map_option st_state (tiles' k) = map_option st_state (tiles k)"
      using s by (simp add: sameStates_def)
    then show "inError tiles' k = inError tiles k"
      by (cases "tiles k"; cases "tiles' k") (simp_all add: inError_def)
  qed
  then show ?thesis by (simp add: usableKeys_def)
qed

lemma sameStates_refl: "sameStates tiles tiles"
  by (simp add: sameStates_def)

lemma sameStates_trans:
  "sameStates a b \<Longrightarrow> sameStates b c \<Longrightarrow> sameStates a c"
  by (simp add: sameStates_def)

lemma sameStates_upd:
  "tiles key = Some st \<Longrightarrow> st_state st' = st_state st \<Longrightarrow> sameStates tiles (tiles(key \<mapsto> st'))"
  by (simp add: sameStates_def)

lemma createKeysLoop_built:
  "createKeysLoop env frameState tile keys c = Inr c' \<Longrightarrow> keysBuilt tile keys c c'"
proof (induction keys arbitrary: c)
  case Nil
  then show ?case
    by (cases c) (auto simp: keysBuilt_def usableKeys_def sameStates_refl)
next
  case (Cons key keys)
  obtain rs this tiles where c: "c = (rs, this, tiles)" by (cases c) auto
  obtain rs' this' tiles' where c': "c' = (rs', this', tiles')" by (cases c') auto
  from Cons.prems obtain sourceTile where st: "tiles key = Some sourceTile"
    unfolding c by (cases "tiles key") simp_all
  show ?case
  proof (cases "st_state sourceTile = ERROR")
    case True
    then have "createKeysLoop env frameState tile keys c = Inr c'"
      using Cons.prems st unfolding c by simp
    from Cons.IH [OF this] have kb: "keysBuilt tile keys c c'" .
    have ie: "inError tiles key" using st True by (simp add: inError_def)
    then have uk: "usableKeys tiles (key # keys) = usableKeys tiles keys"
      by (simp add: usableKeys_def)
    show ?thesis using kb unfolding c c' keysBuilt_def prod.case uk .
  next
    case False
    obtain rs1 this1 st1 rg1 where
      cf: "createForSourceTile env frameState tile key sourceTile (rs, this, tiles) =
             (rs1, this1, tiles(key \<mapsto> st1))" and
      l1: "vr_layer this1 = vr_layer this" and
      n1: "vr_nextObj this1 = Suc (vr_nextObj this)" and
      r1: "renderedRevision rs1 = renderedRevision rs" and
      o1: "renderedRenderOrder rs1 = renderedRenderOrder rs" and
      s1: "st_state st1 = st_state sourceTile" and
      g1: "getReplayGroup st1 (vr_layer this) (vt_tileCoord tile) = Some rg1" and
      i1: "rg_id rg1 = vr_nextObj this" and
      f1: "rg_finished rg1"
      using createForSourceTile_props [of env frameState tile key sourceTile rs this tiles]
      by blast
    define tiles1 where "tiles1 = tiles(key \<mapsto> st1)"
    have "createKeysLoop env frameState tile keys (rs1, this1, tiles1) = Inr c'"
      using Cons.prems st False cf unfolding c tiles1_def by simp
    from Cons.IH [OF this] have kb: "keysBuilt tile keys (rs1, this1, tiles1) (rs', this', tiles')"
      unfolding c' .
    have ss1: "sameStates tiles tiles1"
      unfolding tiles1_def using st s1 by (rule sameStates_upd)
    have uk1: "usableKeys tiles1 keys = usableKeys tiles keys"
      using ss1 by (rule usableKeys_sameStates)
    have ne: "\<not> inError tiles key" using st False by (simp add: inError_def)
    then have uk: "usableKeys tiles (key # keys) = key # usableKeys tiles keys"
      by (simp add: usableKeys_def)
    from kb have
      a: "vr_layer this' = vr_layer this1" and
      b: "vr_nextObj this' = vr_nextObj this1 + length (usableKeys tiles keys)" and
      d: "renderedRevision rs' = renderedRevision rs1" and
      e: "renderedRenderOrder rs' = renderedRenderOrder rs1" and
      f: "sameStates tiles1 tiles'" and
      g: "\<forall>k. k \<notin> set (usableKeys tiles keys) \<longrightarrow> tiles' k = tiles1 k" and
      h: "\<forall>k \<in> set (usableKeys tiles keys).
           \<exists>st rg. tiles' k = Some st \<and>
             getReplayGroup st (vr_layer this1) (vt_tileCoord tile) = Some rg \<and>
             vr_nextObj this1 \<le> rg_id rg \<and> rg_id rg < vr_nextObj this' \<and> rg_finished rg"
      unfolding keysBuilt_def prod.case uk1 by blast+
    have g': "\<forall>k. k \<notin> set (key # usableKeys tiles keys) \<longrightarrow> tiles' k = tiles k"
      using g by (simp add: tiles1_def)
    have h': "\<forall>k \<in> set (key # usableKeys tiles keys).
           \<exists>st rg. tiles' k = Some st \<and>
             getReplayGroup st (vr_layer this) (vt_tileCoord tile) = Some rg \<and>
             vr_nextObj this \<le> rg_id rg \<and> rg_id rg < vr_nextObj this' \<and> rg_finished rg"
    proof
      fix k assume k: "k \<in> set (key # usableKeys tiles keys)"
      show "\<exists>st rg. tiles' k = Some st \<and>
             getReplayGroup st (vr_layer this) (vt_tileCoord tile) = Some rg \<and>
             vr_nextObj this \<le> rg_id rg \<and> rg_id rg < vr_nextObj this' \<and> rg_finished rg"
      proof (cases "k \<in> set (usableKeys tiles keys)")
        case True
        with h obtain st rg where
          "tiles' k = Some st" "getReplayGroup st (vr_layer this1) (vt_tileCoord tile) = Some rg"
          "vr_nextObj this1 \<le> rg_id rg" "rg_id rg < vr_nextObj this'" "rg_finished rg"
          by blast
        then show ?thesis using l1 n1 by auto
      next
        case False
        with k have kk: "k = key" by simp
        have "tiles' key = tiles1 key" using g False kk by simp
        then have "tiles' key = Some st1" by (simp add: tiles1_def)
        then show ?thesis using g1 i1 f1 b n1 kk by auto
      qed
    qed
    have a': "vr_layer this' = vr_layer this" using a l1 by simp
    have nb: "vr_nextObj this' = vr_nextObj this + length (key # usableKeys tiles keys)"
      using b n1 by simp
    have d': "renderedRevision rs' = renderedRevision rs" using d r1 by simp
    have e': "renderedRenderOrder rs' = renderedRenderOrder rs" using e o1 by simp
    have ss: "sameStates tiles tiles'" using ss1 f by (rule sameStates_trans)
    show ?thesis
      unfolding c c' keysBuilt_def prod.case uk
      using a' nb d' e' ss g' h' by blast
  qed
qed

lemma createKeysLoop_returns:
  "\<forall>k \<in> set keys. snd (snd c) k \<noteq> None \<Longrightarrow> \<exists>c'. createKeysLoop env frameState tile keys c = Inr c'"
proof (induction keys arbitrary: c)
  case Nil
  show ?case by (rule exI [of _ c]) simp
next
  case (Cons key keys)
  obtain rs this tiles where c: "c = (rs, this, tiles)" by (cases c) auto
  from Cons.prems obtain sourceTile where st: "tiles key = Some sourceTile"
    unfolding c by auto
  show ?case
  proof (cases "st_state sourceTile = ERROR")
    case True
    have "\<forall>k \<in> set keys. snd (snd c) k \<noteq> None" using Cons.prems by simp
    from Cons.IH [OF this] show ?thesis using st True unfolding c by simp
  next
    case False
    obtain rs1 this1 st1 where
      cf: "createForSourceTile env frameState tile key sourceTile (rs, this, tiles) =
             (rs1, this1, tiles(key \<mapsto> st1))"
      using createForSourceTile_props [of env frameState tile key sourceTile rs this tiles]
      by blast
    have "\<forall>k \<in> set keys. snd (snd (rs1, this1, tiles(key \<mapsto> st1))) k \<noteq> None"
      using Cons.prems unfolding c by simp
    from Cons.IH [OF this] show ?thesis using st False cf unfolding c by simp
  qed
qed

lemma vt_create_eval:
  "createReplayGroup vt_env vt_frameState vt_tile1 vt_renderer vt_sources =
     Inr (vt_tile1_built, vt_renderer1, vt_sources1)"
  by (simp add: createReplayGroup_def vt_env_def vt_frameState_def vt_tile1_def vt_renderer_def
      vt_sources_def vt_layer_def getReplayState_def initialReplayState_def
      createForSourceTile_def vt_sourceA_def vt_sourceB_def vt_sourceC_def vt_grid_def
      vt_projection_def Let_def render_def renderFeature_def renderFeature_vector_def
      setReplayGroup_def setReplayState_def vt_tile1_built_def vt_renderer1_def vt_sources1_def
      vt_groupA_def vt_renderedState_def vt_feature1_def vt_feature2_def TILE_PIXELS_def)




subsection \<open>Hit detection of the vector tile layer renderer\<close>

lemma hitCallback_inv:
  assumes "hitInv h"
  shows "hitInv (snd (hitCallback callback layer feature h))"
  using assms by (auto simp: hitInv_def hitCallback_def Let_def)

lemma replayGroupForEach_inv:
  "hitInv h \<Longrightarrow> hitInv (snd (replayGroupForEach callback layer fs h))"
proof (induction fs arbitrary: h)
  case Nil
  then show ?case by simp
next
  case (Cons f fs)
  obtain r h' where hc: "hitCallback callback layer f h = (r, h')" by (cases "hitCallback callback layer f h")
  have inv': "hitInv h'" using hitCallback_inv [OF Cons.prems, of callback layer f] hc by simp
  show ?case
  proof (cases r)
    case (Inl e)
    then show ?thesis using hc inv' by simp
  next
    case (Inr res)
    then show ?thesis using hc inv' Cons.IH [OF inv'] by simp
  qed
qed

lemma hitInv_found: "hitInv (h\<lparr>hs_found := r\<rparr>) = hitInv h"
  by (simp add: hitInv_def)

lemma hitKeysLoop_inv:
  "hitInv h \<Longrightarrow> hitInv (snd (hitKeysLoop env frameState layer tiles coordinate hitTolerance callback tile keys h))"
proof (induction keys arbitrary: h)
  case Nil
  then show ?case by simp
next
  case (Cons key keys)
  show ?case
  proof (cases "tiles key")
    case None
    then show ?thesis using Cons.prems by simp
  next
    case (Some sourceTile)
    show ?thesis
    proof (cases "st_state sourceTile = ERROR \<or> truthy (hs_found h)")
      case True
      then show ?thesis using Some Cons.IH [OF Cons.prems] by auto
    next
      case False
      show ?thesis
      proof (cases "getReplayGroup sourceTile layer (vt_tileCoord tile)")
        case None
        then show ?thesis using Some False Cons.prems by simp
      next
        case (Some replayGroup)
        define cs where "cs = ve_candidates env replayGroup coordinate (vf_resolution frameState)
                               (vf_rotation frameState) hitTolerance"
        obtain r h' where rg: "replayGroupForEach callback layer cs h = (r, h')"
          by (cases "replayGroupForEach callback layer cs h")
        have inv': "hitInv h'" using replayGroupForEach_inv [OF Cons.prems, of callback layer cs] rg by simp
        show ?thesis
        proof (cases r)
          case (Inl e)
          then show ?thesis using \<open>tiles key = Some sourceTile\<close> False Some rg inv'
            by (simp add: cs_def [symmetric])
        next
          case (Inr res)
          have "hitInv (h'\<lparr>hs_found := res\<rparr>)" using inv' by (simp add: hitInv_found)
          from Cons.IH [OF this] show ?thesis
            using \<open>tiles key = Some sourceTile\<close> False Some rg Inr
            by (simp add: cs_def [symmetric])
        qed
      qed
    qed
  qed
qed

lemma hitTilesLoop_inv:
  "hitInv h \<Longrightarrow> hitInv (snd (hitTilesLoop env frameState layer tiles coordinate hitTolerance callback ts h))"
proof (induction ts arbitrary: h)
  case Nil
  then show ?case by simp
next
  case (Cons tile rest)
  obtain r h' where kl: "hitKeysLoop env frameState layer tiles coordinate hitTolerance callback tile
                      (vt_tileKeys tile) h = (r, h')"
    by (cases "hitKeysLoop env frameState layer tiles coordinate hitTolerance callback tile
                      (vt_tileKeys tile) h")
  have inv': "hitInv h'"
    using hitKeysLoop_inv [OF Cons.prems, of env frameState layer tiles coordinate hitTolerance callback tile "vt_tileKeys tile"] kl by simp
  show ?case
    using Cons.IH [OF Cons.prems] Cons.IH [OF inv'] kl inv'
    by (cases r) (simp_all add: Let_def)
qed

lemma vt_hit_eval:
  "forEachFeatureAtCoordinate vt_env vt_renderer_built vt_built (15, 15) vt_frameState 0
     vt_callback =
   (None, \<lparr>hs_found = JUndefined, hs_features = {11, 12},
            hs_calls = [vt_feature1, vt_feature2]\<rparr>)"
  by (simp add: forEachFeatureAtCoordinate_def vt_env_def vt_renderer_built_def vt_built_def
      vt_sources1_def vt_sources_def vt_frameState_def vt_callback_def vt_layer_def
      vt_renderer_def vt_tile0_built_def vt_tile1_built_def vt_tile0_def vt_tile1_def
      vt_tileAborted_def vt_grid_def vt_sourceA_def vt_sourceB_def vt_sourceC_def
      vt_groupA_def vt_groupC_def vt_feature1_def vt_feature2_def vt_projection_def
      getReplayGroup_def hitCallback_def getUid_def Let_def insert_commute)

text \<open>
  Claim C10: within one call of \<open>forEachFeatureAtCoordinate\<close> of the vector tile layer
  renderer, the features the callback is called with, in the order of the calls, have
  pairwise distinct uids: the callback is invoked at most once for a feature, whatever the
  replay groups of the rendered tiles and of their source tiles report, and whether the call
  returns or throws; and the dictionary \<open>features\<close> holds exactly the uids of the features
  the callback was called with. In the example the feature with uid 11 is reported by the replay groups
  of two rendered tiles and the callback is called with it once.
\<close>

theorem forEachFeatureAtCoordinate_once:
  "distinct (map getUid (hs_calls (snd (forEachFeatureAtCoordinate env this tiles coordinate
      frameState hitTolerance callback)))) \<and>
   getUid ` set (hs_calls (snd (forEachFeatureAtCoordinate env this tiles coordinate
      frameState hitTolerance callback))) =
   hs_features (snd (forEachFeatureAtCoordinate env this tiles coordinate
      frameState hitTolerance callback))"
proof -
  have "hitInv \<lparr>hs_found = JUndefined, hs_features = {}, hs_calls = ([] :: 'a Feature list)\<rparr>"
    by (simp add: hitInv_def)
  from hitTilesLoop_inv [OF this] show ?thesis
    unfolding forEachFeatureAtCoordinate_def hitInv_def by blast
qed

theorem forEachFeatureAtCoordinate_once_witness:
  "hs_calls (snd (forEachFeatureAtCoordinate vt_env vt_renderer_built vt_built (15, 15)
      vt_frameState 0 vt_callback)) = [vt_feature1, vt_feature2] \<and>
   ve_candidates vt_env vt_groupC (15, 15) 1 0 0 = [vt_feature1] \<and>
   ve_candidates vt_env vt_groupA (15, 15) 1 0 0 = [vt_feature1, vt_feature2] \<and>
   distinct (map getUid [vt_feature1, vt_feature2])"
proof -
  have c: "hs_calls (snd (forEachFeatureAtCoordinate vt_env vt_renderer_built vt_built (15, 15)
      vt_frameState 0 vt_callback)) = [vt_feature1, vt_feature2]"
    by (simp add: vt_hit_eval)
  have k: "ve_candidates vt_env vt_groupC (15, 15) 1 0 0 = [vt_feature1] \<and>
      ve_candidates vt_env vt_groupA (15, 15) 1 0 0 = [vt_feature1, vt_feature2]"
    by (simp add: vt_env_def vt_groupA_def vt_groupC_def)
  have d: "distinct (map getUid [vt_feature1, vt_feature2])"
    using forEachFeatureAtCoordinate_once [of vt_env vt_renderer_built vt_built "(15, 15)"
      vt_frameState 0 vt_callback, THEN conjunct1]
    unfolding c .
  from c k d show ?thesis by simp
qed

subsection \<open>The compositing pass\<close>









lemma composeTilesLoop_append:
  "composeTilesLoop env frameState layer opacity tiles (ts1 @ ts2) c =
     (case composeTilesLoop env frameState layer opacity tiles ts1 c of
        Inl e \<Rightarrow> Inl e
      | Inr c1 \<Rightarrow> composeTilesLoop env frameState layer opacity tiles ts2 c1)"
  by (induction ts1 arbitrary: c) (simp_all add: Let_def split: sum.splits)










subsection \<open>Source tiles in the state ERROR and tiles in the state ABORT\<close>

lemma usableKeys_Cons_error:
  "inError tiles key \<Longrightarrow> usableKeys tiles (key # keys) = usableKeys tiles keys"
  by (simp add: usableKeys_def)

lemma usableKeys_Cons_usable:
  "\<not> inError tiles key \<Longrightarrow> usableKeys tiles (key # keys) = key # usableKeys tiles keys"
  by (simp add: usableKeys_def)

lemma createKeysLoop_skips:
  "createKeysLoop env frameState tile keys (rs, this, tiles) =
   createKeysLoop env frameState tile (usableKeys tiles keys) (rs, this, tiles)"
proof (induction keys arbitrary: rs this tiles)
  case Nil
  then show ?case by (simp add: usableKeys_def)
next
  case (Cons key keys)
  show ?case
  proof (cases "tiles key")
    case None
    then have "\<not> inError tiles key" by (simp add: inError_def)
    then show ?thesis using None by (simp add: usableKeys_Cons_usable)
  next
    case (Some sourceTile)
    show ?thesis
    proof (cases "st_state sourceTile = ERROR")
      case True
      then have "inError tiles key" using Some by (simp add: inError_def)
      then show ?thesis using Some True Cons.IH [of rs this tiles]
        by (simp add: usableKeys_Cons_error)
    next
      case False
      then have ne: "\<not> inError tiles key" using Some by (simp add: inError_def)
      obtain rs1 this1 st1 where
        cf0: "createForSourceTile env frameState tile key sourceTile (rs, this, tiles) =
               (rs1, this1, tiles(key \<mapsto> st1))" and
        s1: "st_state st1 = st_state sourceTile"
        using createForSourceTile_props [of env frameState tile key sourceTile rs this tiles]
        by blast
      define tiles1 where "tiles1 = tiles(key \<mapsto> st1)"
      have cf: "createForSourceTile env frameState tile key sourceTile (rs, this, tiles) =
               (rs1, this1, tiles1)"
        using cf0 by (simp only: tiles1_def)
      have ss: "sameStates tiles tiles1"
        unfolding tiles1_def using Some s1 by (rule sameStates_upd)
      have uk: "usableKeys tiles1 keys = usableKeys tiles keys"
        using ss by (rule usableKeys_sameStates)
      have "createKeysLoop env frameState tile (key # keys) (rs, this, tiles) =
            createKeysLoop env frameState tile keys (rs1, this1, tiles1)"
        using Some False cf by simp
      also have "\<dots> = createKeysLoop env frameState tile (usableKeys tiles keys)
            (rs1, this1, tiles1)"
        using Cons.IH [of rs1 this1 tiles1] unfolding uk .
      also have "\<dots> = createKeysLoop env frameState tile (key # usableKeys tiles keys)
            (rs, this, tiles)"
        using Some False cf by simp
      finally show ?thesis unfolding usableKeys_Cons_usable [OF ne] .
    qed
  qed
qed

lemma createReplayGroup_error_untouched:
  assumes "createReplayGroup env frameState tile this tiles = Inr (tile', this', tiles')"
    and "inError tiles key"
  shows "tiles' key = tiles key"
proof (cases "clean tile (vr_layer this)")
  case True
  then show ?thesis using assms(1) by (simp add: createReplayGroup_def clean_def Let_def)
next
  case False
  then obtain rs' where
    kl: "createKeysLoop env frameState tile (vt_tileKeys tile)
           (getReplayState tile (vr_layer this), this, tiles) = Inr (rs', this', tiles')"
    using assms(1)
    by (auto simp: createReplayGroup_def clean_def Let_def split: sum.splits)
  have "key \<notin> set (usableKeys tiles (vt_tileKeys tile))"
    using assms(2) by (simp add: usableKeys_def)
  with createKeysLoop_built [OF kl] show ?thesis
    unfolding keysBuilt_def prod.case by blast
qed

lemma createReplayGroup_returns:
  assumes "\<forall>key \<in> set (vt_tileKeys tile). tiles key \<noteq> None"
  shows "\<exists>r. createReplayGroup env frameState tile this tiles = Inr r"
proof -
  have "\<forall>k \<in> set (vt_tileKeys tile).
      snd (snd (getReplayState tile (vr_layer this), this, tiles)) k \<noteq> None"
    using assms by simp
  from createKeysLoop_returns [OF this, of env frameState tile]
  obtain c' where "createKeysLoop env frameState tile (vt_tileKeys tile)
      (getReplayState tile (vr_layer this), this, tiles) = Inr c'" by blast
  then show ?thesis
    by (cases c') (simp add: createReplayGroup_def Let_def)
qed

lemma composeKeysLoop_skips:
  "composeKeysLoop env frameState layer opacity tiles tile worldOffset keys transform c =
   composeKeysLoop env frameState layer opacity tiles tile worldOffset (usableKeys tiles keys)
     transform c"
proof (induction keys arbitrary: transform c)
  case Nil
  then show ?case by (simp add: usableKeys_def)
next
  case (Cons key keys)
  show ?case
  proof (cases "inError tiles key")
    case True
    then show ?thesis using Cons.IH
      by (auto simp: usableKeys_Cons_error inError_def split: option.splits)
  next
    case False
    then show ?thesis using Cons.IH
      by (auto simp: usableKeys_Cons_usable inError_def Let_def split: option.splits prod.splits)
  qed
qed

lemma composeKeysLoop_tile:
  "composeKeysLoop env frameState layer opacity tiles (tile\<lparr>vt_tileKeys := ks\<rparr>) worldOffset
      keys transform c =
   composeKeysLoop env frameState layer opacity tiles tile worldOffset keys transform c"
  by (induction keys arbitrary: transform c)
     (auto simp: Let_def split: option.splits prod.splits)

lemma composeTilesLoop_skips:
  "composeTilesLoop env frameState layer opacity tiles ts c =
   composeTilesLoop env frameState layer opacity tiles (map (usableTile tiles) (notAborted ts)) c"
proof (induction ts arbitrary: c)
  case Nil
  then show ?case by (simp add: notAborted_def)
next
  case (Cons tile rest)
  have ih: "\<And>c. composeTilesLoop env frameState layer opacity tiles rest c =
     composeTilesLoop env frameState layer opacity tiles
       (map (usableTile tiles) (notAborted rest)) c"
    using Cons.IH .
  show ?case
  proof (cases "vt_state tile = ABORT")
    case True
    then show ?thesis using ih by (simp add: notAborted_def)
  next
    case False
    have na: "notAborted (tile # rest) = tile # notAborted rest"
      using False by (simp add: notAborted_def)
    have k: "\<And>w. composeKeysLoop env frameState layer opacity tiles (usableTile tiles tile) w
          (vt_tileKeys (usableTile tiles tile)) None c =
        composeKeysLoop env frameState layer opacity tiles tile w (vt_tileKeys tile) None c"
      unfolding usableTile_def
      by (simp add: composeKeysLoop_tile composeKeysLoop_skips [symmetric])
    show ?thesis
      unfolding na
      using False ih
      by (simp add: Let_def k) (simp add: usableTile_def split: sum.splits)
  qed
qed


lemma notAborted_rev: "notAborted (rev ts) = rev (notAborted ts)"
  by (simp add: notAborted_def rev_filter)

lemma postCompose_skips:
  "postCompose env this tiles frameState opacity =
   postCompose env (this\<lparr>vr_renderedTiles :=
       map (usableTile tiles) (notAborted (vr_renderedTiles this))\<rparr>) tiles frameState opacity"
proof -
  have "composeTilesLoop env frameState (vr_layer this) opacity tiles
          (rev (map (usableTile tiles) (notAborted (vr_renderedTiles this)))) c =
        composeTilesLoop env frameState (vr_layer this) opacity tiles
          (rev (vr_renderedTiles this)) c" for c
    using composeTilesLoop_skips [of env frameState "vr_layer this" opacity tiles
        "rev (vr_renderedTiles this)" c]
    by (simp add: notAborted_rev rev_map)
  then show ?thesis by (simp add: postCompose_def Let_def)
qed

lemma imageKeysLoop_skips:
  "imageKeysLoop env layer tiles tile pixelScale tileExtent replays keys ops =
   imageKeysLoop env layer tiles tile pixelScale tileExtent replays (usableKeys tiles keys) ops"
proof (induction keys arbitrary: ops)
  case Nil
  then show ?case by (simp add: usableKeys_def)
next
  case (Cons key keys)
  show ?case
  proof (cases "inError tiles key")
    case True
    then show ?thesis using Cons.IH
      by (auto simp: usableKeys_Cons_error inError_def split: option.splits)
  next
    case False
    then show ?thesis using Cons.IH
      by (auto simp: usableKeys_Cons_usable inError_def split: option.splits)
  qed
qed

lemma imageKeysLoop_tile:
  "imageKeysLoop env layer tiles (tile\<lparr>vt_tileKeys := ks\<rparr>) pixelScale tileExtent replays keys ops =
   imageKeysLoop env layer tiles tile pixelScale tileExtent replays keys ops"
  by (induction keys arbitrary: ops) (auto split: option.splits)

lemma renderTileImage_skips:
  "renderTileImage_ops env this tiles tile frameState =
   renderTileImage_ops env this tiles (usableTile tiles tile) frameState"
proof -
  have k: "imageKeysLoop env layer tiles (usableTile tiles tile) p e r
             (vt_tileKeys (usableTile tiles tile)) ops =
           imageKeysLoop env layer tiles tile p e r (vt_tileKeys tile) ops" for layer p e r ops
    unfolding usableTile_def
    by (simp add: imageKeysLoop_tile imageKeysLoop_skips [symmetric])
  have g: "getReplayState (usableTile tiles tile) l = getReplayState tile l" for l
    by (simp add: getReplayState_def usableTile_def)
  have w: "vt_wrappedTileCoord (usableTile tiles tile) = vt_wrappedTileCoord tile"
    by (simp add: usableTile_def)
  show ?thesis
    unfolding renderTileImage_ops_def renderTileImage_def
    by (simp add: Let_def k g w split: option.splits sum.splits)
qed

lemma hitKeysLoop_skips:
  "hitKeysLoop env frameState layer tiles coordinate hitTolerance callback tile keys h =
   hitKeysLoop env frameState layer tiles coordinate hitTolerance callback tile
     (usableKeys tiles keys) h"
proof (induction keys arbitrary: h)
  case Nil
  then show ?case by (simp add: usableKeys_def)
next
  case (Cons key keys)
  show ?case
  proof (cases "inError tiles key")
    case True
    then show ?thesis using Cons.IH
      by (auto simp: usableKeys_Cons_error inError_def split: option.splits)
  next
    case False
    then show ?thesis using Cons.IH
      by (auto simp: usableKeys_Cons_usable inError_def
          split: option.splits prod.splits sum.splits)
  qed
qed

lemma hitKeysLoop_tile:
  "hitKeysLoop env frameState layer tiles coordinate hitTolerance callback
     (tile\<lparr>vt_tileKeys := ks\<rparr>) keys h =
   hitKeysLoop env frameState layer tiles coordinate hitTolerance callback tile keys h"
  by (induction keys arbitrary: h) (auto split: option.splits prod.splits sum.splits)

lemma hitTilesLoop_skips:
  "hitTilesLoop env frameState layer tiles coordinate hitTolerance callback ts h =
   hitTilesLoop env frameState layer tiles coordinate hitTolerance callback
     (map (usableTile tiles) ts) h"
proof (induction ts arbitrary: h)
  case Nil
  then show ?case by simp
next
  case (Cons tile rest)
  have k: "hitKeysLoop env frameState layer tiles coordinate hitTolerance callback
             (usableTile tiles tile) (vt_tileKeys (usableTile tiles tile)) h =
           hitKeysLoop env frameState layer tiles coordinate hitTolerance callback tile
             (vt_tileKeys tile) h"
    unfolding usableTile_def
    by (simp add: hitKeysLoop_tile hitKeysLoop_skips [symmetric])
  have w: "vt_wrappedTileCoord (usableTile tiles tile) = vt_wrappedTileCoord tile"
    by (simp add: usableTile_def)
  show ?case
    using Cons.IH
    by (simp add: Let_def k w split: prod.splits option.splits)
qed

lemma forEachFeatureAtCoordinate_skips:
  "forEachFeatureAtCoordinate env this tiles coordinate frameState hitTolerance callback =
   forEachFeatureAtCoordinate env
     (this\<lparr>vr_renderedTiles := map (usableTile tiles) (vr_renderedTiles this)\<rparr>)
     tiles coordinate frameState hitTolerance callback"
  using hitTilesLoop_skips [of env frameState "vr_layer this" tiles coordinate hitTolerance
      callback "vr_renderedTiles this"]
  by (simp add: forEachFeatureAtCoordinate_def)


text \<open>
  Claim C4: a source tile in the state \<open>ERROR\<close> is passed over everywhere. Building the
  replay groups of a tile gives what it gives for the tile's keys without those of the
  source tiles in the state \<open>ERROR\<close>, it leaves every such source tile as it was (no replay
  group is set on it, its features are neither sorted nor transformed nor rendered), and it
  returns whenever every key of the tile has its source tile, whatever their states. The
  compositing pass gives what it gives for the rendered tiles without the composite tiles in
  the state \<open>ABORT\<close> and without the keys of the source tiles in the state \<open>ERROR\<close>; drawing
  the image of a tile makes the calls it makes without those keys; and the hit detection
  gives what it gives without them: every other source tile and tile is processed as if the
  ones passed over were not there.
\<close>

theorem error_tiles_skipped:
  "createKeysLoop env frameState tile keys (rs, this, tiles) =
     createKeysLoop env frameState tile (usableKeys tiles keys) (rs, this, tiles) \<and>
   (createReplayGroup env frameState tile this tiles = Inr (tile', this', tiles') \<longrightarrow>
      (\<forall>key. inError tiles key \<longrightarrow> tiles' key = tiles key)) \<and>
   ((\<forall>key \<in> set (vt_tileKeys tile). tiles key \<noteq> None) \<longrightarrow>
      (\<exists>r. createReplayGroup env frameState tile this tiles = Inr r)) \<and>
   postCompose env this tiles frameState opacity =
     postCompose env
       (this\<lparr>vr_renderedTiles := map (usableTile tiles) (notAborted (vr_renderedTiles this))\<rparr>)
       tiles frameState opacity \<and>
   renderTileImage_ops env this tiles tile frameState =
     renderTileImage_ops env this tiles (usableTile tiles tile) frameState \<and>
   forEachFeatureAtCoordinate env this tiles coordinate frameState hitTolerance callback =
     forEachFeatureAtCoordinate env
       (this\<lparr>vr_renderedTiles := map (usableTile tiles) (vr_renderedTiles this)\<rparr>)
       tiles coordinate frameState hitTolerance callback"
proof (intro conjI impI allI)
  show "createKeysLoop env frameState tile keys (rs, this, tiles) =
     createKeysLoop env frameState tile (usableKeys tiles keys) (rs, this, tiles)"
    by (rule createKeysLoop_skips)
next
  fix key
  assume "createReplayGroup env frameState tile this tiles = Inr (tile', this', tiles')"
    and "inError tiles key"
  then show "tiles' key = tiles key" by (rule createReplayGroup_error_untouched)
next
  assume "\<forall>key \<in> set (vt_tileKeys tile). tiles key \<noteq> None"
  then show "\<exists>r. createReplayGroup env frameState tile this tiles = Inr r"
    by (rule createReplayGroup_returns)
next
  show "postCompose env this tiles frameState opacity =
     postCompose env
       (this\<lparr>vr_renderedTiles := map (usableTile tiles) (notAborted (vr_renderedTiles this))\<rparr>)
       tiles frameState opacity"
    by (rule postCompose_skips)
next
  show "renderTileImage_ops env this tiles tile frameState =
     renderTileImage_ops env this tiles (usableTile tiles tile) frameState"
    by (rule renderTileImage_skips)
next
  show "forEachFeatureAtCoordinate env this tiles coordinate frameState hitTolerance callback =
     forEachFeatureAtCoordinate env
       (this\<lparr>vr_renderedTiles := map (usableTile tiles) (vr_renderedTiles this)\<rparr>)
       tiles coordinate frameState hitTolerance callback"
    by (rule forEachFeatureAtCoordinate_skips)
qed

theorem error_tiles_skipped_witness:
  "inError vt_sources ''b'' \<and>
   createReplayGroup vt_env vt_frameState vt_tile1 vt_renderer vt_sources =
     Inr (vt_tile1_built, vt_renderer1, vt_sources1) \<and>
   vt_sources1 ''b'' = Some vt_sourceB \<and>
   map (usableTile vt_built) (notAborted (vr_renderedTiles vt_renderer_built)) =
     [vt_tile0_built, vt_tile1_built\<lparr>vt_tileKeys := [''a'']\<rparr>] \<and>
   postCompose vt_env vt_renderer_built vt_built vt_frameState (Fin 1) =
     postCompose vt_env
       (vt_renderer_built\<lparr>vr_renderedTiles :=
          [vt_tile0_built, vt_tile1_built\<lparr>vt_tileKeys := [''a'']\<rparr>]\<rparr>)
       vt_built vt_frameState (Fin 1)"
proof -
  have ie: "inError vt_sources ''b''"
    by (simp add: inError_def vt_sources_def vt_sourceB_def)
  have keys: "\<forall>key \<in> set (vt_tileKeys vt_tile1). vt_sources key \<noteq> None"
    by (simp add: vt_tile1_def vt_sources_def)
  note t = error_tiles_skipped [where env = vt_env and frameState = vt_frameState
      and tile = vt_tile1 and this = vt_renderer and tiles = vt_sources
      and tile' = vt_tile1_built and this' = vt_renderer1 and tiles' = vt_sources1]
  from t [THEN conjunct2, THEN conjunct2, THEN conjunct1] keys
  obtain r where "createReplayGroup vt_env vt_frameState vt_tile1 vt_renderer vt_sources = Inr r"
    by blast
  from t [THEN conjunct2, THEN conjunct1] vt_create_eval ie
  have "vt_sources1 ''b'' = vt_sources ''b''" by blast
  then have b: "vt_sources1 ''b'' = Some vt_sourceB" by (simp add: vt_sources_def)
  have u: "map (usableTile vt_built) (notAborted (vr_renderedTiles vt_renderer_built)) =
     [vt_tile0_built, vt_tile1_built\<lparr>vt_tileKeys := [''a'']\<rparr>]"
    by (simp add: usableTile_def notAborted_def usableKeys_def inError_def
        vt_renderer_built_def vt_built_def vt_sources1_def vt_sources_def
        vt_tile0_built_def vt_tile1_built_def vt_tile0_def vt_tile1_def vt_tileAborted_def
        vt_sourceA_def vt_sourceB_def vt_sourceC_def)
  have p: "postCompose vt_env vt_renderer_built vt_built vt_frameState (Fin 1) =
     postCompose vt_env
       (vt_renderer_built\<lparr>vr_renderedTiles :=
          [vt_tile0_built, vt_tile1_built\<lparr>vt_tileKeys := [''a'']\<rparr>]\<rparr>)
       vt_built vt_frameState (Fin 1)"
    using error_tiles_skipped [where env = vt_env and frameState = vt_frameState
      and this = vt_renderer_built and tiles = vt_built and opacity = "Fin 1",
      THEN conjunct2, THEN conjunct2, THEN conjunct2, THEN conjunct1]
    unfolding u .
  from ie vt_create_eval b u p show ?thesis by simp
qed
end
